theory Spec2Isabelle
  imports Complex_Main
begin

section \<open>WPlace tile stitcher: a model of \<^verbatim>\<open>wplace_capture.py\<close>\<close>

text \<open>
  The script turns a latitude/longitude into a tile index, builds a square grid of tiles
  around it, downloads every tile into a directory (with retries and a zero-length marker
  for a tile that could not be fetched) and pastes the tiles into one canvas.

  Conventions of the model:
  \<^item> A Python float is a finite real, an infinity or NaN. An arithmetic result beyond the
    largest double becomes an infinity; within that range the exact value stands for the
    double nearest to it (rounding is not modelled, and nothing below depends on the
    exact value of a rounded result). The delay and the progress milestones are \<open>rat\<close>.
  \<^item> Python integers are \<open>int\<close>; \<open>//\<close> and \<open>%\<close> with a positive divisor are \<open>div\<close> and \<open>mod\<close>.
  \<^item> An exception is a value: a function that can raise returns \<open>exn + 'a\<close>, with the world
    it left behind where it has effects.
  \<^item> The network, the faults of the disk and the libraries (\<^verbatim>\<open>urllib\<close>, Pillow) are
    parameters (\<open>env\<close>); the outcome of \<^verbatim>\<open>argparse\<close> is an argument of \<^verbatim>\<open>main\<close>. Writing to
    the two output streams, \<^verbatim>\<open>time.sleep\<close> and the tests \<^verbatim>\<open>exists\<close> and \<^verbatim>\<open>stat\<close> are taken
    not to raise.
\<close>

subsection \<open>Exceptions\<close>

text \<open>
  The handlers of the script only tell \<^verbatim>\<open>KeyboardInterrupt\<close> (a \<^verbatim>\<open>BaseException\<close>) from the
  subclasses of \<^verbatim>\<open>Exception\<close>; the latter carry the text that \<^verbatim>\<open>str(e)\<close> gives.
\<close>

datatype exn = KeyboardInterrupt | Exception string

fun is_Exception :: "exn \<Rightarrow> bool" where
  "is_Exception KeyboardInterrupt = False"
| "is_Exception (Exception msg) = True"

text \<open>Sequencing: the first exception raised ends the computation.\<close>

definition and_then :: "exn + 'a \<Rightarrow> ('a \<Rightarrow> exn + 'b) \<Rightarrow> exn + 'b" where
  "and_then r f = (case r of Inl e \<Rightarrow> Inl e | Inr v \<Rightarrow> f v)"

subsection \<open>Floats\<close>

datatype pyfloat = Finite real | PosInf | NegInf | NaN

text \<open>The largest double, \<open>(2 - 2\<^sup>-\<^sup>5\<^sup>2) * 2\<^sup>1\<^sup>0\<^sup>2\<^sup>3\<close>.\<close>

definition DBL_MAX :: real where
  "DBL_MAX = (2 ^ 53 - 1) * 2 ^ 971"

text \<open>The float for an arithmetic result whose exact value is \<open>r\<close>.\<close>

definition fl :: "real \<Rightarrow> pyfloat" where
  "fl r = (if DBL_MAX < r then PosInf else if r < - DBL_MAX then NegInf else Finite r)"

text \<open>\<^verbatim>\<open>a < b\<close>: every comparison with NaN is false.\<close>

fun flt :: "pyfloat \<Rightarrow> pyfloat \<Rightarrow> bool" where
  "flt NaN b = False"
| "flt a NaN = False"
| "flt (Finite a) (Finite b) = (a < b)"
| "flt a NegInf = False"
| "flt NegInf b = True"
| "flt PosInf b = False"
| "flt a PosInf = True"

text \<open>
  The builtins \<^verbatim>\<open>min(a, b)\<close> and \<^verbatim>\<open>max(a, b)\<close> keep their first argument unless the second
  is smaller, respectively larger.
\<close>

definition py_min :: "pyfloat \<Rightarrow> pyfloat \<Rightarrow> pyfloat" where
  "py_min a b = (if flt b a then b else a)"

definition py_max :: "pyfloat \<Rightarrow> pyfloat \<Rightarrow> pyfloat" where
  "py_max a b = (if flt a b then b else a)"

fun fneg :: "pyfloat \<Rightarrow> pyfloat" where
  "fneg (Finite a) = Finite (- a)"
| "fneg PosInf = NegInf"
| "fneg NegInf = PosInf"
| "fneg NaN = NaN"

fun fadd :: "pyfloat \<Rightarrow> pyfloat \<Rightarrow> pyfloat" where
  "fadd (Finite a) (Finite b) = fl (a + b)"
| "fadd NaN b = NaN"
| "fadd a NaN = NaN"
| "fadd PosInf NegInf = NaN"
| "fadd NegInf PosInf = NaN"
| "fadd PosInf b = PosInf"
| "fadd NegInf b = NegInf"
| "fadd a PosInf = PosInf"
| "fadd a NegInf = NegInf"

text \<open>\<^verbatim>\<open>a - b\<close>.\<close>

definition fsub :: "pyfloat \<Rightarrow> pyfloat \<Rightarrow> pyfloat" where
  "fsub a b = fadd a (fneg b)"

fun fmul :: "pyfloat \<Rightarrow> pyfloat \<Rightarrow> pyfloat" where
  "fmul (Finite a) (Finite b) = fl (a * b)"
| "fmul NaN b = NaN"
| "fmul a NaN = NaN"
| "fmul PosInf (Finite b) = (if b = 0 then NaN else if 0 < b then PosInf else NegInf)"
| "fmul NegInf (Finite b) = (if b = 0 then NaN else if 0 < b then NegInf else PosInf)"
| "fmul (Finite a) PosInf = (if a = 0 then NaN else if 0 < a then PosInf else NegInf)"
| "fmul (Finite a) NegInf = (if a = 0 then NaN else if 0 < a then NegInf else PosInf)"
| "fmul PosInf PosInf = PosInf"
| "fmul PosInf NegInf = NegInf"
| "fmul NegInf PosInf = NegInf"
| "fmul NegInf NegInf = PosInf"

text \<open>\<^verbatim>\<open>a / b\<close> on floats raises \<^verbatim>\<open>ZeroDivisionError\<close> when \<open>b\<close> is zero.\<close>

fun fdiv :: "pyfloat \<Rightarrow> pyfloat \<Rightarrow> exn + pyfloat" where
  "fdiv a (Finite b) =
     (if b = 0 then Inl (Exception ''float division by zero'')
      else (case a of
              Finite r \<Rightarrow> Inr (fl (r / b))
            | PosInf \<Rightarrow> Inr (if 0 < b then PosInf else NegInf)
            | NegInf \<Rightarrow> Inr (if 0 < b then NegInf else PosInf)
            | NaN \<Rightarrow> Inr NaN))"
| "fdiv a NaN = Inr NaN"
| "fdiv (Finite r) b = Inr (Finite 0)"
| "fdiv a b = Inr NaN"

text \<open>
  An integer operand of a float operation is converted first; \<^verbatim>\<open>OverflowError\<close> when it
  is beyond the largest double.
\<close>

definition int_to_float :: "int \<Rightarrow> exn + pyfloat" where
  "int_to_float n =
     (if DBL_MAX < \<bar>of_int n\<bar> then Inl (Exception ''int too large to convert to float'')
      else Inr (Finite (of_int n)))"

text \<open>\<^verbatim>\<open>int(x)\<close> on a float truncates towards zero; it raises on an infinity and on NaN.\<close>

definition py_int :: "'a::floor_ceiling \<Rightarrow> int" where
  "py_int r = (if 0 \<le> r then \<lfloor>r\<rfloor> else \<lceil>r\<rceil>)"

fun float_to_int :: "pyfloat \<Rightarrow> exn + int" where
  "float_to_int (Finite r) = Inr (py_int r)"
| "float_to_int NaN = Inl (Exception ''cannot convert float NaN to integer'')"
| "float_to_int a = Inl (Exception ''cannot convert float infinity to integer'')"

text \<open>
  The functions of \<^verbatim>\<open>math\<close> that the projection uses. \<^verbatim>\<open>tan\<close> and \<^verbatim>\<open>cos\<close> raise
  \<^verbatim>\<open>ValueError\<close> on an infinity, \<^verbatim>\<open>log\<close> on an argument that is not positive; NaN
  passes through all of them.
\<close>

definition math_radians :: "pyfloat \<Rightarrow> pyfloat" where
  "math_radians a = fmul a (Finite (pi / 180))"

fun math_tan :: "pyfloat \<Rightarrow> exn + pyfloat" where
  "math_tan (Finite r) = Inr (fl (tan r))"
| "math_tan NaN = Inr NaN"
| "math_tan a = Inl (Exception ''math domain error'')"

fun math_cos :: "pyfloat \<Rightarrow> exn + pyfloat" where
  "math_cos (Finite r) = Inr (Finite (cos r))"
| "math_cos NaN = Inr NaN"
| "math_cos a = Inl (Exception ''math domain error'')"

fun math_log :: "pyfloat \<Rightarrow> exn + pyfloat" where
  "math_log (Finite r) = (if r \<le> 0 then Inl (Exception ''math domain error'') else Inr (Finite (ln r)))"
| "math_log PosInf = Inr PosInf"
| "math_log NegInf = Inl (Exception ''math domain error'')"
| "math_log NaN = Inr NaN"

subsection \<open>Constants\<close>

definition TILE_ZOOM :: nat where
  "TILE_ZOOM = 11"

definition DEFAULT_FALLBACK_TILE :: "int \<times> int" where
  "DEFAULT_FALLBACK_TILE = (1000, 1000)"

subsection \<open>Projection\<close>

text \<open>
  \<^verbatim>\<open>latlon_to_tile(lat, lon, z)\<close>, statement by statement, for a zoom \<open>z \<ge> 0\<close> (for a
  negative zoom \<^verbatim>\<open>2 ** z\<close> is a float and the function returns floats). The integer
  \<open>n\<close> is converted to a float where it is first multiplied with one.
\<close>

definition latlon_to_tile :: "pyfloat \<Rightarrow> pyfloat \<Rightarrow> nat \<Rightarrow> exn + (int \<times> int)" where
  "latlon_to_tile lat0 lon z =
     (let lat = py_max (py_min lat0 (Finite 85.05112878)) (Finite (- 85.05112878));
          n = (2::int) ^ z
      in and_then (fdiv (fadd lon (Finite 180)) (Finite 360)) (\<lambda>q.
         and_then (int_to_float n) (\<lambda>nf.
         let x_float = fmul q nf;
             lat_rad = math_radians lat
         in and_then (math_tan lat_rad) (\<lambda>t.
            and_then (math_cos lat_rad) (\<lambda>c.
            and_then (fdiv (Finite 1) c) (\<lambda>sec.
            and_then (math_log (fadd t sec)) (\<lambda>l.
            and_then (fdiv l (Finite pi)) (\<lambda>lp.
            and_then (fdiv (fsub (Finite 1) lp) (Finite 2)) (\<lambda>half.
            let y_float = fmul half nf
            in and_then (float_to_int x_float) (\<lambda>xi.
               and_then (float_to_int y_float) (\<lambda>yi.
               Inr (xi mod n, max 0 (min (n - 1) yi)))))))))))))"

text \<open>\<^verbatim>\<open>wrap_clamp_tile(x, y, z)\<close>: wrap x, clamp y.\<close>

definition wrap_clamp_tile :: "int \<Rightarrow> int \<Rightarrow> nat \<Rightarrow> int \<times> int" where
  "wrap_clamp_tile x y z = (let n = (2::int) ^ z in (x mod n, max 0 (min (n - 1) y)))"

subsection \<open>Grid builder (\<^verbatim>\<open>main\<close>, the two nested loops)\<close>

type_synonym cell = "int \<times> int \<times> int \<times> int"

text \<open>\<^verbatim>\<open>range(a, b)\<close>: the integers from a up to, not including, b.\<close>

definition py_range :: "int \<Rightarrow> int \<Rightarrow> int list" where
  "py_range a b = [a..b - 1]"

text \<open>\<^verbatim>\<open>dx_range\<close> and \<^verbatim>\<open>dy_range\<close> are the same range.\<close>

definition offset_range :: "int \<Rightarrow> int list" where
  "offset_range n =
     (let h = n div 2
      in if n mod 2 = 0 then py_range (- h) h else py_range (- h) (h + 1))"

definition grid_cell :: "int \<Rightarrow> int \<Rightarrow> int \<Rightarrow> int \<Rightarrow> cell" where
  "grid_cell cx cy dx dy =
     (case wrap_clamp_tile (cx + dx) (cy + dy) TILE_ZOOM of (wx, wy) \<Rightarrow> (wx, wy, dx, dy))"

text \<open>The outer loop runs over dy, the inner one over dx; each step appends one cell.\<close>

definition build_grid :: "int \<Rightarrow> int \<Rightarrow> int \<Rightarrow> cell list" where
  "build_grid cx cy n =
     foldl (\<lambda>coords_meta dy.
              foldl (\<lambda>coords_meta dx. coords_meta @ [grid_cell cx cy dx dy])
                coords_meta (offset_range n))
       [] (offset_range n)"

subsection \<open>Rendering integers and names\<close>

text \<open>\<^verbatim>\<open>str(i)\<close> for an integer, as the f-strings of the script use it.\<close>

fun digits :: "nat \<Rightarrow> string" where
  "digits n = (if n < 10 then [char_of (48 + n)] else digits (n div 10) @ [char_of (48 + n mod 10)])"

declare digits.simps [simp del]

definition str_int :: "int \<Rightarrow> string" where
  "str_int i = (if i < 0 then CHR ''-'' # digits (nat (- i)) else digits (nat i))"

text \<open>\<^verbatim>\<open>DEFAULT_BACKEND.format(x=x, y=y, z=z)\<close>; the template has no \<^verbatim>\<open>{z}\<close>.\<close>

definition tile_url :: "int \<Rightarrow> int \<Rightarrow> nat \<Rightarrow> string" where
  "tile_url x y z = ''https://backend.wplace.live/files/s0/tiles/'' @ str_int x @ ''/'' @ str_int y @ ''.png''"

text \<open>\<^verbatim>\<open>tiles_dir / f"tile_{x}_{y}.png"\<close>.\<close>

definition tile_path :: "string \<Rightarrow> int \<Rightarrow> int \<Rightarrow> string" where
  "tile_path dir x y = dir @ ''/tile_'' @ str_int x @ ''_'' @ str_int y @ ''.png''"

subsection \<open>Images\<close>

type_synonym rgba = "int \<times> int \<times> int \<times> int"

record image =
  width :: int
  height :: int
  pixel :: "int \<Rightarrow> int \<Rightarrow> rgba"

text \<open>\<^verbatim>\<open>Image.new("RGBA", (w, h), color)\<close>; Pillow refuses a negative size.\<close>

definition Image_new :: "int \<Rightarrow> int \<Rightarrow> rgba \<Rightarrow> exn + image" where
  "Image_new w h color =
     (if w < 0 \<or> h < 0 then Inl (Exception ''Width and height must be >= 0'')
      else Inr \<lparr>width = w, height = h, pixel = (\<lambda>X Y. color)\<rparr>)"

text \<open>
  \<^verbatim>\<open>canvas.paste(tile, (px, py))\<close> with no mask: the tile's pixels replace the canvas
  pixels of the box at \<open>(px, py)\<close>, clipped to the canvas.
\<close>

definition paste :: "image \<Rightarrow> int \<times> int \<Rightarrow> image \<Rightarrow> image" where
  "paste tile origin canvas =
     (case origin of (px, py) \<Rightarrow>
        canvas\<lparr>pixel := (\<lambda>X Y.
          if px \<le> X \<and> X < px + width tile \<and> py \<le> Y \<and> Y < py + height tile
             \<and> 0 \<le> X \<and> X < width canvas \<and> 0 \<le> Y \<and> Y < height canvas
          then pixel tile (X - px) (Y - py)
          else pixel canvas X Y)\<rparr>)"

text \<open>
  \<^verbatim>\<open>Image.alpha_composite(bg, im)\<close>: both images must have the same size; each pixel of
  the result is the pixel of \<open>im\<close> laid over the pixel of \<open>bg\<close> (\<open>over\<close>, the blend of two
  colours, is Pillow's).
\<close>

definition alpha_composite :: "(rgba \<Rightarrow> rgba \<Rightarrow> rgba) \<Rightarrow> image \<Rightarrow> image \<Rightarrow> exn + image" where
  "alpha_composite over bg im =
     (if width bg \<noteq> width im \<or> height bg \<noteq> height im then Inl (Exception ''images do not match'')
      else Inr \<lparr>width = width bg, height = height bg,
                pixel = (\<lambda>X Y. over (pixel bg X Y) (pixel im X Y))\<rparr>)"

subsection \<open>The world and its environment\<close>

text \<open>
  The world holds what the script changes: the files of the tile directory, the
  number of HTTP requests and of file writes made so far, the sleeps, the two output
  streams, and the output files (\<open>saved\<close>, by path, with their bytes). The script never
  reads an output file, and the path given by \<^verbatim>\<open>-o\<close> is taken to lie outside the tile
  directory; so the output files are kept apart from the tile files.
\<close>

record world =
  files :: "string \<rightharpoonup> string"
  gets :: nat
  writes :: nat
  slept :: "rat list"
  stdout :: "string list"
  stderr :: "string list"
  saved :: "string \<rightharpoonup> string"

text \<open>
  The environment answers what the script cannot decide:
  \<^item> \<open>http_get k u\<close>: the k-th request (\<^verbatim>\<open>session.get\<close> followed by
    \<^verbatim>\<open>raise_for_status\<close>) gives the body, or raises;
  \<^item> \<open>write_fault k\<close>: whether the k-th \<^verbatim>\<open>write_bytes\<close> raises, and \<open>write_residue k\<close>:
    what a write that raises leaves behind. \<^verbatim>\<open>Path.write_bytes\<close> opens the file for
    writing, which creates or truncates it, and then writes; so a write that raises has
    either failed to open the file, which is then as it was (\<open>None\<close>), or has failed
    after it wrote the first \<open>m\<close> bytes, which are then all the file holds (\<open>Some m\<close>);
  \<^item> \<open>png_decode\<close>: \<^verbatim>\<open>Image.open\<close>, \<^verbatim>\<open>load\<close> and \<^verbatim>\<open>convert("RGBA")\<close>;
  \<^item> \<open>mkdir_fault\<close>: whether \<^verbatim>\<open>mkdir\<close> raises;
  \<^item> \<open>png_encode\<close>: the bytes that \<^verbatim>\<open>img.save\<close> writes for an image; \<open>save_fault\<close>:
    whether it raises, and \<open>save_residue\<close>: what a save that raises leaves at the output
    path, as for \<open>write_residue\<close> (\<open>None\<close> also stands for a file that the library made
    and removed again);
  \<^item> \<open>over\<close>: the blend of two colours in \<^verbatim>\<open>Image.alpha_composite\<close>;
  \<^item> \<open>resolve\<close>: \<^verbatim>\<open>Path.resolve\<close>;
  \<^item> \<open>url_query\<close>: \<^verbatim>\<open>urlparse(u).query\<close>; \<open>parse_qs\<close> and \<open>unquote\<close>: the functions of
    \<^verbatim>\<open>urllib.parse\<close>; \<open>py_float\<close>: \<^verbatim>\<open>float(s)\<close> on a string; \<open>str_strip\<close>: \<^verbatim>\<open>s.strip()\<close>;
    \<open>int16\<close>: \<^verbatim>\<open>int(s, 16)\<close>.
\<close>

record env =
  http_get :: "nat \<Rightarrow> string \<Rightarrow> exn + string"
  write_fault :: "nat \<Rightarrow> exn option"
  write_residue :: "nat \<Rightarrow> nat option"
  png_decode :: "string \<Rightarrow> exn + image"
  mkdir_fault :: "exn option"
  png_encode :: "image \<Rightarrow> string"
  save_fault :: "exn option"
  save_residue :: "nat option"
  over :: "rgba \<Rightarrow> rgba \<Rightarrow> rgba"
  resolve :: "string \<Rightarrow> exn + string"
  url_query :: "string \<Rightarrow> exn + string"
  parse_qs :: "string \<Rightarrow> string \<rightharpoonup> string list"
  unquote :: "string \<Rightarrow> string"
  py_float :: "string \<Rightarrow> exn + pyfloat"
  str_strip :: "string \<Rightarrow> string"
  int16 :: "string \<Rightarrow> exn + int"

definition session_get :: "env \<Rightarrow> string \<Rightarrow> world \<Rightarrow> (exn + string) \<times> world" where
  "session_get E url w = (http_get E (gets w) url, w\<lparr>gets := Suc (gets w)\<rparr>)"

definition write_bytes :: "env \<Rightarrow> string \<Rightarrow> string \<Rightarrow> world \<Rightarrow> (exn + unit) \<times> world" where
  "write_bytes E p content w =
     (case write_fault E (writes w) of
        Some e \<Rightarrow>
          (Inl e, w\<lparr>files := (case write_residue E (writes w) of
                                 None \<Rightarrow> files w
                               | Some m \<Rightarrow> (files w)(p \<mapsto> take m content)),
                     writes := Suc (writes w)\<rparr>)
      | None \<Rightarrow> (Inr (), w\<lparr>files := (files w)(p \<mapsto> content), writes := Suc (writes w)\<rparr>))"

definition sleep :: "rat \<Rightarrow> world \<Rightarrow> world" where
  "sleep d w = w\<lparr>slept := slept w @ [d]\<rparr>"

subsection \<open>Reading the URL and the background colour\<close>

text \<open>\<^verbatim>\<open>qs[k][0]\<close>: \<^verbatim>\<open>KeyError\<close> without the key (its text is the key in quotes).\<close>

definition first_value :: "(string \<rightharpoonup> string list) \<Rightarrow> string \<Rightarrow> exn + string" where
  "first_value qs k =
     (case qs k of
        None \<Rightarrow> Inl (Exception ([CHR 0x27] @ k @ [CHR 0x27]))
      | Some [] \<Rightarrow> Inl (Exception ''list index out of range'')
      | Some (v # vs) \<Rightarrow> Inr v)"

text \<open>
  The three lines that read \<^verbatim>\<open>lat\<close>, \<^verbatim>\<open>lng\<close> and \<^verbatim>\<open>zoom\<close> from a parsed query; they are
  the same in both branches of \<^verbatim>\<open>parse_wplace_url\<close>.
\<close>

definition read_lat_lng_zoom ::
  "env \<Rightarrow> (string \<rightharpoonup> string list) \<Rightarrow> exn + (pyfloat \<times> pyfloat \<times> pyfloat option)" where
  "read_lat_lng_zoom E qs =
     and_then (and_then (first_value qs ''lat'') (py_float E)) (\<lambda>lat.
     and_then (and_then (first_value qs ''lng'') (py_float E)) (\<lambda>lng.
     and_then (if qs ''zoom'' \<noteq> None
               then and_then (and_then (first_value qs ''zoom'') (py_float E)) (\<lambda>z. Inr (Some z))
               else Inr None) (\<lambda>zoom.
     Inr (lat, lng, zoom))))"

text \<open>\<^verbatim>\<open>s.split(sep, 1)[1]\<close> when \<^verbatim>\<open>sep in s\<close>: what follows the first occurrence of \<open>sep\<close>.\<close>

fun after_first :: "string \<Rightarrow> string \<Rightarrow> string option" where
  "after_first sep [] = (if sep = [] then Some [] else None)"
| "after_first sep (c # cs) =
     (if take (length sep) (c # cs) = sep then Some (drop (length sep) (c # cs))
      else after_first sep cs)"

definition parse_wplace_url :: "env \<Rightarrow> string \<Rightarrow> exn + (pyfloat \<times> pyfloat \<times> pyfloat option)" where
  "parse_wplace_url E url =
     and_then (url_query E url) (\<lambda>query.
       if query \<noteq> [] \<and> parse_qs E query ''lat'' \<noteq> None \<and> parse_qs E query ''lng'' \<noteq> None
       then read_lat_lng_zoom E (parse_qs E query)
       else (case after_first ''place='' url of
               Some rest \<Rightarrow>
                 and_then (url_query E (unquote E rest)) (\<lambda>query2.
                   read_lat_lng_zoom E (parse_qs E query2))
             | None \<Rightarrow>
                 Inl (Exception
                   ''Could not parse lat/lng/zoom from URL. Provide a standard WPlace share link.'')))"

text \<open>\<^verbatim>\<open>parse_hex_color(s)\<close>: \<^verbatim>\<open>#rgb\<close>, \<^verbatim>\<open>#rrggbb\<close> or \<^verbatim>\<open>#rrggbbaa\<close>.\<close>

definition parse_hex_color :: "env \<Rightarrow> string \<Rightarrow> exn + rgba" where
  "parse_hex_color E s =
     (let t = str_strip E s;
          t = (if take 1 t = ''#'' then drop 1 t else t);
          t = (if take 2 t = ''0x'' \<or> take 2 t = ''0X'' then drop 2 t else t)
      in if length t = 3 then
           and_then (int16 E [t ! 0, t ! 0]) (\<lambda>r.
           and_then (int16 E [t ! 1, t ! 1]) (\<lambda>g.
           and_then (int16 E [t ! 2, t ! 2]) (\<lambda>b.
           Inr (r, g, b, 255))))
         else if length t = 6 then
           and_then (int16 E (take 2 t)) (\<lambda>r.
           and_then (int16 E (take 2 (drop 2 t))) (\<lambda>g.
           and_then (int16 E (take 2 (drop 4 t))) (\<lambda>b.
           Inr (r, g, b, 255))))
         else if length t = 8 then
           and_then (int16 E (take 2 t)) (\<lambda>r.
           and_then (int16 E (take 2 (drop 2 t))) (\<lambda>g.
           and_then (int16 E (take 2 (drop 4 t))) (\<lambda>b.
           and_then (int16 E (take 2 (drop 6 t))) (\<lambda>a.
           Inr (r, g, b, a)))))
         else Inl (Exception ''Invalid hex color. Use #rgb, #rrggbb, or #rrggbbaa.''))"

subsection \<open>Tile fetcher\<close>

text \<open>The body of the \<^verbatim>\<open>try\<close>: request, status check, write. Returning is \<open>Inr\<close>.\<close>

definition try_fetch :: "env \<Rightarrow> string \<Rightarrow> string \<Rightarrow> world \<Rightarrow> (exn + unit) \<times> world" where
  "try_fetch E url dest w =
     (case session_get E url w of
        (Inl e, w1) \<Rightarrow> (Inl e, w1)
      | (Inr content, w1) \<Rightarrow> write_bytes E dest content w1)"

text \<open>
  The loop \<^verbatim>\<open>for attempt in range(1, retries + 1)\<close> over the attempts that are left.
  \<^verbatim>\<open>except Exception\<close> catches what \<open>is_Exception\<close> accepts; anything else leaves the
  function. After the handler of the last attempt the loop goes on, and ends.
\<close>

fun download_attempts ::
  "env \<Rightarrow> string \<Rightarrow> string \<Rightarrow> int \<Rightarrow> int list \<Rightarrow> world \<Rightarrow> (exn + unit) \<times> world" where
  "download_attempts E url dest retries [] w = (Inr (), w)"
| "download_attempts E url dest retries (attempt # rest) w =
     (case try_fetch E url dest w of
        (Inr u, w1) \<Rightarrow> (Inr (), w1)
      | (Inl e, w1) \<Rightarrow>
          if is_Exception e then
            (if attempt \<ge> retries then
               (case write_bytes E dest [] w1 of
                  (Inr u, w2) \<Rightarrow> download_attempts E url dest retries rest w2
                | (Inl e2, w2) \<Rightarrow>
                    if is_Exception e2 then download_attempts E url dest retries rest w2
                    else (Inl e2, w2))
             else download_attempts E url dest retries rest (sleep (of_int attempt / 2) w1))
          else (Inl e, w1))"

definition download_tile ::
  "env \<Rightarrow> int \<Rightarrow> int \<Rightarrow> nat \<Rightarrow> string \<Rightarrow> int \<Rightarrow> int \<Rightarrow> world \<Rightarrow> (exn + unit) \<times> world" where
  "download_tile E x y z dest timeout retries w =
     download_attempts E (tile_url x y z) dest retries (py_range 1 (retries + 1)) w"

subsection \<open>Stitcher\<close>

text \<open>\<^verbatim>\<open>safe_open_png(p)\<close>: \<open>None\<close> for a missing, empty or undecodable file.\<close>

definition safe_open_png :: "env \<Rightarrow> (string \<rightharpoonup> string) \<Rightarrow> string \<Rightarrow> exn + image option" where
  "safe_open_png E fs p =
     (case fs p of
        None \<Rightarrow> Inr None
      | Some content \<Rightarrow>
          if length content = 0 then Inr None
          else (case png_decode E content of
                  Inr im \<Rightarrow> Inr (Some im)
                | Inl e \<Rightarrow> if is_Exception e then Inr None else Inl e))"

text \<open>The first loop of \<^verbatim>\<open>stitch_from_folder\<close>: the size of the first tile that opens.\<close>

fun infer_tile_size ::
  "env \<Rightarrow> (string \<rightharpoonup> string) \<Rightarrow> string \<Rightarrow> cell list \<Rightarrow> exn + (int \<times> int) option" where
  "infer_tile_size E fs dir [] = Inr None"
| "infer_tile_size E fs dir ((x, y, dx, dy) # rest) =
     (case safe_open_png E fs (tile_path dir x y) of
        Inl e \<Rightarrow> Inl e
      | Inr None \<Rightarrow> infer_tile_size E fs dir rest
      | Inr (Some im) \<Rightarrow> Inr (Some (width im, height im)))"

text \<open>The body of the second loop: one cell is pasted.\<close>

definition stitch_cell ::
  "env \<Rightarrow> (string \<rightharpoonup> string) \<Rightarrow> string \<Rightarrow> int \<Rightarrow> int \<Rightarrow> int \<Rightarrow> rgba option \<Rightarrow> cell \<Rightarrow> image
     \<Rightarrow> exn + image" where
  "stitch_cell E fs dir tw th half bg_rgba c canvas =
     (case c of (x, y, dx, dy) \<Rightarrow>
        let col = dx + half; row = dy + half; px = col * tw; py = row * th
        in case safe_open_png E fs (tile_path dir x y) of
             Inl e \<Rightarrow> Inl e
           | Inr (Some tile) \<Rightarrow> Inr (paste tile (px, py) canvas)
           | Inr None \<Rightarrow>
               (let fill = (case bg_rgba of Some color \<Rightarrow> color | None \<Rightarrow> (0, 0, 0, 0))
                in case Image_new tw th fill of
                     Inl e \<Rightarrow> Inl e
                   | Inr tile \<Rightarrow> Inr (paste tile (px, py) canvas)))"

fun stitch_cells ::
  "env \<Rightarrow> (string \<rightharpoonup> string) \<Rightarrow> string \<Rightarrow> int \<Rightarrow> int \<Rightarrow> int \<Rightarrow> rgba option \<Rightarrow> cell list \<Rightarrow> image
     \<Rightarrow> exn + image" where
  "stitch_cells E fs dir tw th half bg_rgba [] canvas = Inr canvas"
| "stitch_cells E fs dir tw th half bg_rgba (c # rest) canvas =
     (case stitch_cell E fs dir tw th half bg_rgba c canvas of
        Inl e \<Rightarrow> Inl e
      | Inr canvas' \<Rightarrow> stitch_cells E fs dir tw th half bg_rgba rest canvas')"

definition tile_size :: "env \<Rightarrow> (string \<rightharpoonup> string) \<Rightarrow> string \<Rightarrow> cell list \<Rightarrow> exn + (int \<times> int)" where
  "tile_size E fs dir coords_meta =
     (case infer_tile_size E fs dir coords_meta of
        Inl e \<Rightarrow> Inl e
      | Inr None \<Rightarrow> Inr DEFAULT_FALLBACK_TILE
      | Inr (Some sz) \<Rightarrow> Inr sz)"

definition stitch_from_folder ::
  "env \<Rightarrow> (string \<rightharpoonup> string) \<Rightarrow> string \<Rightarrow> cell list \<Rightarrow> int \<Rightarrow> rgba option \<Rightarrow> exn + image" where
  "stitch_from_folder E fs dir coords_meta grid_size bg_rgba =
     (case tile_size E fs dir coords_meta of
        Inl e \<Rightarrow> Inl e
      | Inr (tw, th) \<Rightarrow>
          (case Image_new (tw * grid_size) (th * grid_size) (0, 0, 0, 0) of
             Inl e \<Rightarrow> Inl e
           | Inr canvas \<Rightarrow>
               stitch_cells E fs dir tw th (grid_size div 2) bg_rgba coords_meta canvas))"

subsection \<open>The download loop of \<^verbatim>\<open>main\<close>\<close>

text \<open>
  The command line, as \<^verbatim>\<open>argparse\<close> hands it over; \<open>tiles_dir\<close> is the directory
  chosen from \<^verbatim>\<open>--temp-dir\<close> (the directory \<^verbatim>\<open>tmp\<close> beside the script when the option is
  not given). \<^verbatim>\<open>--keep-tiles\<close> is read and never used.
\<close>

record args =
  url :: string
  out :: string
  grid_size :: int
  timeout :: int
  delay :: rat
  retries :: int
  background_hex :: "string option"
  tiles_dir :: string
  keep_tiles :: bool
  skip_existing :: bool

text \<open>
  The two tests that guard \<^verbatim>\<open>download_tile\<close> in the loop: with \<^verbatim>\<open>--skip-existing\<close> an
  existing file is passed over; otherwise the tile is fetched when its file is missing
  or empty.
\<close>

definition fetch_step ::
  "env \<Rightarrow> args \<Rightarrow> string \<Rightarrow> int \<Rightarrow> int \<Rightarrow> world \<Rightarrow> (exn + unit) \<times> world" where
  "fetch_step E A dest x y w =
     (if skip_existing A \<and> files w dest \<noteq> None then (Inr (), w)
      else if (case files w dest of None \<Rightarrow> True | Some content \<Rightarrow> length content = 0)
           then download_tile E x y TILE_ZOOM dest (timeout A) (retries A) w
           else (Inr (), w))"

definition milestones :: "rat list" where
  "milestones = [1 / 4, 1 / 2, 3 / 4, 1]"

definition next_idx_trigger :: "int \<Rightarrow> rat \<Rightarrow> int" where
  "next_idx_trigger tot m = max 1 (py_int (of_int tot * m))"

definition progress_line :: "rat \<Rightarrow> int \<Rightarrow> int \<Rightarrow> string" where
  "progress_line m index tot =
     ''Download progress: '' @ str_int (py_int (m * 100)) @ ''% ('' @ str_int index @ ''/''
       @ str_int tot @ '')''"

text \<open>The inner loop \<^verbatim>\<open>for m in milestones\<close>, on the set \<^verbatim>\<open>printed\<close> and the output.\<close>

fun print_progress ::
  "int \<Rightarrow> int \<Rightarrow> rat list \<Rightarrow> rat set \<times> string list \<Rightarrow> rat set \<times> string list" where
  "print_progress tot index [] (printed, lines) = (printed, lines)"
| "print_progress tot index (m # ms) (printed, lines) =
     (if index \<ge> next_idx_trigger tot m \<and> m \<notin> printed
      then print_progress tot index ms (insert m printed, lines @ [progress_line m index tot])
      else print_progress tot index ms (printed, lines))"

text \<open>
  \<^verbatim>\<open>for index, (x, y, _, _) in enumerate(coords_meta, 1)\<close>: fetch, pace, report.
  An exception that leaves \<^verbatim>\<open>download_tile\<close> leaves the loop.
\<close>

fun download_loop ::
  "env \<Rightarrow> args \<Rightarrow> int \<Rightarrow> int \<Rightarrow> cell list \<Rightarrow> rat set \<Rightarrow> world \<Rightarrow> (exn + rat set) \<times> world" where
  "download_loop E A tot index [] printed w = (Inr printed, w)"
| "download_loop E A tot index ((x, y, dx, dy) # rest) printed w =
     (case fetch_step E A (tile_path (tiles_dir A) x y) x y w of
        (Inl e, w1) \<Rightarrow> (Inl e, w1)
      | (Inr u, w1) \<Rightarrow>
          (let w2 = (if index < tot \<and> delay A > 0 then sleep (delay A) w1 else w1)
           in case print_progress tot index milestones (printed, stdout w2) of
                (printed', lines) \<Rightarrow>
                  download_loop E A tot (index + 1) rest printed' (w2\<lparr>stdout := lines\<rparr>)))"

subsection \<open>\<^verbatim>\<open>main\<close> and the top level\<close>

text \<open>
  \<^verbatim>\<open>parse_hex_color(args.background_hex) if args.background_hex else None\<close>: an empty
  string counts as no colour.
\<close>

definition bg_rgba_of :: "env \<Rightarrow> args \<Rightarrow> exn + rgba option" where
  "bg_rgba_of E A =
     (case background_hex A of
        None \<Rightarrow> Inr None
      | Some s \<Rightarrow>
          if s = [] then Inr None
          else and_then (parse_hex_color E s) (\<lambda>color. Inr (Some color)))"

text \<open>The final underlay: with a background colour the image is laid over it.\<close>

definition underlay :: "env \<Rightarrow> rgba option \<Rightarrow> image \<Rightarrow> exn + image" where
  "underlay E bg_rgba img =
     (case bg_rgba of
        None \<Rightarrow> Inr img
      | Some color \<Rightarrow>
          and_then (Image_new (width img) (height img) color) (\<lambda>bg.
            alpha_composite (over E) bg img))"

text \<open>
  \<^verbatim>\<open>img.save(args.out)\<close>. Pillow cannot write an image without pixels; a save that raises
  leaves what \<open>save_residue\<close> says.
\<close>

definition save_image :: "env \<Rightarrow> string \<Rightarrow> image \<Rightarrow> world \<Rightarrow> (exn + unit) \<times> world" where
  "save_image E p img w =
     (case (if width img = 0 \<or> height img = 0
            then Some (Exception ''tile cannot extend outside image'')
            else save_fault E) of
        Some e \<Rightarrow>
          (Inl e, w\<lparr>saved := (case save_residue E of
                                 None \<Rightarrow> saved w
                               | Some m \<Rightarrow> (saved w)(p \<mapsto> take m (png_encode E img)))\<rparr>)
      | None \<Rightarrow> (Inr (), w\<lparr>saved := (saved w)(p \<mapsto> png_encode E img)\<rparr>))"

text \<open>The last two lines of \<^verbatim>\<open>main\<close>; \<^verbatim>\<open>tiles_dir.resolve()\<close> may raise.\<close>

definition report_saved :: "env \<Rightarrow> args \<Rightarrow> world \<Rightarrow> (exn + unit) \<times> world" where
  "report_saved E A w =
     (let w1 = w\<lparr>stdout := stdout w @ [''Saved '' @ out A]\<rparr>
      in case resolve E (tiles_dir A) of
           Inl e \<Rightarrow> (Inl e, w1)
         | Inr d \<Rightarrow> (Inr (), w1\<lparr>stdout := stdout w1 @ [''Tiles stored in: '' @ d]\<rparr>))"

text \<open>
  The end of \<^verbatim>\<open>main\<close>, after the download loop: read the background colour, stitch,
  lay the result over the background if there is one, save, report.
\<close>

definition stitch_and_save ::
  "env \<Rightarrow> args \<Rightarrow> cell list \<Rightarrow> world \<Rightarrow> (exn + unit) \<times> world" where
  "stitch_and_save E A coords_meta w3 =
     (case and_then (bg_rgba_of E A) (\<lambda>bg_rgba.
             and_then (stitch_from_folder E (files w3) (tiles_dir A) coords_meta (grid_size A) bg_rgba)
               (underlay E bg_rgba)) of
        Inl e \<Rightarrow> (Inl e, w3)
      | Inr img \<Rightarrow>
          (case save_image E (out A) img w3 of
             (Inl e, w4) \<Rightarrow> (Inl e, w4)
           | (Inr u, w4) \<Rightarrow> report_saved E A w4))"

text \<open>\<^verbatim>\<open>main\<close> from the line that prints the centre tile to its end.\<close>

definition main_from_center :: "env \<Rightarrow> args \<Rightarrow> int \<Rightarrow> int \<Rightarrow> world \<Rightarrow> (exn + unit) \<times> world" where
  "main_from_center E A cx cy w0 =
     (let w1 = w0\<lparr>stdout := stdout w0 @ [''Center tile: x='' @ str_int cx @ '', y='' @ str_int cy]\<rparr>;
          n = grid_size A;
          w2 = (if n mod 2 = 0
                then w1\<lparr>stderr := stderr w1 @
                  [''Warning: grid-size is even; true center lies between the middle four tiles.'']\<rparr>
                else w1);
          coords_meta = build_grid cx cy n
      in case mkdir_fault E of
           Some e \<Rightarrow> (Inl e, w2)
         | None \<Rightarrow>
             (case download_loop E A (int (length coords_meta)) 1 coords_meta {} w2 of
                (Inl e, w3) \<Rightarrow> (Inl e, w3)
              | (Inr printed, w3) \<Rightarrow> stitch_and_save E A coords_meta w3))"

text \<open>
  What can leave \<^verbatim>\<open>main\<close>: an exception, or the \<^verbatim>\<open>SystemExit\<close> by which \<^verbatim>\<open>argparse\<close> ends
  the process (status 2 for a command line it rejects, 0 after \<^verbatim>\<open>--help\<close>).
\<close>

datatype uncaught = SystemExit int | Raised exn

text \<open>
  \<^verbatim>\<open>main\<close>. \<open>parsed\<close> is the outcome of \<^verbatim>\<open>ap.parse_args()\<close>: the arguments, or the status of
  the \<^verbatim>\<open>SystemExit\<close> it raised (what \<^verbatim>\<open>argparse\<close> prints then is left out).
\<close>

definition main :: "env \<Rightarrow> int + args \<Rightarrow> world \<Rightarrow> (uncaught + unit) \<times> world" where
  "main E parsed w =
     (case parsed of
        Inl status \<Rightarrow> (Inl (SystemExit status), w)
      | Inr A \<Rightarrow>
          (case parse_wplace_url E (url A) of
             Inl e \<Rightarrow> (Inl (Raised e), w)
           | Inr (lat, lng, zoom) \<Rightarrow>
               (case latlon_to_tile lat lng TILE_ZOOM of
                  Inl e \<Rightarrow> (Inl (Raised e), w)
                | Inr (cx, cy) \<Rightarrow>
                    (case main_from_center E A cx cy w of
                       (Inl e, w') \<Rightarrow> (Inl (Raised e), w')
                     | (Inr u, w') \<Rightarrow> (Inr (), w')))))"

text \<open>
  The \<^verbatim>\<open>try\<close> around \<^verbatim>\<open>main()\<close>: what the process reports and its exit status, from
  the outcome of \<^verbatim>\<open>main\<close>. The two handlers catch \<^verbatim>\<open>KeyboardInterrupt\<close> and \<^verbatim>\<open>Exception\<close>;
  a \<^verbatim>\<open>SystemExit\<close> passes them and ends the process with its own status.
\<close>

fun top_level :: "(uncaught + unit) \<times> world \<Rightarrow> int \<times> world" where
  "top_level (Inr u, w) = (0, w)"
| "top_level (Inl (Raised KeyboardInterrupt), w) = (1, w\<lparr>stderr := stderr w @ [''Cancelled.'']\<rparr>)"
| "top_level (Inl (Raised (Exception msg)), w) = (1, w\<lparr>stderr := stderr w @ [''Error: '' @ msg]\<rparr>)"
| "top_level (Inl (SystemExit status), w) = (status, w)"

subsection \<open>Example runs\<close>

text \<open>
  Concrete worlds, environments and command lines on which the properties below are
  evaluated: an empty tile directory; a network that refuses every request; a network
  that serves every request, with a disk that takes every write, or that is full (a
  file can be created, nothing can be written into it), or a tile directory in which no
  file can be opened for writing.
\<close>

definition blank_world :: world where
  "blank_world =
     \<lparr>files = Map.empty, gets = 0, writes = 0, slept = [], stdout = [], stderr = [],
      saved = Map.empty\<rparr>"

definition red_pixel :: image where
  "red_pixel = \<lparr>width = 1, height = 1, pixel = (\<lambda>X Y. (255, 0, 0, 255))\<rparr>"

definition offline_env :: env where
  "offline_env =
     \<lparr>http_get = (\<lambda>k u. Inl (Exception ''connection refused'')),
      write_fault = (\<lambda>k. None),
      write_residue = (\<lambda>k. None),
      png_decode = (\<lambda>content. Inl (Exception ''cannot identify image file'')),
      mkdir_fault = None,
      png_encode = (\<lambda>img. ''PNG''),
      save_fault = None,
      save_residue = None,
      over = (\<lambda>below above. above),
      resolve = (\<lambda>p. Inr (''/home/user/'' @ p)),
      url_query = (\<lambda>u. Inr ''lat=0&lng=0''),
      parse_qs = (\<lambda>query. [''lat'' \<mapsto> [''0''], ''lng'' \<mapsto> [''0'']]),
      unquote = (\<lambda>s. s),
      py_float = (\<lambda>s. Inr (Finite 0)),
      str_strip = (\<lambda>s. s),
      int16 = (\<lambda>s. Inr 0)\<rparr>"

definition online_env :: env where
  "online_env = offline_env\<lparr>http_get := (\<lambda>k u. Inr ''PNG''), png_decode := (\<lambda>content. Inr red_pixel)\<rparr>"

definition disk_full_env :: env where
  "disk_full_env =
     online_env\<lparr>write_fault := (\<lambda>k. if k < 2 then Some (Exception ''No space left on device'') else None),
                write_residue := (\<lambda>k. Some 0)\<rparr>"

definition read_only_env :: env where
  "read_only_env =
     offline_env\<lparr>write_fault := (\<lambda>k. Some (Exception ''Permission denied''))\<rparr>"

definition example_args :: args where
  "example_args =
     \<lparr>url = ''https://wplace.live/?lat=0&lng=0'', out = ''out.png'', grid_size = 1, timeout = 10,
      delay = 0, retries = 2, background_hex = None, tiles_dir = ''tmp'', keep_tiles = False,
      skip_existing = False\<rparr>"

section \<open>Verified properties\<close>

subsection \<open>Projection\<close>

lemma DBL_MAX_ge: "3 / 2 * 2 ^ 1023 \<le> DBL_MAX"
  by (simp add: DBL_MAX_def)

lemma DBL_MAX_pos: "0 < DBL_MAX"
  by (simp add: DBL_MAX_def)

lemma fl_in_range: "\<bar>r\<bar> \<le> DBL_MAX \<Longrightarrow> fl r = Finite r"
  by (auto simp: fl_def)

lemma fl_small: "\<bar>r\<bar> \<le> 64 \<Longrightarrow> fl r = Finite r"
proof -
  assume "\<bar>r\<bar> \<le> 64"
  moreover have "(64::real) \<le> DBL_MAX" by (simp add: DBL_MAX_def)
  ultimately show ?thesis by (intro fl_in_range) linarith
qed

lemma pi_ge_three: "3 \<le> pi"
proof -
  have "sin (pi / 6) \<le> pi / 6" by (rule sin_x_le_x) simp
  then show ?thesis by (simp add: sin_30)
qed

lemma sin_double_le:
  fixes u :: real
  assumes "0 \<le> u" and "u \<le> pi / 2"
  shows "sin (2 * u) \<le> 2 * sin u"
proof -
  have s: "0 \<le> sin u" using assms pi_ge_two by (intro sin_ge_zero) linarith+
  have "sin (2 * u) = 2 * sin u * cos u" by (rule sin_double)
  also have "\<dots> \<le> 2 * sin u * 1"
    using s by (intro mult_left_mono) simp_all
  finally show ?thesis by simp
qed

lemma sin_pi_64: "1 / 32 \<le> sin (pi / 64)"
proof -
  have "1 \<le> sqrt 2" by simp
  then have s4: "1 / 2 \<le> sin (pi / 4)" by (simp add: sin_45)
  have s8: "sin (pi / 4) \<le> 2 * sin (pi / 8)"
    using sin_double_le [of "pi / 8"] by simp
  have s16: "sin (pi / 8) \<le> 2 * sin (pi / 16)"
    using sin_double_le [of "pi / 16"] by simp
  have s32: "sin (pi / 16) \<le> 2 * sin (pi / 32)"
    using sin_double_le [of "pi / 32"] by simp
  have s64: "sin (pi / 32) \<le> 2 * sin (pi / 64)"
    using sin_double_le [of "pi / 64"] by simp
  show ?thesis using s4 s8 s16 s32 s64 by linarith
qed

text \<open>At a clamped latitude the cosine stays away from zero.\<close>

lemma cos_clamped_ge:
  fixes a :: real
  assumes "\<bar>a\<bar> \<le> 85.05112878"
  shows "1 / 32 \<le> cos (a * (pi / 180))"
proof -
  let ?t = "pi / 2 - \<bar>a\<bar> * (pi / 180)"
  have "\<bar>a\<bar> * (pi / 180) \<le> 85.05112878 * (pi / 180)"
    using assms pi_gt_zero by (intro mult_right_mono) simp_all
  also have "\<dots> \<le> pi / 2 - pi / 64" using pi_gt_zero by simp
  finally have lo: "pi / 64 \<le> ?t" by simp
  have hi: "?t \<le> pi / 2" using pi_gt_zero by simp
  have "sin (pi / 64) \<le> sin ?t"
    using lo hi pi_gt_zero by (intro sin_monotone_2pi_le) simp_all
  moreover have "cos (a * (pi / 180)) = sin ?t"
  proof -
    have "cos (a * (pi / 180)) = cos \<bar>a * (pi / 180)\<bar>" by (simp only: cos_abs_real)
    also have "\<bar>a * (pi / 180)\<bar> = \<bar>a\<bar> * (pi / 180)" using pi_gt_zero by (simp add: abs_mult)
    also have "cos (\<bar>a\<bar> * (pi / 180)) = sin ?t" by (simp add: sin_diff)
    finally show ?thesis .
  qed
  ultimately show ?thesis using sin_pi_64 by linarith
qed

lemma product_one_inverse:
  fixes a b :: real
  assumes "a * b = 1" and "0 < b"
  shows "a = 1 / b"
  using assms by (simp add: field_simps)

lemma inverse_lower_bound:
  fixes b :: real
  assumes "0 < b" and "b \<le> 64"
  shows "1 / 64 \<le> 1 / b"
  using assms by (simp add: field_simps)

text \<open>The argument of the logarithm, \<open>tan \<theta> + 1 / cos \<theta>\<close>, and the logarithm itself.\<close>

lemma mercator_argument:
  fixes x :: real
  assumes c: "1 / 32 \<le> cos x"
  shows "\<bar>tan x\<bar> \<le> 32" and "\<bar>1 / cos x\<bar> \<le> 32"
    and "1 / 64 \<le> tan x + 1 / cos x" and "tan x + 1 / cos x \<le> 64"
proof -
  have cp: "0 < cos x" using c by linarith
  have inv: "1 / cos x \<le> 32" using c cp by (simp add: field_simps)
  then show sec: "\<bar>1 / cos x\<bar> \<le> 32" using cp by simp
  have "\<bar>tan x\<bar> = \<bar>sin x\<bar> * (1 / cos x)" using cp by (simp add: tan_def abs_mult)
  also have "\<dots> \<le> 1 * (1 / cos x)" using cp by (intro mult_right_mono) simp_all
  finally show tn: "\<bar>tan x\<bar> \<le> 32" using inv by simp
  show up: "tan x + 1 / cos x \<le> 64" using tn sec by linarith
  have eq: "tan x + 1 / cos x = (1 + sin x) / cos x"
    by (simp add: tan_def add_divide_distrib)
  have "sin x \<noteq> 1"
  proof
    assume "sin x = 1"
    then have "(cos x)\<^sup>2 = 0" using sin_cos_squared_add [of x] by simp
    then show False using cp by simp
  qed
  moreover have "sin x \<le> 1" by simp
  ultimately have m: "0 < 1 - sin x" by linarith
  have "1 - sin x \<le> 2" using sin_ge_minus_one [of x] by linarith
  then have "(1 - sin x) / cos x \<le> 2 / cos x" using cp by (intro divide_right_mono) simp_all
  then have other: "(1 - sin x) / cos x \<le> 64" using inv by simp
  have opos: "0 < (1 - sin x) / cos x" using m cp by simp
  have "(1 + sin x) * (1 - sin x) = (cos x)\<^sup>2"
    using sin_cos_squared_add [of x] by (simp add: algebra_simps power2_eq_square)
  then have prod: "((1 + sin x) / cos x) * ((1 - sin x) / cos x) = 1"
    using cp by (simp add: power2_eq_square)
  have "(1 + sin x) / cos x = 1 / ((1 - sin x) / cos x)"
    using prod opos by (rule product_one_inverse)
  also have "\<dots> \<ge> 1 / 64" using opos other by (rule inverse_lower_bound)
  finally show "1 / 64 \<le> tan x + 1 / cos x" unfolding eq .
qed

lemma ln_64: "ln (64::real) \<le> 6"
proof -
  have "ln (64::real) = ln (2 ^ 6)" by simp
  also have "\<dots> = real 6 * ln 2" by (rule ln_realpow)
  also have "\<dots> \<le> 6 * 1" using ln_le_minus_one [of "2::real"] by simp
  finally show ?thesis by simp
qed

lemma ln_mercator:
  fixes v :: real
  assumes "1 / 64 \<le> v" and "v \<le> 64"
  shows "\<bar>ln v\<bar> \<le> 6"
proof -
  have vp: "0 < v" using assms by linarith
  have up: "ln v \<le> ln 64" using assms vp by simp
  have "ln (1 / 64) \<le> ln v" using assms vp by simp
  moreover have "ln (1 / 64 :: real) = - ln 64" by (simp add: ln_div)
  ultimately show ?thesis using up ln_64 by linarith
qed

lemma clamp_int_bounds:
  "0 < (n::int) \<Longrightarrow> 0 \<le> max 0 (min (n - 1) v) \<and> max 0 (min (n - 1) v) < n"
  by linarith

lemma clamp_latitude:
  assumes "lat \<noteq> NaN" and "0 \<le> c"
  shows "\<exists>a. py_max (py_min lat (Finite c)) (Finite (- c)) = Finite a \<and> \<bar>a\<bar> \<le> c"
  using assms by (cases lat) (auto simp: py_min_def py_max_def)

text \<open>Whatever the function returns is within bounds.\<close>

lemma latlon_to_tile_result:
  assumes "latlon_to_tile lat lon z = Inr (x, y)"
  shows "0 \<le> x \<and> x < 2 ^ z \<and> 0 \<le> y \<and> y < 2 ^ z"
proof -
  have n: "(0::int) < 2 ^ z" by simp
  obtain xi yi where "x = xi mod 2 ^ z" and "y = max 0 (min (2 ^ z - 1) yi)"
    using assms
    by (auto simp: latlon_to_tile_def Let_def and_then_def split: sum.splits)
  then show ?thesis using n clamp_int_bounds [OF n, of yi] by simp
qed

text \<open>Within the range of the doubles nothing raises.\<close>

lemma latlon_to_tile_returns:
  assumes lat: "lat \<noteq> NaN" and z: "z \<le> 1023"
    and lon: "\<bar>b + 180\<bar> * 2 ^ z \<le> DBL_MAX"
  shows "\<exists>x y. latlon_to_tile lat (Finite b) z = Inr (x, y)"
proof -
  obtain a where a: "py_max (py_min lat (Finite 85.05112878)) (Finite (- 85.05112878)) = Finite a"
    and ab: "\<bar>a\<bar> \<le> 85.05112878"
    using clamp_latitude [OF lat, of "85.05112878"] by auto
  let ?th = "a * (pi / 180)"
  have pw: "(2::real) ^ z \<le> 2 ^ 1023" using z by (intro power_increasing) simp_all
  have one: "(1::real) \<le> 2 ^ z" by simp
  \<comment> \<open>the column\<close>
  have "\<bar>b + 180\<bar> * 1 \<le> \<bar>b + 180\<bar> * 2 ^ z" using one by (intro mult_left_mono) simp_all
  then have s: "\<bar>b + 180\<bar> \<le> DBL_MAX" using lon by simp
  have "\<bar>(b + 180) / 360\<bar> \<le> \<bar>b + 180\<bar>" by simp
  then have q: "\<bar>(b + 180) / 360\<bar> \<le> DBL_MAX" using s by linarith
  have "\<bar>(b + 180) / 360 * 2 ^ z\<bar> \<le> \<bar>b + 180\<bar> * 2 ^ z"
    by (simp add: abs_mult divide_le_eq)
  then have xf: "\<bar>(b + 180) / 360 * 2 ^ z\<bar> \<le> DBL_MAX" using lon by linarith
  have nf: "int_to_float (2 ^ z) = Inr (Finite (2 ^ z))"
    using pw DBL_MAX_ge by (simp add: int_to_float_def)
  \<comment> \<open>the row\<close>
  have "\<bar>?th\<bar> = \<bar>a\<bar> * (pi / 180)" using pi_gt_zero by (simp add: abs_mult)
  also have "\<dots> \<le> 85.05112878 * (pi / 180)"
    using ab pi_gt_zero by (intro mult_right_mono) simp_all
  also have "\<dots> \<le> 64" using pi_less_4 by simp
  finally have th: "\<bar>?th\<bar> \<le> 64" .
  note c = cos_clamped_ge [OF ab]
  note m = mercator_argument [OF c]
  have cz: "cos ?th \<noteq> 0" using c by linarith
  let ?v = "tan ?th + 1 / cos ?th"
  have vp: "\<not> ?v \<le> 0" using m(3) by linarith
  have va: "\<bar>?v\<bar> \<le> 64" using m(3,4) by linarith
  note l = ln_mercator [OF m(3) m(4)]
  have "\<bar>ln ?v / pi\<bar> = \<bar>ln ?v\<bar> / pi" using pi_gt_zero by simp
  also have "\<dots> \<le> 6 / 3" using l pi_ge_three by (intro frac_le) simp_all
  finally have lp: "\<bar>ln ?v / pi\<bar> \<le> 2" by simp
  have d: "\<bar>1 + - (ln ?v / pi)\<bar> \<le> 3" using lp by linarith
  have h: "\<bar>(1 + - (ln ?v / pi)) / 2\<bar> \<le> 3 / 2" using d by simp
  have "\<bar>(1 + - (ln ?v / pi)) / 2 * 2 ^ z\<bar> = \<bar>(1 + - (ln ?v / pi)) / 2\<bar> * 2 ^ z"
    by (simp add: abs_mult)
  also have "\<dots> \<le> 3 / 2 * 2 ^ 1023" using h pw by (intro mult_mono) simp_all
  finally have yf: "\<bar>(1 + - (ln ?v / pi)) / 2 * 2 ^ z\<bar> \<le> DBL_MAX"
    using DBL_MAX_ge by linarith
  define th where "th = a * (pi / 180)"
  define v where "v = tan th + 1 / cos th"
  define lp where "lp = ln v / pi"
  define hf where "hf = (1 + - lp) / 2"
  define q where "q = (b + 180) / 360"
  have e1: "fadd (Finite b) (Finite 180) = Finite (b + 180)"
    using s by (simp add: fl_in_range)
  have e2: "fdiv (Finite (b + 180)) (Finite 360) = Inr (Finite q)"
    using q by (simp add: fl_in_range q_def)
  have e3: "fmul (Finite q) (Finite (2 ^ z)) = Finite (q * 2 ^ z)"
    using xf by (simp add: fl_in_range q_def)
  have e4: "math_radians (Finite a) = Finite th"
    using th unfolding math_radians_def th_def by (simp only: fmul.simps fl_small)
  have e5: "math_tan (Finite th) = Inr (Finite (tan th))"
    using m(1) unfolding th_def by (simp only: math_tan.simps fl_small)
  have e6: "math_cos (Finite th) = Inr (Finite (cos th))" by simp
  have e7: "fdiv (Finite 1) (Finite (cos th)) = Inr (Finite (1 / cos th))"
    using cz m(2) unfolding th_def by (simp add: fl_small)
  have e8: "fadd (Finite (tan th)) (Finite (1 / cos th)) = Finite v"
    using va unfolding th_def v_def by (simp only: fadd.simps fl_small)
  have e9: "math_log (Finite v) = Inr (Finite (ln v))"
    using vp unfolding th_def v_def by simp
  have e10: "fdiv (Finite (ln v)) (Finite pi) = Inr (Finite lp)"
    using lp pi_gt_zero unfolding th_def v_def lp_def by (simp add: fl_small)
  have e11: "fsub (Finite 1) (Finite lp) = Finite (1 + - lp)"
    using d unfolding th_def v_def lp_def fsub_def by (simp only: fneg.simps fadd.simps fl_small)
  have e12: "fdiv (Finite (1 + - lp)) (Finite 2) = Inr (Finite hf)"
    using h unfolding th_def v_def lp_def hf_def by (simp add: fl_small)
  have e13: "fmul (Finite hf) (Finite (2 ^ z)) = Finite (hf * 2 ^ z)"
    using yf unfolding th_def v_def lp_def hf_def by (simp only: fmul.simps fl_in_range)
  have nf': "int_to_float (2 ^ z) = Inr (Finite (2 ^ z))" using nf by simp
  have "latlon_to_tile lat (Finite b) z =
      Inr (py_int (q * 2 ^ z) mod 2 ^ z, max 0 (min (2 ^ z - 1) (py_int (hf * 2 ^ z))))"
    unfolding latlon_to_tile_def Let_def a
    by (simp only: and_then_def e1 e2 nf' e3 e4 e5 e6 e7 e8 e9 e10 e11 e12 e13 sum.case
          float_to_int.simps)
  then show ?thesis by blast
qed

text \<open>
  C1, as the code has it. Whenever \<^verbatim>\<open>latlon_to_tile\<close> returns, its result \<open>(x, y)\<close> has
  \<open>0 \<le> x < 2^z\<close> and \<open>0 \<le> y < 2^z\<close>. It returns for every zoom \<open>z \<le> 1023\<close>, every
  latitude other than NaN (an infinite latitude is clamped like any other) and every
  finite longitude \<open>b\<close> with \<open>|b + 180| * 2^z\<close> within the range of the doubles. Outside
  these it has error conditions, shown after the theorem.
\<close>

theorem latlon_to_tile_in_bounds:
  "(latlon_to_tile lat lon z = Inr (x, y) \<longrightarrow> 0 \<le> x \<and> x < 2 ^ z \<and> 0 \<le> y \<and> y < 2 ^ z)
   \<and> (lat \<noteq> NaN \<and> z \<le> 1023 \<and> \<bar>b + 180\<bar> * 2 ^ z \<le> DBL_MAX \<longrightarrow>
        (\<exists>x' y'. latlon_to_tile lat (Finite b) z = Inr (x', y')
           \<and> 0 \<le> x' \<and> x' < 2 ^ z \<and> 0 \<le> y' \<and> y' < 2 ^ z))"
proof -
  have "\<exists>x' y'. latlon_to_tile lat (Finite b) z = Inr (x', y')
           \<and> 0 \<le> x' \<and> x' < 2 ^ z \<and> 0 \<le> y' \<and> y' < 2 ^ z"
    if range: "lat \<noteq> NaN" "z \<le> 1023" "\<bar>b + 180\<bar> * 2 ^ z \<le> DBL_MAX"
  proof -
    obtain x' y' where r: "latlon_to_tile lat (Finite b) z = Inr (x', y')"
      using latlon_to_tile_returns [OF range] by blast
    then show ?thesis using latlon_to_tile_result [OF r] by blast
  qed
  then show ?thesis using latlon_to_tile_result by blast
qed

lemma latlon_to_tile_origin: "latlon_to_tile (Finite 0) (Finite 0) 11 = Inr (1024, 1024)"
proof -
  have f: "fl 0 = Finite 0" "fl 1 = Finite 1" "fl 180 = Finite 180" "fl (1 / 2) = Finite (1 / 2)"
    "fl 1024 = Finite 1024"
    by (simp_all add: fl_def DBL_MAX_def)
  have n: "int_to_float 2048 = Inr (Finite 2048)" by (simp add: int_to_float_def DBL_MAX_def)
  show ?thesis
    by (simp add: latlon_to_tile_def py_min_def py_max_def and_then_def math_radians_def
          fsub_def f n py_int_def)
qed

theorem latlon_to_tile_in_bounds_witness:
  "latlon_to_tile (Finite 0) (Finite 0) 11 = Inr (1024, 1024)
   \<and> (0::int) \<le> 1024 \<and> (1024::int) < 2 ^ 11
   \<and> (\<exists>x' y'. latlon_to_tile PosInf (Finite (- 180)) 1023 = Inr (x', y')
         \<and> 0 \<le> x' \<and> x' < 2 ^ 1023 \<and> 0 \<le> y' \<and> y' < 2 ^ 1023)"
proof -
  have range: "\<bar>- 180 + 180\<bar> * 2 ^ 1023 \<le> DBL_MAX" using DBL_MAX_pos by simp
  show ?thesis
    using latlon_to_tile_in_bounds [of "Finite 0" "Finite 0" 11 1024 1024 0]
      latlon_to_tile_in_bounds [of PosInf "Finite 0" 1023 0 0 "- 180"]
      latlon_to_tile_origin range
    by simp
qed

text \<open>
  C1 as stated fails: the function has error conditions. At longitude \<open>10\<^sup>3\<^sup>0\<^sup>8\<close> and zoom 11
  the product \<^verbatim>\<open>x_float\<close> is beyond the largest double, so it is infinite and \<^verbatim>\<open>int\<close>
  raises \<^verbatim>\<open>OverflowError\<close>; a NaN latitude reaches \<^verbatim>\<open>int\<close> and raises \<^verbatim>\<open>ValueError\<close>; at
  zoom 1024 the conversion of \<open>n\<close> to a float raises \<^verbatim>\<open>OverflowError\<close>.
\<close>

theorem latlon_to_tile_raises_counterexample:
  "latlon_to_tile (Finite 0) (Finite (10 ^ 308)) 11
     = Inl (Exception ''cannot convert float infinity to integer'')
   \<and> latlon_to_tile NaN (Finite 0) 11 = Inl (Exception ''cannot convert float NaN to integer'')
   \<and> latlon_to_tile (Finite 0) (Finite 0) 1024
       = Inl (Exception ''int too large to convert to float'')"
proof -
  have f: "fl 0 = Finite 0" "fl 1 = Finite 1" "fl 180 = Finite 180" "fl (1 / 2) = Finite (1 / 2)"
    "fl 1024 = Finite 1024"
    by (simp_all add: fl_def DBL_MAX_def)
  have n: "int_to_float 2048 = Inr (Finite 2048)" by (simp add: int_to_float_def DBL_MAX_def)
  have first: "latlon_to_tile (Finite 0) (Finite (10 ^ 308)) 11
      = Inl (Exception ''cannot convert float infinity to integer'')"
    by (simp add: latlon_to_tile_def py_min_def py_max_def and_then_def math_radians_def
          fsub_def n py_int_def fl_def DBL_MAX_def)
  have second: "latlon_to_tile NaN (Finite 0) 11
      = Inl (Exception ''cannot convert float NaN to integer'')"
    by (simp add: latlon_to_tile_def py_min_def py_max_def and_then_def math_radians_def
          fsub_def f n py_int_def)
  have third: "latlon_to_tile (Finite 0) (Finite 0) 1024
      = Inl (Exception ''int too large to convert to float'')"
    by (simp add: latlon_to_tile_def py_min_def py_max_def and_then_def f int_to_float_def DBL_MAX_def)
  show ?thesis using first second third by simp
qed

text \<open>
  C8. At latitude 90 the result is the one at latitude 85.05112878, for every longitude
  and zoom: the latitude is clamped before it is projected.
\<close>

theorem latlon_to_tile_clamps_pole:
  "latlon_to_tile (Finite 90) lon z = latlon_to_tile (Finite 85.05112878) lon z"
  by (simp add: latlon_to_tile_def py_min_def py_max_def)

subsection \<open>Wrap and clamp\<close>

text \<open>
  C3. With \<open>n = 2^z\<close>, \<^verbatim>\<open>wrap_clamp_tile(x, y, z)\<close> is \<open>(x mod n, clamp y 0 (n - 1))\<close>: the first
  component is the non-negative remainder, also in the form \<open>((x mod n) + n) mod n\<close>, and
  the second lies in \<open>[0, n - 1]\<close>. From the centre column 0 a negative \<open>dx\<close> (down to
  \<open>- n\<close>) wraps to \<open>n - |dx|\<close>; from the centre row 0 a negative \<open>dy\<close> clamps to 0.
\<close>

theorem wrap_clamp_tile_wraps_x_clamps_y:
  "wrap_clamp_tile x y z = (x mod 2 ^ z, max 0 (min (2 ^ z - 1) y))
   \<and> fst (wrap_clamp_tile x y z) = ((x mod 2 ^ z) + 2 ^ z) mod 2 ^ z
   \<and> 0 \<le> fst (wrap_clamp_tile x y z) \<and> fst (wrap_clamp_tile x y z) < 2 ^ z
   \<and> 0 \<le> snd (wrap_clamp_tile x y z) \<and> snd (wrap_clamp_tile x y z) \<le> 2 ^ z - 1
   \<and> (dx < 0 \<and> - (2 ^ z) \<le> dx \<longrightarrow> fst (wrap_clamp_tile (0 + dx) y z) = 2 ^ z - \<bar>dx\<bar>)
   \<and> (dy < 0 \<longrightarrow> snd (wrap_clamp_tile x (0 + dy) z) = 0)"
proof -
  have n: "(0::int) < 2 ^ z" by simp
  have wrap: "dx mod 2 ^ z = 2 ^ z - \<bar>dx\<bar>" if "dx < 0" "- (2 ^ z) \<le> dx"
  proof -
    have "(dx + 2 ^ z) mod 2 ^ z = dx + 2 ^ z"
      using that by (intro mod_pos_pos_trivial) simp_all
    then show ?thesis using that by simp
  qed
  show ?thesis
    using n clamp_int_bounds [OF n, of y] wrap
    by (simp add: wrap_clamp_tile_def Let_def del: max_less_iff_conj min_less_iff_conj)
qed

theorem wrap_clamp_tile_wraps_x_clamps_y_witness:
  "wrap_clamp_tile (0 + (- 3)) (0 + (- 2)) 11 = (2045, 0)
   \<and> fst (wrap_clamp_tile (0 + (- 3)) 7 11) = 2 ^ 11 - \<bar>- 3\<bar>
   \<and> snd (wrap_clamp_tile 5 (0 + (- 2)) 11) = 0"
  using wrap_clamp_tile_wraps_x_clamps_y [of "- 3" 7 11 "- 3" "- 2"]
        wrap_clamp_tile_wraps_x_clamps_y [of 5 "- 2" 11 "- 3" "- 2"]
  by (simp add: wrap_clamp_tile_def)

subsection \<open>Grid builder\<close>

lemma foldl_append_single: "foldl (\<lambda>acc x. acc @ [f x]) acc xs = acc @ map f xs"
  by (induction xs arbitrary: acc) simp_all

lemma foldl_append_rows: "foldl (\<lambda>acc y. acc @ g y) acc ys = acc @ concat (map g ys)"
  by (induction ys arbitrary: acc) simp_all

lemma build_grid_rows:
  "build_grid cx cy n =
     concat (map (\<lambda>dy. map (\<lambda>dx. grid_cell cx cy dx dy) (offset_range n)) (offset_range n))"
  by (simp add: build_grid_def foldl_append_single foldl_append_rows)

lemma length_offset_range: "1 \<le> n \<Longrightarrow> length (offset_range n) = nat n"
proof -
  assume "1 \<le> n"
  have "n mod 2 = 0 \<Longrightarrow> n = 2 * (n div 2)" by presburger
  moreover have "n mod 2 \<noteq> 0 \<Longrightarrow> n = 2 * (n div 2) + 1" by presburger
  ultimately show ?thesis
    by (auto simp: offset_range_def py_range_def Let_def length_upto)
qed

lemma length_concat_const:
  "length (concat (map (\<lambda>y. map (f y) xs) ys)) = length ys * length xs"
  by (induction ys) simp_all

text \<open>
  C2. For a grid size \<open>n \<ge> 1\<close> the grid builder emits exactly \<open>n\<^sup>2\<close> cells. With
  \<open>h = n div 2\<close>, the offsets \<open>(dx, dy)\<close> of the cells are, in order, those of the rows
  \<open>dy = - h, \<dots>\<close> (outer loop) and within a row \<open>dx = - h, \<dots>\<close> (inner loop), both up to
  \<open>h\<close> when \<open>n\<close> is odd and up to \<open>h - 1\<close> when \<open>n\<close> is even. Each cell holds the wrapped
  and clamped tile at its offset from the centre.
\<close>

theorem build_grid_row_major:
  assumes "1 \<le> n"
  shows "length (build_grid cx cy n) = nat (n * n)
    \<and> build_grid cx cy n =
        (if n mod 2 = 0
         then [(fst (wrap_clamp_tile (cx + dx) (cy + dy) TILE_ZOOM),
                snd (wrap_clamp_tile (cx + dx) (cy + dy) TILE_ZOOM), dx, dy).
                 dy \<leftarrow> [- (n div 2)..n div 2 - 1], dx \<leftarrow> [- (n div 2)..n div 2 - 1]]
         else [(fst (wrap_clamp_tile (cx + dx) (cy + dy) TILE_ZOOM),
                snd (wrap_clamp_tile (cx + dx) (cy + dy) TILE_ZOOM), dx, dy).
                 dy \<leftarrow> [- (n div 2)..n div 2], dx \<leftarrow> [- (n div 2)..n div 2]])"
proof -
  have len: "length (build_grid cx cy n) = nat (n * n)"
    using assms
    by (simp add: build_grid_rows length_concat_const length_offset_range nat_mult_distrib)
  have cell: "grid_cell cx cy dx dy =
      (fst (wrap_clamp_tile (cx + dx) (cy + dy) TILE_ZOOM),
       snd (wrap_clamp_tile (cx + dx) (cy + dy) TILE_ZOOM), dx, dy)" for dx dy
    by (simp add: grid_cell_def split: prod.splits)
  show ?thesis
    using len by (simp add: build_grid_rows cell offset_range_def py_range_def Let_def)
qed

theorem build_grid_row_major_witness:
  "length (build_grid 512 384 3) = 9
   \<and> build_grid 512 384 3 =
       [(511, 383, - 1, - 1), (512, 383, 0, - 1), (513, 383, 1, - 1),
        (511, 384, - 1, 0), (512, 384, 0, 0), (513, 384, 1, 0),
        (511, 385, - 1, 1), (512, 385, 0, 1), (513, 385, 1, 1)]
   \<and> length (build_grid 0 0 2) = 4
   \<and> build_grid 0 0 2 = [(2047, 0, - 1, - 1), (0, 0, 0, - 1), (2047, 0, - 1, 0), (0, 0, 0, 0)]"
proof -
  have three: "(1::int) \<le> 3" and two: "(1::int) \<le> 2" by simp_all
  have r3: "[- 1..1] = [- 1, 0, 1::int]" and r2: "[- 1..0] = [- 1, 0::int]"
    by (simp_all add: upto.simps)
  show ?thesis
    using build_grid_row_major [OF three, of 512 384] build_grid_row_major [OF two, of 0 0]
    by (simp add: wrap_clamp_tile_def TILE_ZOOM_def r3 r2)
qed

subsection \<open>Tile fetcher\<close>

lemma session_get_simps [simp]:
  "fst (session_get E u w) = http_get E (gets w) u"
  "files (snd (session_get E u w)) = files w"
  "gets (snd (session_get E u w)) = Suc (gets w)"
  "writes (snd (session_get E u w)) = writes w"
  "stdout (snd (session_get E u w)) = stdout w"
  by (simp_all add: session_get_def)

lemma write_bytes_files:
  "files (snd (write_bytes E p content w)) =
     (case write_fault E (writes w) of
        None \<Rightarrow> (files w)(p \<mapsto> content)
      | Some e \<Rightarrow> (case write_residue E (writes w) of
                    None \<Rightarrow> files w
                  | Some m \<Rightarrow> (files w)(p \<mapsto> take m content)))"
  by (simp add: write_bytes_def split: option.splits)

lemma write_bytes_frame:
  "p \<noteq> dest \<Longrightarrow> files (snd (write_bytes E dest content w)) p = files w p"
  by (simp add: write_bytes_files split: option.splits)

text \<open>The write of the marker: the file is empty afterwards, or as it was.\<close>

lemma write_bytes_marker:
  "files (snd (write_bytes E dest [] w)) =
     (if write_fault E (writes w) = None \<or> write_residue E (writes w) \<noteq> None
      then (files w)(dest \<mapsto> []) else files w)"
  by (auto simp: write_bytes_files split: option.splits)

lemma write_bytes_simps [simp]:
  "gets (snd (write_bytes E p content w)) = gets w"
  "writes (snd (write_bytes E p content w)) = Suc (writes w)"
  "stdout (snd (write_bytes E p content w)) = stdout w"
  "stderr (snd (write_bytes E p content w)) = stderr w"
  "saved (snd (write_bytes E p content w)) = saved w"
  "fst (write_bytes E p content w) = (case write_fault E (writes w) of Some e \<Rightarrow> Inl e | None \<Rightarrow> Inr ())"
  by (simp_all add: write_bytes_def split: option.splits)

lemma sleep_simps [simp]:
  "files (sleep d w) = files w"
  "gets (sleep d w) = gets w"
  "writes (sleep d w) = writes w"
  "stdout (sleep d w) = stdout w"
  "stderr (sleep d w) = stderr w"
  "saved (sleep d w) = saved w"
  by (simp_all add: sleep_def)

text \<open>A request that raises: the handler runs in the world after the request.\<close>

lemma try_fetch_failed:
  "http_get E (gets w) u = Inl e \<Longrightarrow> try_fetch E u dest w = (Inl e, w\<lparr>gets := Suc (gets w)\<rparr>)"
  by (simp add: try_fetch_def session_get_def)

lemma try_fetch_frame:
  "p \<noteq> dest \<Longrightarrow> files (snd (try_fetch E u dest w)) p = files w p"
  by (simp add: try_fetch_def session_get_def write_bytes_def split: sum.splits option.splits)

lemma try_fetch_stdout: "stdout (snd (try_fetch E u dest w)) = stdout w"
  by (simp add: try_fetch_def session_get_def write_bytes_def split: sum.splits option.splits)

lemma download_attempts_frame:
  "p \<noteq> dest \<Longrightarrow> files (snd (download_attempts E u dest r as w)) p = files w p"
proof (induction as arbitrary: w)
  case Nil
  then show ?case by simp
next
  case (Cons a as)
  obtain res w1 where t: "try_fetch E u dest w = (res, w1)" by (cases "try_fetch E u dest w")
  have f1: "files w1 p = files w p" using try_fetch_frame [OF Cons.prems, of E u w] t by simp
  obtain res2 w2 where m: "write_bytes E dest [] w1 = (res2, w2)"
    by (cases "write_bytes E dest [] w1")
  have f2: "files w2 p = files w p"
    using write_bytes_frame [OF Cons.prems, of E "[]" w1] m f1 by simp
  show ?case
    using t m f1 f2 Cons.IH
    by (cases res) (auto simp: Cons.prems split: sum.splits)
qed

lemma download_attempts_stdout:
  "stdout (snd (download_attempts E u dest r as w)) = stdout w"
proof (induction as arbitrary: w)
  case Nil
  then show ?case by simp
next
  case (Cons a as)
  obtain res w1 where t: "try_fetch E u dest w = (res, w1)" by (cases "try_fetch E u dest w")
  have f1: "stdout w1 = stdout w" using try_fetch_stdout [of E u dest w] t by simp
  obtain res2 w2 where m: "write_bytes E dest [] w1 = (res2, w2)"
    by (cases "write_bytes E dest [] w1")
  have f2: "stdout w2 = stdout w"
    using write_bytes_simps(3) [of E dest "[]" w1] m f1 by simp
  show ?case
    using t m f1 f2 Cons.IH
    by (cases res) (auto split: sum.splits)
qed

text \<open>Without an interrupt, every exception is caught inside the loop.\<close>

lemma download_attempts_returns:
  assumes "\<And>k u. http_get E k u \<noteq> Inl KeyboardInterrupt"
    and "\<And>k. write_fault E k \<noteq> Some KeyboardInterrupt"
  shows "fst (download_attempts E u dest r as w) = Inr ()"
proof (induction as arbitrary: w)
  case Nil
  then show ?case by simp
next
  case (Cons a as)
  have exc: "is_Exception e" if "fst (try_fetch E u dest w) = Inl e" for e
    using that assms(1) [of "gets w" u] assms(2) [of "writes (snd (session_get E u w))"]
    by (cases e) (auto simp: try_fetch_def write_bytes_def session_get_def split: sum.splits option.splits prod.splits)
  have exc2: "is_Exception e" if "fst (write_bytes E dest [] w1) = Inl e" for e w1
    using that assms(2) [of "writes w1"]
    by (cases e) (auto simp: write_bytes_def split: option.splits)
  obtain res w1 where t: "try_fetch E u dest w = (res, w1)" by (cases "try_fetch E u dest w")
  obtain res2 w2 where m: "write_bytes E dest [] w1 = (res2, w2)"
    by (cases "write_bytes E dest [] w1")
  show ?case
    using t m exc exc2 [of w1] Cons.IH
    by (cases res; cases res2) auto
qed

text \<open>
  Every attempt of \<open>[a..r]\<close> fails: the marker is written on attempt \<open>r\<close>, the only
  write of the call.
\<close>

lemma download_attempts_last_fails:
  assumes g: "http_get E (gets w) u = Inl (Exception msg)"
  shows "gets (snd (download_attempts E u dest r [r] w)) = Suc (gets w)
    \<and> writes (snd (download_attempts E u dest r [r] w)) = Suc (writes w)
    \<and> files (snd (download_attempts E u dest r [r] w)) =
        (if write_fault E (writes w) = None \<or> write_residue E (writes w) \<noteq> None
         then (files w)(dest \<mapsto> []) else files w)
    \<and> fst (download_attempts E u dest r [r] w) =
        (if write_fault E (writes w) = Some KeyboardInterrupt then Inl KeyboardInterrupt else Inr ())"
proof -
  let ?w1 = "w\<lparr>gets := Suc (gets w)\<rparr>"
  obtain res2 w2 where m: "write_bytes E dest [] ?w1 = (res2, w2)"
    by (cases "write_bytes E dest [] ?w1")
  have w2: "gets w2 = Suc (gets w)" "writes w2 = Suc (writes w)"
    "files w2 = (if write_fault E (writes w) = None \<or> write_residue E (writes w) \<noteq> None
                 then (files w)(dest \<mapsto> []) else files w)"
    "res2 = (case write_fault E (writes w) of Some e \<Rightarrow> Inl e | None \<Rightarrow> Inr ())"
    using write_bytes_simps(1,2,6) [of E dest "[]" ?w1] write_bytes_marker [of E dest ?w1] m
    by simp_all
  have step: "download_attempts E u dest r [r] w =
      (case res2 of Inr v \<Rightarrow> (Inr (), w2)
       | Inl e2 \<Rightarrow> if is_Exception e2 then (Inr (), w2) else (Inl e2, w2))"
    by (simp add: try_fetch_failed [OF g] m split: sum.splits)
  show ?thesis
  proof (cases "write_fault E (writes w)")
    case None
    then show ?thesis unfolding step using w2 by simp
  next
    case (Some e)
    then show ?thesis unfolding step using w2 by (cases e) simp_all
  qed
qed

lemma download_attempts_all_fail:
  assumes "\<And>k. gets w \<le> k \<Longrightarrow> k < gets w + nat (r - a + 1) \<Longrightarrow> \<exists>msg. http_get E k u = Inl (Exception msg)"
    and "a \<le> r"
  shows "gets (snd (download_attempts E u dest r [a..r] w)) = gets w + nat (r - a + 1)
    \<and> writes (snd (download_attempts E u dest r [a..r] w)) = Suc (writes w)
    \<and> files (snd (download_attempts E u dest r [a..r] w)) =
        (if write_fault E (writes w) = None \<or> write_residue E (writes w) \<noteq> None
         then (files w)(dest \<mapsto> []) else files w)
    \<and> fst (download_attempts E u dest r [a..r] w) =
        (if write_fault E (writes w) = Some KeyboardInterrupt then Inl KeyboardInterrupt else Inr ())"
  using assms
proof (induction "nat (r - a)" arbitrary: a w)
  case 0
  then have ar: "a = r" by simp
  obtain msg where g: "http_get E (gets w) u = Inl (Exception msg)"
    using "0.prems"(1) [of "gets w"] ar by auto
  have l: "[r..r] = [r]" by (simp add: upto.simps)
  show ?case
    unfolding ar l using download_attempts_last_fails [OF g, of dest r] by simp
next
  case (Suc d)
  then have lt: "a < r" by simp
  obtain msg where g: "http_get E (gets w) u = Inl (Exception msg)"
    using Suc.prems(1) [of "gets w"] lt by auto
  have l: "[a..r] = a # [a + 1..r]" using lt by (simp add: upto.simps)
  let ?w1 = "sleep (of_int a / 2) (w\<lparr>gets := Suc (gets w)\<rparr>)"
  have step: "download_attempts E u dest r [a..r] w = download_attempts E u dest r [a + 1..r] ?w1"
    unfolding l using lt by (simp add: try_fetch_failed [OF g])
  have d: "d = nat (r - (a + 1))" using Suc.hyps(2) by simp
  have pre: "\<exists>msg. http_get E k u = Inl (Exception msg)"
    if "gets ?w1 \<le> k" "k < gets ?w1 + nat (r - (a + 1) + 1)" for k
    using that lt by (intro Suc.prems(1)) (simp_all add: sleep_def)
  have le: "a + 1 \<le> r" using lt by simp
  have ih: "gets (snd (download_attempts E u dest r [a + 1..r] ?w1)) =
        gets ?w1 + nat (r - (a + 1) + 1)
    \<and> writes (snd (download_attempts E u dest r [a + 1..r] ?w1)) = Suc (writes ?w1)
    \<and> files (snd (download_attempts E u dest r [a + 1..r] ?w1)) =
        (if write_fault E (writes ?w1) = None \<or> write_residue E (writes ?w1) \<noteq> None
         then (files ?w1)(dest \<mapsto> []) else files ?w1)
    \<and> fst (download_attempts E u dest r [a + 1..r] ?w1) =
        (if write_fault E (writes ?w1) = Some KeyboardInterrupt then Inl KeyboardInterrupt
         else Inr ())"
  proof (rule Suc.hyps(1) [OF d _ le])
    fix k
    assume "gets ?w1 \<le> k" and "k < gets ?w1 + nat (r - (a + 1) + 1)"
    then show "\<exists>msg. http_get E k u = Inl (Exception msg)" by (rule pre)
  qed
  have fields: "gets ?w1 = Suc (gets w)" "writes ?w1 = writes w" "files ?w1 = files w"
    by (simp_all add: sleep_def)
  have ar: "Suc (gets w) + nat (r - (a + 1) + 1) = gets w + nat (r - a + 1)"
    using lt by linarith
  show ?case
    unfolding step using ih unfolding fields ar by simp
qed

lemma download_tile_no_attempts:
  fixes retries timeout :: int
  shows "retries \<le> 0 \<Longrightarrow> download_tile E x y z dest timeout retries w = (Inr (), w)"
  by (simp add: download_tile_def py_range_def)

lemma safe_open_png_empty: "fs p = Some [] \<Longrightarrow> safe_open_png E fs p = Inr None"
  by (simp add: safe_open_png_def)

lemma safe_open_png_absent:
  "fs p = None \<or> fs p = Some [] \<or> (\<exists>content msg. fs p = Some content \<and> png_decode E content = Inl (Exception msg))
   \<Longrightarrow> safe_open_png E fs p = Inr None"
  by (auto simp: safe_open_png_def)

lemma stitch_cell_fill:
  assumes "safe_open_png E fs (tile_path dir x y) = Inr None"
  shows "stitch_cell E fs dir tw th half bg_rgba (x, y, dx, dy) canvas =
     (case Image_new tw th (case bg_rgba of Some color \<Rightarrow> color | None \<Rightarrow> (0, 0, 0, 0)) of
        Inl e \<Rightarrow> Inl e
      | Inr tile \<Rightarrow> Inr (paste tile ((dx + half) * tw, (dy + half) * th) canvas))"
  using assms by (simp add: stitch_cell_def Let_def)

text \<open>All requests of a call fail: what \<^verbatim>\<open>download_tile\<close> has done when it is left.\<close>

lemma download_tile_all_fail:
  fixes retries timeout :: int
  assumes "\<forall>k. gets w \<le> k \<and> k < gets w + nat retries \<longrightarrow>
             (\<exists>msg. http_get E k (tile_url x y z) = Inl (Exception msg))"
    and "1 \<le> retries"
  shows "gets (snd (download_tile E x y z dest timeout retries w)) = gets w + nat retries"
    and "writes (snd (download_tile E x y z dest timeout retries w)) = Suc (writes w)"
    and "files (snd (download_tile E x y z dest timeout retries w)) =
        (if write_fault E (writes w) = None \<or> write_residue E (writes w) \<noteq> None
         then (files w)(dest \<mapsto> []) else files w)"
    and "fst (download_tile E x y z dest timeout retries w) =
        (if write_fault E (writes w) = Some KeyboardInterrupt then Inl KeyboardInterrupt else Inr ())"
proof -
  have pre: "\<exists>msg. http_get E k (tile_url x y z) = Inl (Exception msg)"
    if "gets w \<le> k" "k < gets w + nat (retries - 1 + 1)" for k
    using assms(1) that by simp
  have eq: "download_tile E x y z dest timeout retries w =
      download_attempts E (tile_url x y z) dest retries [1..retries] w"
    by (simp add: download_tile_def py_range_def)
  note all = download_attempts_all_fail [of w retries 1 E "tile_url x y z" dest, OF pre assms(2)]
  show "gets (snd (download_tile E x y z dest timeout retries w)) = gets w + nat retries"
    unfolding eq using all by simp
  show "writes (snd (download_tile E x y z dest timeout retries w)) = Suc (writes w)"
    unfolding eq using all by simp
  show "files (snd (download_tile E x y z dest timeout retries w)) =
        (if write_fault E (writes w) = None \<or> write_residue E (writes w) \<noteq> None
         then (files w)(dest \<mapsto> []) else files w)"
    unfolding eq using all by simp
  show "fst (download_tile E x y z dest timeout retries w) =
        (if write_fault E (writes w) = Some KeyboardInterrupt then Inl KeyboardInterrupt else Inr ())"
    unfolding eq using all by simp
qed

text \<open>
  A tile without content whose requests all fail is still without content afterwards,
  whatever \<open>retries\<close> is and whatever the write of the marker does.
\<close>

lemma download_tile_all_fail_absent:
  fixes retries timeout :: int
  assumes "\<forall>k. gets w \<le> k \<and> k < gets w + nat retries \<longrightarrow>
             (\<exists>msg. http_get E k (tile_url x y z) = Inl (Exception msg))"
    and "files w dest = None \<or> files w dest = Some []"
  shows "safe_open_png E (files (snd (download_tile E x y z dest timeout retries w))) dest = Inr None"
proof (cases "1 \<le> retries")
  case False
  then show ?thesis using assms(2) by (auto simp: download_tile_no_attempts safe_open_png_def)
next
  case True
  show ?thesis
    unfolding download_tile_all_fail(3) [OF assms(1) True]
    using assms(2) by (intro safe_open_png_absent) auto
qed

text \<open>
  C4, as the code has it. Suppose each of the \<open>retries\<close> requests of one call fails with
  an error of class \<^verbatim>\<open>Exception\<close> (network error, bad status, timeout). Then:
  \<^item> with \<open>retries \<le> 0\<close> there is no attempt: the call returns at once and changes nothing;
  \<^item> with \<open>retries \<ge> 1\<close> the call makes \<open>retries\<close> requests and one write, that of the
    marker;
  \<^item> the call returns normally, unless the write of the marker is interrupted (no remote
    failure leaves \<^verbatim>\<open>download_tile\<close>);
  \<^item> with \<open>retries \<ge> 1\<close>, when the write of the marker succeeds, or fails after it has
    created the file, a zero-length file is left at \<open>dest\<close>; when it fails before, the
    error is swallowed and the files are as they were;
  \<^item> in every case a tile that had no content before the call is read as absent by
    \<^verbatim>\<open>safe_open_png\<close> after it, and its cell is pasted as a block of the fill colour.
\<close>

theorem download_tile_exhausted_leaves_marker:
  fixes retries timeout :: int
  assumes "\<forall>k. gets w \<le> k \<and> k < gets w + nat retries \<longrightarrow>
             (\<exists>msg. http_get E k (tile_url x y z) = Inl (Exception msg))"
  shows "(retries \<le> 0 \<longrightarrow> download_tile E x y z dest timeout retries w = (Inr (), w))
    \<and> (1 \<le> retries \<longrightarrow>
          gets (snd (download_tile E x y z dest timeout retries w)) = gets w + nat retries
        \<and> writes (snd (download_tile E x y z dest timeout retries w)) = Suc (writes w))
    \<and> (write_fault E (writes w) \<noteq> Some KeyboardInterrupt \<longrightarrow>
          fst (download_tile E x y z dest timeout retries w) = Inr ())
    \<and> (1 \<le> retries \<and> (write_fault E (writes w) = None \<or> write_residue E (writes w) \<noteq> None) \<longrightarrow>
          files (snd (download_tile E x y z dest timeout retries w)) = (files w)(dest \<mapsto> []))
    \<and> (1 \<le> retries \<and> write_fault E (writes w) \<noteq> None \<and> write_residue E (writes w) = None \<longrightarrow>
          files (snd (download_tile E x y z dest timeout retries w)) = files w)
    \<and> (files w dest = None \<or> files w dest = Some [] \<longrightarrow>
          safe_open_png E (files (snd (download_tile E x y z dest timeout retries w))) dest = Inr None)
    \<and> (files w (tile_path dir x y) = None \<or> files w (tile_path dir x y) = Some [] \<longrightarrow>
          stitch_cell E (files (snd (download_tile E x y z (tile_path dir x y) timeout retries w)))
            dir tw th half bg_rgba (x, y, dx, dy) canvas =
          (case Image_new tw th (case bg_rgba of Some color \<Rightarrow> color | None \<Rightarrow> (0, 0, 0, 0)) of
             Inl e \<Rightarrow> Inl e
           | Inr tile \<Rightarrow> Inr (paste tile ((dx + half) * tw, (dy + half) * th) canvas)))"
proof -
  have none: "download_tile E x y z dest timeout retries w = (Inr (), w)" if "retries \<le> 0"
    using that by (rule download_tile_no_attempts)
  have returns: "fst (download_tile E x y z dest timeout retries w) = Inr ()"
    if "write_fault E (writes w) \<noteq> Some KeyboardInterrupt"
  proof (cases "1 \<le> retries")
    case False
    then show ?thesis by (simp add: download_tile_no_attempts)
  next
    case True
    show ?thesis unfolding download_tile_all_fail(4) [OF assms True] using that by simp
  qed
  have absent: "safe_open_png E (files (snd (download_tile E x y z d timeout retries w))) d = Inr None"
    if "files w d = None \<or> files w d = Some []" for d
    using assms that by (rule download_tile_all_fail_absent)
  have cell: "stitch_cell E (files (snd (download_tile E x y z (tile_path dir x y) timeout retries w)))
            dir tw th half bg_rgba (x, y, dx, dy) canvas =
          (case Image_new tw th (case bg_rgba of Some color \<Rightarrow> color | None \<Rightarrow> (0, 0, 0, 0)) of
             Inl e \<Rightarrow> Inl e
           | Inr tile \<Rightarrow> Inr (paste tile ((dx + half) * tw, (dy + half) * th) canvas))"
    if "files w (tile_path dir x y) = None \<or> files w (tile_path dir x y) = Some []"
    using absent [OF that] by (rule stitch_cell_fill)
  show ?thesis
    using none returns absent cell
      download_tile_all_fail(1) [OF assms, of dest timeout]
      download_tile_all_fail(2) [OF assms, of dest timeout]
      download_tile_all_fail(3) [OF assms, of dest timeout]
    by simp
qed


theorem download_tile_exhausted_leaves_marker_witness:
  "fst (download_tile offline_env 0 0 11 ''tmp/tile_0_0.png'' 10 2 blank_world) = Inr ()
   \<and> gets (snd (download_tile offline_env 0 0 11 ''tmp/tile_0_0.png'' 10 2 blank_world)) = 2
   \<and> writes (snd (download_tile offline_env 0 0 11 ''tmp/tile_0_0.png'' 10 2 blank_world)) = 1
   \<and> files (snd (download_tile offline_env 0 0 11 ''tmp/tile_0_0.png'' 10 2 blank_world))
       = [''tmp/tile_0_0.png'' \<mapsto> []]
   \<and> safe_open_png offline_env
       (files (snd (download_tile offline_env 0 0 11 ''tmp/tile_0_0.png'' 10 2 blank_world)))
       ''tmp/tile_0_0.png'' = Inr None
   \<and> stitch_cell offline_env
       (files (snd (download_tile offline_env 0 0 11 (tile_path ''tmp'' 0 0) 10 2 blank_world)))
       ''tmp'' 1000 1000 0 None (0, 0, 0, 0) \<lparr>width = 1000, height = 1000, pixel = (\<lambda>X Y. (9, 9, 9, 9))\<rparr>
       = Inr \<lparr>width = 1000, height = 1000,
              pixel = (\<lambda>X Y. if 0 \<le> X \<and> X < 1000 \<and> 0 \<le> Y \<and> Y < 1000 then (0, 0, 0, 0)
                             else (9, 9, 9, 9))\<rparr>
   \<and> download_tile offline_env 0 0 11 ''tmp/tile_0_0.png'' 10 0 blank_world = (Inr (), blank_world)
   \<and> fst (download_tile read_only_env 0 0 11 ''tmp/tile_0_0.png'' 10 2 blank_world) = Inr ()
   \<and> files (snd (download_tile read_only_env 0 0 11 ''tmp/tile_0_0.png'' 10 2 blank_world))
       = Map.empty
   \<and> safe_open_png read_only_env
       (files (snd (download_tile read_only_env 0 0 11 ''tmp/tile_0_0.png'' 10 2 blank_world)))
       ''tmp/tile_0_0.png'' = Inr None"
proof -
  have refused: "\<forall>k. gets blank_world \<le> k \<and> k < gets blank_world + nat r \<longrightarrow>
      (\<exists>msg. http_get offline_env k (tile_url 0 0 11) = Inl (Exception msg))" for r
    by (simp add: offline_env_def)
  have refused': "\<forall>k. gets blank_world \<le> k \<and> k < gets blank_world + nat 2 \<longrightarrow>
      (\<exists>msg. http_get read_only_env k (tile_url 0 0 11) = Inl (Exception msg))"
    by (simp add: read_only_env_def offline_env_def)
  have disk: "write_fault offline_env (writes blank_world) = None"
    "write_fault read_only_env (writes blank_world) = Some (Exception ''Permission denied'')"
    "write_residue read_only_env (writes blank_world) = None"
    by (simp_all add: read_only_env_def offline_env_def)
  have start: "gets blank_world = 0" "writes blank_world = 0" "files blank_world = Map.empty"
    by (simp_all add: blank_world_def)
  have path: "tile_path ''tmp'' 0 0 = ''tmp/tile_0_0.png''" by code_simp
  note marker = download_tile_exhausted_leaves_marker
      [OF refused [of 2], of "''tmp/tile_0_0.png''" 10 "''tmp''" 1000 1000 0 None 0 0
         "\<lparr>width = 1000, height = 1000, pixel = (\<lambda>X Y. (9, 9, 9, 9))\<rparr>"]
  note untried = download_tile_exhausted_leaves_marker
      [OF refused [of 0], of "''tmp/tile_0_0.png''" 10 "''tmp''" 1000 1000 0 None 0 0
         "\<lparr>width = 1000, height = 1000, pixel = (\<lambda>X Y. (9, 9, 9, 9))\<rparr>"]
  note swallowed = download_tile_exhausted_leaves_marker
      [OF refused', of "''tmp/tile_0_0.png''" 10 "''tmp''" 1000 1000 0 None 0 0
         "\<lparr>width = 1000, height = 1000, pixel = (\<lambda>X Y. (9, 9, 9, 9))\<rparr>"]
  have block: "(case Image_new 1000 1000 (0, 0, 0, 0) of
        Inl e \<Rightarrow> Inl e
      | Inr tile \<Rightarrow> Inr (paste tile ((0 + 0) * 1000, (0 + 0) * 1000)
            \<lparr>width = 1000, height = 1000, pixel = (\<lambda>X Y. (9, 9, 9, 9))\<rparr>))
     = Inr \<lparr>width = 1000, height = 1000,
              pixel = (\<lambda>X Y. if 0 \<le> X \<and> X < 1000 \<and> 0 \<le> Y \<and> Y < 1000 then (0, 0, 0, 0)
                             else (9, 9, 9, 9))\<rparr>"
    by (auto simp: Image_new_def paste_def fun_eq_iff)
  have m1: "fst (download_tile offline_env 0 0 11 ''tmp/tile_0_0.png'' 10 2 blank_world) = Inr ()"
    using marker [THEN conjunct2, THEN conjunct2, THEN conjunct1] disk by simp
  have m2: "gets (snd (download_tile offline_env 0 0 11 ''tmp/tile_0_0.png'' 10 2 blank_world)) = 2
      \<and> writes (snd (download_tile offline_env 0 0 11 ''tmp/tile_0_0.png'' 10 2 blank_world)) = 1"
    using marker [THEN conjunct2, THEN conjunct1] start by simp
  have m3: "files (snd (download_tile offline_env 0 0 11 ''tmp/tile_0_0.png'' 10 2 blank_world)) = [''tmp/tile_0_0.png'' \<mapsto> []]"
    using marker [THEN conjunct2, THEN conjunct2, THEN conjunct2, THEN conjunct1] disk start by simp
  have m4: "safe_open_png offline_env (files (snd (download_tile offline_env 0 0 11 ''tmp/tile_0_0.png'' 10 2 blank_world))) ''tmp/tile_0_0.png'' = Inr None"
    using marker [THEN conjunct2, THEN conjunct2, THEN conjunct2, THEN conjunct2, THEN conjunct2, THEN conjunct1] start by simp
  have m5: "stitch_cell offline_env
       (files (snd (download_tile offline_env 0 0 11 (tile_path ''tmp'' 0 0) 10 2 blank_world)))
       ''tmp'' 1000 1000 0 None (0, 0, 0, 0) \<lparr>width = 1000, height = 1000, pixel = (\<lambda>X Y. (9, 9, 9, 9))\<rparr>
       = Inr \<lparr>width = 1000, height = 1000,
              pixel = (\<lambda>X Y. if 0 \<le> X \<and> X < 1000 \<and> 0 \<le> Y \<and> Y < 1000 then (0, 0, 0, 0)
                             else (9, 9, 9, 9))\<rparr>"
    using marker [THEN conjunct2, THEN conjunct2, THEN conjunct2, THEN conjunct2, THEN conjunct2, THEN conjunct2] start block by simp
  have n1: "download_tile offline_env 0 0 11 ''tmp/tile_0_0.png'' 10 0 blank_world = (Inr (), blank_world)"
    using untried [THEN conjunct1] by simp
  have s1: "fst (download_tile read_only_env 0 0 11 ''tmp/tile_0_0.png'' 10 2 blank_world) = Inr ()"
    using swallowed [THEN conjunct2, THEN conjunct2, THEN conjunct1] disk by simp
  have s2: "files (snd (download_tile read_only_env 0 0 11 ''tmp/tile_0_0.png'' 10 2 blank_world)) = Map.empty"
    using swallowed [THEN conjunct2, THEN conjunct2, THEN conjunct2, THEN conjunct2, THEN conjunct1] disk start by simp
  have s3: "safe_open_png read_only_env (files (snd (download_tile read_only_env 0 0 11 ''tmp/tile_0_0.png'' 10 2 blank_world))) ''tmp/tile_0_0.png'' = Inr None"
    using swallowed [THEN conjunct2, THEN conjunct2, THEN conjunct2, THEN conjunct2, THEN conjunct2, THEN conjunct1] start by simp
  show ?thesis
    using m1 m2 m3 m4 m5 n1 s1 s2 s3 by (intro conjI) simp_all
qed

text \<open>
  C4 as stated fails in two ways: the marker is not always persisted. With \<^verbatim>\<open>--retries 0\<close>
  there is no attempt, so every one of the attempts fails, and nothing is written. With
  two attempts that both fail and a tile directory in which no file can be opened for
  writing, the error of the marker write is swallowed and again no file is left.
\<close>

theorem download_tile_marker_counterexample:
  "download_tile offline_env 0 0 11 ''tmp/tile_0_0.png'' 10 0 blank_world = (Inr (), blank_world)
   \<and> files (snd (download_tile offline_env 0 0 11 ''tmp/tile_0_0.png'' 10 0 blank_world))
       ''tmp/tile_0_0.png'' = None
   \<and> fst (download_tile read_only_env 0 0 11 ''tmp/tile_0_0.png'' 10 2 blank_world) = Inr ()
   \<and> gets (snd (download_tile read_only_env 0 0 11 ''tmp/tile_0_0.png'' 10 2 blank_world)) = 2
   \<and> files (snd (download_tile read_only_env 0 0 11 ''tmp/tile_0_0.png'' 10 2 blank_world))
        ''tmp/tile_0_0.png'' = None"
proof -
  have r: "[1..2] = [1, 2::int]" by (simp add: upto.simps)
  show ?thesis
    by (simp add: download_tile_def py_range_def r try_fetch_def session_get_def write_bytes_def
          sleep_def read_only_env_def offline_env_def blank_world_def)
qed

subsection \<open>The guard of the fetcher in the download loop\<close>

lemma download_tile_frame:
  fixes retries timeout :: int
  shows "p \<noteq> dest \<Longrightarrow> files (snd (download_tile E x y z dest timeout retries w)) p = files w p"
  by (simp add: download_tile_def download_attempts_frame)

lemma fetch_step_keeps_nonempty:
  assumes "files w p = Some content" and "content \<noteq> []"
  shows "files (snd (fetch_step E A dest x y w)) p = Some content"
proof (cases "p = dest")
  case True
  then show ?thesis using assms by (simp add: fetch_step_def)
next
  case False
  then show ?thesis using assms by (simp add: fetch_step_def download_tile_frame)
qed

lemma download_loop_keeps_nonempty:
  assumes "files w p = Some content" and "content \<noteq> []"
  shows "files (snd (download_loop E A tot index cells printed w)) p = Some content"
  using assms
proof (induction cells arbitrary: index printed w)
  case Nil
  then show ?case by simp
next
  case (Cons c cells)
  obtain x y dx dy where c: "c = (x, y, dx, dy)" by (cases c)
  obtain res w1 where s: "fetch_step E A (tile_path (tiles_dir A) x y) x y w = (res, w1)"
    by (cases "fetch_step E A (tile_path (tiles_dir A) x y) x y w")
  have k1: "files w1 p = Some content"
    using fetch_step_keeps_nonempty [OF Cons.prems, of E A "tile_path (tiles_dir A) x y" x y] s
    by simp
  show ?case
  proof (cases res)
    case (Inl e)
    then show ?thesis using c s k1 by simp
  next
    case (Inr u)
    let ?w2 = "if index < tot \<and> delay A > 0 then sleep (delay A) w1 else w1"
    obtain printed' lines where pp:
      "print_progress tot index milestones (printed, stdout ?w2) = (printed', lines)"
      by (cases "print_progress tot index milestones (printed, stdout ?w2)")
    have k2: "files (?w2\<lparr>stdout := lines\<rparr>) p = Some content" using k1 by simp
    show ?thesis
      using c s Inr pp Cons.IH [OF k2 Cons.prems(2)] by (simp add: Let_def)
  qed
qed

lemma save_image_files: "files (snd (save_image E p img w)) = files w"
  by (simp add: save_image_def split: option.splits)

lemma report_saved_files: "files (snd (report_saved E A w)) = files w"
  by (simp add: report_saved_def Let_def split: sum.splits)

lemma stitch_and_save_files: "files (snd (stitch_and_save E A cs w3)) = files w3"
proof -
  have s: "files (snd (case save_image E q img w3 of
                         (Inl e, w4) \<Rightarrow> (Inl e, w4)
                       | (Inr u, w4) \<Rightarrow> report_saved E A w4)) = files w3"
    for q img
    using save_image_files [of E q img w3] report_saved_files [of E A "snd (save_image E q img w3)"]
    by (cases "save_image E q img w3") (auto split: sum.splits)
  show ?thesis
    unfolding stitch_and_save_def
    by (simp add: s split: sum.splits)
qed

lemma main_from_center_keeps_nonempty:
  assumes "files w p = Some content" and "content \<noteq> []"
  shows "files (snd (main_from_center E A cx cy w)) p = Some content"
proof -
  let ?w1 = "w\<lparr>stdout := stdout w @ [''Center tile: x='' @ str_int cx @ '', y='' @ str_int cy]\<rparr>"
  let ?w2 = "if grid_size A mod 2 = 0
     then ?w1\<lparr>stderr := stderr ?w1 @
       [''Warning: grid-size is even; true center lies between the middle four tiles.'']\<rparr>
     else ?w1"
  let ?cells = "build_grid cx cy (grid_size A)"
  have k2: "files ?w2 p = Some content" using assms by simp
  obtain res w3 where l: "download_loop E A (int (length ?cells)) 1 ?cells {} ?w2 = (res, w3)"
    by (cases "download_loop E A (int (length ?cells)) 1 ?cells {} ?w2")
  have k3: "files w3 p = Some content"
    using download_loop_keeps_nonempty [OF k2 assms(2), of E A "int (length ?cells)" 1 ?cells "{}"] l
    by simp
  have eq: "main_from_center E A cx cy w =
      (case mkdir_fault E of
         Some e \<Rightarrow> (Inl e, ?w2)
       | None \<Rightarrow> (case res of Inl e \<Rightarrow> (Inl e, w3) | Inr printed \<Rightarrow> stitch_and_save E A ?cells w3))"
    unfolding main_from_center_def Let_def l by (cases "mkdir_fault E"; cases res; simp)
  show ?thesis
  proof (cases "mkdir_fault E")
    case (Some e)
    then show ?thesis unfolding eq using k2 by simp
  next
    case None
    then show ?thesis unfolding eq using k3 by (cases res) (simp_all add: stitch_and_save_files)
  qed
qed

text \<open>
  C10. Whatever \<^verbatim>\<open>--skip-existing\<close> says, one step of the download loop either leaves
  the world as it is or is a call of \<^verbatim>\<open>download_tile\<close> for a tile whose file is
  absent or zero-length; a file with content is never fetched again. Hence a file that
  has content before the download loop, or before \<^verbatim>\<open>main\<close>, has the same content after.
\<close>

theorem nonempty_tiles_untouched:
  "(fetch_step E A dest x y w = (Inr (), w)
      \<or> fetch_step E A dest x y w = download_tile E x y TILE_ZOOM dest (timeout A) (retries A) w
        \<and> (files w dest = None \<or> files w dest = Some []))
   \<and> (files w p = Some content \<and> content \<noteq> [] \<longrightarrow>
        fetch_step E A p x y w = (Inr (), w)
      \<and> files (snd (download_loop E A tot index cells printed w)) p = Some content
      \<and> files (snd (main_from_center E A cx cy w)) p = Some content)"
proof -
  have guard: "fetch_step E A dest x y w = (Inr (), w)
      \<or> fetch_step E A dest x y w = download_tile E x y TILE_ZOOM dest (timeout A) (retries A) w
        \<and> (files w dest = None \<or> files w dest = Some [])"
    by (cases "files w dest") (auto simp: fetch_step_def)
  have hit: "fetch_step E A p x y w = (Inr (), w)" if "files w p = Some content" "content \<noteq> []"
    using that by (simp add: fetch_step_def)
  show ?thesis
    using guard hit download_loop_keeps_nonempty main_from_center_keeps_nonempty by blast
qed

theorem nonempty_tiles_untouched_witness:
  "fetch_step online_env example_args ''tmp/tile_0_0.png'' 0 0
     (blank_world\<lparr>files := [''tmp/tile_0_0.png'' \<mapsto> ''old'']\<rparr>)
     = (Inr (), blank_world\<lparr>files := [''tmp/tile_0_0.png'' \<mapsto> ''old'']\<rparr>)
   \<and> files (snd (download_loop online_env example_args 1 1 [(0, 0, 0, 0)] {}
        (blank_world\<lparr>files := [''tmp/tile_0_0.png'' \<mapsto> ''old'']\<rparr>))) ''tmp/tile_0_0.png''
       = Some ''old''
   \<and> files (snd (main_from_center online_env example_args 0 0
        (blank_world\<lparr>files := [''tmp/tile_0_0.png'' \<mapsto> ''old'']\<rparr>))) ''tmp/tile_0_0.png''
       = Some ''old''"
  using nonempty_tiles_untouched
    [of online_env example_args "''tmp/tile_0_0.png''" 0 0
        "blank_world\<lparr>files := [''tmp/tile_0_0.png'' \<mapsto> ''old'']\<rparr>"
        "''tmp/tile_0_0.png''" "''old''" 1 1 "[(0, 0, 0, 0)]" "{}" 0 0]
  by simp

text \<open>
  C6, as the code has it. With \<^verbatim>\<open>--skip-existing\<close> the fetcher is passed over exactly
  when a file exists at the tile's path, whatever its length: the step leaves the world
  as it is when there is a file, and is the call of \<^verbatim>\<open>download_tile\<close> when there is
  none.
\<close>

theorem skip_existing_tests_existence_only:
  assumes "skip_existing A"
  shows "fetch_step E A dest x y w =
     (if files w dest \<noteq> None then (Inr (), w)
      else download_tile E x y TILE_ZOOM dest (timeout A) (retries A) w)"
  using assms by (simp add: fetch_step_def)

theorem skip_existing_tests_existence_only_witness:
  "fetch_step online_env (example_args\<lparr>skip_existing := True\<rparr>) ''tmp/tile_0_0.png'' 0 0
     (blank_world\<lparr>files := [''tmp/tile_0_0.png'' \<mapsto> ''old'']\<rparr>)
     = (Inr (), blank_world\<lparr>files := [''tmp/tile_0_0.png'' \<mapsto> ''old'']\<rparr>)
   \<and> fetch_step online_env (example_args\<lparr>skip_existing := True\<rparr>) ''tmp/tile_0_0.png'' 0 0
       blank_world
     = download_tile online_env 0 0 TILE_ZOOM ''tmp/tile_0_0.png'' 10 2 blank_world"
proof -
  have flag: "skip_existing (example_args\<lparr>skip_existing := True\<rparr>)" by simp
  show ?thesis
    using skip_existing_tests_existence_only [OF flag, of online_env "''tmp/tile_0_0.png''" 0 0
            "blank_world\<lparr>files := [''tmp/tile_0_0.png'' \<mapsto> ''old'']\<rparr>"]
          skip_existing_tests_existence_only [OF flag, of online_env "''tmp/tile_0_0.png''" 0 0
            blank_world]
    by (simp add: example_args_def blank_world_def)
qed

text \<open>
  C6 as stated fails on a zero-length marker. With \<^verbatim>\<open>--skip-existing\<close> and a marker at
  the tile's path the step makes no request and the marker stays, although the server
  would have answered; without the flag the same step fetches the tile.
\<close>

theorem skip_existing_marker_counterexample:
  "fetch_step online_env (example_args\<lparr>skip_existing := True\<rparr>) ''tmp/tile_0_0.png'' 0 0
     (blank_world\<lparr>files := [''tmp/tile_0_0.png'' \<mapsto> []]\<rparr>)
     = (Inr (), blank_world\<lparr>files := [''tmp/tile_0_0.png'' \<mapsto> []]\<rparr>)
   \<and> gets (snd (fetch_step online_env (example_args\<lparr>skip_existing := True\<rparr>)
        ''tmp/tile_0_0.png'' 0 0 (blank_world\<lparr>files := [''tmp/tile_0_0.png'' \<mapsto> []]\<rparr>))) = 0
   \<and> gets (snd (fetch_step online_env example_args
        ''tmp/tile_0_0.png'' 0 0 (blank_world\<lparr>files := [''tmp/tile_0_0.png'' \<mapsto> []]\<rparr>))) = 1
   \<and> files (snd (fetch_step online_env example_args
        ''tmp/tile_0_0.png'' 0 0 (blank_world\<lparr>files := [''tmp/tile_0_0.png'' \<mapsto> []]\<rparr>)))
        ''tmp/tile_0_0.png'' = Some ''PNG''"
proof -
  have r: "[1..2] = [1, 2::int]" by (simp add: upto.simps)
  show ?thesis
    by (simp add: fetch_step_def download_tile_def py_range_def r try_fetch_def session_get_def
          write_bytes_def online_env_def offline_env_def example_args_def blank_world_def)
qed

subsection \<open>Progress milestones\<close>

lemma download_tile_stdout:
  fixes retries timeout :: int
  shows "stdout (snd (download_tile E x y z dest timeout retries w)) = stdout w"
  by (simp add: download_tile_def download_attempts_stdout)

lemma fetch_step_stdout: "stdout (snd (fetch_step E A dest x y w)) = stdout w"
  by (simp add: fetch_step_def download_tile_stdout)

lemma fetch_step_returns:
  assumes "\<And>k u. http_get E k u \<noteq> Inl KeyboardInterrupt"
    and "\<And>k. write_fault E k \<noteq> Some KeyboardInterrupt"
  shows "fst (fetch_step E A dest x y w) = Inr ()"
  using download_attempts_returns [of E, OF assms]
  by (simp add: fetch_step_def download_tile_def)

text \<open>
  What the loop prints depends on the indices alone: the set \<^verbatim>\<open>printed\<close> and the output
  after the loop are those of the inner loop run at each index in turn.
\<close>

lemma download_loop_progress:
  assumes "\<And>k u. http_get E k u \<noteq> Inl KeyboardInterrupt"
    and "\<And>k. write_fault E k \<noteq> Some KeyboardInterrupt"
  shows "\<exists>printed' w'. download_loop E A tot i cells printed w = (Inr printed', w')
    \<and> (printed', stdout w') =
        foldl (\<lambda>st j. print_progress tot j milestones st) (printed, stdout w)
          [i..i + int (length cells) - 1]"
proof (induction cells arbitrary: i printed w)
  case Nil
  then show ?case by simp
next
  case (Cons c cells)
  obtain x y dx dy where c: "c = (x, y, dx, dy)" by (cases c)
  obtain res w1 where s: "fetch_step E A (tile_path (tiles_dir A) x y) x y w = (res, w1)"
    by (cases "fetch_step E A (tile_path (tiles_dir A) x y) x y w")
  have res: "res = Inr ()"
    using fetch_step_returns [of E A "tile_path (tiles_dir A) x y" x y w, OF assms] s by simp
  have o1: "stdout w1 = stdout w"
    using fetch_step_stdout [of E A "tile_path (tiles_dir A) x y" x y w] s by simp
  let ?w2 = "if i < tot \<and> delay A > 0 then sleep (delay A) w1 else w1"
  have o2: "stdout ?w2 = stdout w" using o1 by simp
  obtain printed1 lines where pp:
    "print_progress tot i milestones (printed, stdout w) = (printed1, lines)"
    by (cases "print_progress tot i milestones (printed, stdout w)")
  have step: "download_loop E A tot i (c # cells) printed w =
      download_loop E A tot (i + 1) cells printed1 (?w2\<lparr>stdout := lines\<rparr>)"
    unfolding c using s res pp o2 by (simp add: Let_def)
  have idx: "[i..i + int (length (c # cells)) - 1] = i # [i + 1..i + 1 + int (length cells) - 1]"
    by (simp add: upto_rec1 add.commute add.left_commute)
  obtain printed' w' where ih:
    "download_loop E A tot (i + 1) cells printed1 (?w2\<lparr>stdout := lines\<rparr>) = (Inr printed', w')"
    "(printed', stdout w') =
        foldl (\<lambda>st j. print_progress tot j milestones st)
          (printed1, stdout (?w2\<lparr>stdout := lines\<rparr>)) [i + 1..i + 1 + int (length cells) - 1]"
    using Cons.IH [of "i + 1" printed1 "?w2\<lparr>stdout := lines\<rparr>"] by blast
  have "(printed', stdout w') =
      foldl (\<lambda>st j. print_progress tot j milestones st) (printed, stdout w)
        [i..i + int (length (c # cells)) - 1]"
    unfolding idx using ih(2) pp by simp
  then show ?case unfolding step using ih(1) by blast
qed

text \<open>
  One run of the inner loop at index \<open>j\<close>, when the milestones printed so far are those
  whose trigger lies below \<open>j\<close>: the milestones with trigger \<open>j\<close> are printed, in order.
\<close>

lemma print_progress_at_index:
  assumes "distinct ms"
    and "\<forall>m\<in>set ms. (m \<in> printed) = (next_idx_trigger tot m < j)"
  shows "print_progress tot j ms (printed, lines) =
    (printed \<union> {m \<in> set ms. next_idx_trigger tot m = j},
     lines @ map (\<lambda>m. progress_line m j tot) (filter (\<lambda>m. next_idx_trigger tot m = j) ms))"
  using assms
proof (induction ms arbitrary: printed lines)
  case Nil
  then show ?case by simp
next
  case (Cons m ms)
  have d: "distinct ms" and notin: "m \<notin> set ms" using Cons.prems(1) by simp_all
  have here: "(m \<in> printed) = (next_idx_trigger tot m < j)" using Cons.prems(2) by simp
  show ?case
  proof (cases "next_idx_trigger tot m = j")
    case True
    then have fire: "j \<ge> next_idx_trigger tot m \<and> m \<notin> printed" using here by simp
    have inv: "\<forall>m'\<in>set ms. (m' \<in> insert m printed) = (next_idx_trigger tot m' < j)"
      using Cons.prems(2) notin by auto
    show ?thesis
      using fire True Cons.IH [OF d inv, of "lines @ [progress_line m j tot]"] by auto
  next
    case False
    then have quiet: "\<not> (j \<ge> next_idx_trigger tot m \<and> m \<notin> printed)" using here by auto
    have inv: "\<forall>m'\<in>set ms. (m' \<in> printed) = (next_idx_trigger tot m' < j)"
      using Cons.prems(2) by simp
    show ?thesis
      using quiet False Cons.IH [OF d inv, of lines] by auto
  qed
qed

text \<open>The inner loop run at the indices \<open>1, \<dots>, k\<close>, from an empty set \<^verbatim>\<open>printed\<close>.\<close>

lemma print_progress_upto:
  assumes "distinct ms" and "\<forall>m\<in>set ms. 1 \<le> next_idx_trigger tot m"
  shows "foldl (\<lambda>st j. print_progress tot j ms st) ({}, lines) [1..int k] =
    ({m \<in> set ms. next_idx_trigger tot m \<le> int k},
     lines @ concat (map (\<lambda>j. map (\<lambda>m. progress_line m j tot)
                                 (filter (\<lambda>m. next_idx_trigger tot m = j) ms)) [1..int k]))"
proof (induction k)
  case 0
  have "{m \<in> set ms. next_idx_trigger tot m \<le> 0} = {}" using assms(2) by auto
  then show ?case by simp
next
  case (Suc k)
  have idx: "[1..int (Suc k)] = [1..int k] @ [int k + 1]"
    by (simp add: upto_rec2 add.commute)
  have inv: "\<forall>m\<in>set ms. (m \<in> {m \<in> set ms. next_idx_trigger tot m \<le> int k})
      = (next_idx_trigger tot m < int k + 1)"
    by auto
  have sets: "{m \<in> set ms. next_idx_trigger tot m \<le> int k}
      \<union> {m \<in> set ms. next_idx_trigger tot m = int k + 1}
      = {m \<in> set ms. next_idx_trigger tot m \<le> int (Suc k)}"
    by auto
  show ?case
    unfolding idx foldl_append Suc.IH
    by (simp add: print_progress_at_index [OF assms(1) inv] sets)
qed

text \<open>Milestones in the order of their triggers: sorting by index keeps the order.\<close>

lemma filter_sorted_step:
  fixes t :: "'a \<Rightarrow> int"
  assumes "sorted (map t ms)"
  shows "filter (\<lambda>m. t m \<le> n) ms @ filter (\<lambda>m. t m = n + 1) ms = filter (\<lambda>m. t m \<le> n + 1) ms"
  using assms
proof (induction ms)
  case Nil
  then show ?case by simp
next
  case (Cons m ms)
  have later: "\<forall>m'\<in>set ms. t m \<le> t m'" and srt: "sorted (map t ms)"
    using Cons.prems by simp_all
  note ih = Cons.IH [OF srt]
  show ?case
  proof (cases "t m \<le> n")
    case True
    then show ?thesis using ih by simp
  next
    case False
    then have "\<forall>m'\<in>set ms. \<not> t m' \<le> n" using later by force
    then have none: "filter (\<lambda>m. t m \<le> n) ms = []" by (simp add: filter_empty_conv)
    show ?thesis using False ih by (simp add: none)
  qed
qed

lemma collect_by_index:
  fixes t :: "'a \<Rightarrow> int"
  assumes "sorted (map t ms)" and "\<forall>m\<in>set ms. 1 \<le> t m"
  shows "concat (map (\<lambda>j. map (\<lambda>m. f m j) (filter (\<lambda>m. t m = j) ms)) [1..int k])
    = map (\<lambda>m. f m (t m)) (filter (\<lambda>m. t m \<le> int k) ms)"
proof (induction k)
  case 0
  have "filter (\<lambda>m. t m \<le> 0) ms = []" using assms(2) by (auto simp: filter_empty_conv)
  then show ?case by simp
next
  case (Suc k)
  have idx: "[1..int (Suc k)] = [1..int k] @ [int k + 1]"
    by (simp add: upto_rec2 add.commute)
  have same: "map (\<lambda>m. f m (int k + 1)) (filter (\<lambda>m. t m = int k + 1) ms)
      = map (\<lambda>m. f m (t m)) (filter (\<lambda>m. t m = int k + 1) ms)"
    by (rule map_cong) auto
  have "concat (map (\<lambda>j. map (\<lambda>m. f m j) (filter (\<lambda>m. t m = j) ms)) [1..int (Suc k)])
      = map (\<lambda>m. f m (t m)) (filter (\<lambda>m. t m \<le> int k) ms @ filter (\<lambda>m. t m = int k + 1) ms)"
    unfolding idx by (simp add: Suc.IH same)
  also have "\<dots> = map (\<lambda>m. f m (t m)) (filter (\<lambda>m. t m \<le> int k + 1) ms)"
    by (simp only: filter_sorted_step [OF assms(1)])
  finally show ?case by (simp add: add.commute)
qed

text \<open>The triggers of the four milestones.\<close>

lemma distinct_milestones: "distinct milestones"
  by (simp add: milestones_def)

lemma next_idx_trigger_floor:
  "0 \<le> tot \<Longrightarrow> 0 \<le> m \<Longrightarrow> next_idx_trigger tot m = max 1 \<lfloor>of_int tot * m\<rfloor>"
  by (simp add: next_idx_trigger_def py_int_def)

lemma next_idx_trigger_mono:
  assumes "0 \<le> tot" and "0 \<le> m" and "m \<le> m'"
  shows "next_idx_trigger tot m \<le> next_idx_trigger tot m'"
proof -
  have "of_int tot * m \<le> of_int tot * m'" using assms by (simp add: mult_left_mono)
  then have "\<lfloor>of_int tot * m\<rfloor> \<le> \<lfloor>of_int tot * m'\<rfloor>" by (rule floor_mono)
  then show ?thesis using assms by (simp add: next_idx_trigger_floor)
qed

lemma next_idx_trigger_range:
  assumes "1 \<le> tot" and "0 \<le> m" and "m \<le> 1"
  shows "1 \<le> next_idx_trigger tot m \<and> next_idx_trigger tot m \<le> tot"
proof -
  have "next_idx_trigger tot m \<le> next_idx_trigger tot 1"
    using assms by (intro next_idx_trigger_mono) simp_all
  moreover have "next_idx_trigger tot 1 = tot" using assms by (simp add: next_idx_trigger_floor)
  moreover have "1 \<le> next_idx_trigger tot m" by (simp add: next_idx_trigger_def)
  ultimately show ?thesis by simp
qed

lemma milestones_range:
  assumes "1 \<le> tot"
  shows "\<forall>m\<in>set milestones. 1 \<le> next_idx_trigger tot m \<and> next_idx_trigger tot m \<le> tot"
  using assms by (simp add: milestones_def next_idx_trigger_range)

lemma milestones_sorted:
  assumes "1 \<le> tot"
  shows "sorted (map (next_idx_trigger tot) milestones)"
  using assms by (simp add: milestones_def next_idx_trigger_mono)

lemma str_int_examples:
  "str_int 1 = ''1''" "str_int 2 = ''2''" "str_int 3 = ''3''" "str_int 4 = ''4''"
  "str_int 25 = ''25''" "str_int 50 = ''50''" "str_int 75 = ''75''" "str_int 100 = ''100''"
  by code_simp+

text \<open>
  C9. In a download loop over at least one tile that no interrupt cuts short, the output
  gains exactly four lines, one for each milestone in the order 25%, 50%, 75%, 100%; the
  line of milestone \<open>m\<close> carries the index \<open>max 1 \<lfloor>total * m\<rfloor>\<close>, its trigger, which is an
  index of the loop (between 1 and the total) and so the first index at or after the
  trigger. At the end every milestone is in \<^verbatim>\<open>printed\<close>.
\<close>

theorem progress_milestones_once_each:
  assumes "cells \<noteq> []"
    and "\<forall>k u. http_get E k u \<noteq> Inl KeyboardInterrupt"
    and "\<forall>k. write_fault E k \<noteq> Some KeyboardInterrupt"
  shows "fst (download_loop E A (int (length cells)) 1 cells {} w) = Inr (set milestones)
    \<and> stdout (snd (download_loop E A (int (length cells)) 1 cells {} w)) =
        stdout w @ map (\<lambda>m. progress_line m (next_idx_trigger (int (length cells)) m)
                              (int (length cells))) milestones
    \<and> (\<forall>m\<in>set milestones. next_idx_trigger (int (length cells)) m
                               = max 1 \<lfloor>of_int (int (length cells)) * m\<rfloor>
          \<and> 1 \<le> next_idx_trigger (int (length cells)) m
          \<and> next_idx_trigger (int (length cells)) m \<le> int (length cells))"
proof -
  let ?tot = "int (length cells)"
  have tot: "1 \<le> ?tot" using assms(1) by (cases cells) simp_all
  have quiet: "\<And>k u. http_get E k u \<noteq> Inl KeyboardInterrupt"
    "\<And>k. write_fault E k \<noteq> Some KeyboardInterrupt"
    using assms(2,3) by simp_all
  obtain printed' w' where run:
    "download_loop E A ?tot 1 cells {} w = (Inr printed', w')"
    "(printed', stdout w') =
       foldl (\<lambda>st j. print_progress ?tot j milestones st) ({}, stdout w) [1..1 + ?tot - 1]"
    using download_loop_progress [of E A ?tot 1 cells "{}" w, OF quiet] by blast
  note range = milestones_range [OF tot]
  have low: "\<forall>m\<in>set milestones. 1 \<le> next_idx_trigger ?tot m" using range by simp
  have all: "filter (\<lambda>m. next_idx_trigger ?tot m \<le> ?tot) milestones = milestones"
    using range by (simp add: filter_id_conv)
  have allset: "{m \<in> set milestones. next_idx_trigger ?tot m \<le> ?tot} = set milestones"
    using range by auto
  have "(printed', stdout w') =
      (set milestones,
       stdout w @ map (\<lambda>m. progress_line m (next_idx_trigger ?tot m) ?tot) milestones)"
    using run(2)
    by (simp add: print_progress_upto [OF distinct_milestones low]
          collect_by_index [OF milestones_sorted [OF tot] low] all allset)
  moreover have "\<forall>m\<in>set milestones. next_idx_trigger ?tot m = max 1 \<lfloor>of_int ?tot * m\<rfloor>"
    using tot by (simp add: milestones_def next_idx_trigger_floor)
  ultimately show ?thesis using run(1) range by simp
qed

theorem progress_milestones_once_each_witness:
  "stdout (snd (download_loop online_env example_args 4 1
       [(0, 0, - 1, - 1), (1, 0, 0, - 1), (0, 1, - 1, 0), (1, 1, 0, 0)] {} blank_world)) =
     [''Download progress: 25% (1/4)'', ''Download progress: 50% (2/4)'',
      ''Download progress: 75% (3/4)'', ''Download progress: 100% (4/4)'']
   \<and> stdout (snd (download_loop online_env example_args 1 1 [(0, 0, 0, 0)] {} blank_world)) =
     [''Download progress: 25% (1/1)'', ''Download progress: 50% (1/1)'',
      ''Download progress: 75% (1/1)'', ''Download progress: 100% (1/1)'']"
proof -
  have net: "\<forall>k u. http_get online_env k u \<noteq> Inl KeyboardInterrupt"
    and disk: "\<forall>k. write_fault online_env k \<noteq> Some KeyboardInterrupt"
    by (simp_all add: online_env_def offline_env_def)
  have four: "[(0, 0, - 1, - 1), (1, 0, 0, - 1), (0, 1, - 1, 0), (1, 1, 0, 0)] \<noteq> ([]::cell list)"
    and one: "[(0, 0, 0, 0)] \<noteq> ([]::cell list)"
    by simp_all
  have out: "stdout blank_world = []" by (simp add: blank_world_def)
  show ?thesis
    using progress_milestones_once_each [OF four net disk, of example_args blank_world]
          progress_milestones_once_each [OF one net disk, of example_args blank_world]
    by (simp add: out milestones_def next_idx_trigger_def py_int_def progress_line_def
          str_int_examples)
qed

subsection \<open>Failures and the top level\<close>

lemma not_Exception: "\<not> is_Exception e \<longleftrightarrow> e = KeyboardInterrupt"
  by (cases e) simp_all

text \<open>Nothing of class \<^verbatim>\<open>Exception\<close> leaves the fetcher.\<close>

lemma download_attempts_no_exception:
  "fst (download_attempts E u dest r as w) \<noteq> Inl (Exception msg)"
proof (induction as arbitrary: w)
  case Nil
  then show ?case by simp
next
  case (Cons a as)
  obtain res w1 where t: "try_fetch E u dest w = (res, w1)" by (cases "try_fetch E u dest w")
  obtain res2 w2 where m: "write_bytes E dest [] w1 = (res2, w2)"
    by (cases "write_bytes E dest [] w1")
  show ?case
  proof (cases res)
    case (Inr v)
    then show ?thesis using t by simp
  next
    case (Inl e)
    show ?thesis
    proof (cases e)
      case KeyboardInterrupt
      then show ?thesis using t Inl by simp
    next
      case (Exception msg')
      show ?thesis
      proof (cases res2)
        case (Inr v2)
        then show ?thesis using t m Inl Exception Cons.IH by simp
      next
        case e2: (Inl e2)
        then show ?thesis using t m Inl Exception Cons.IH by (cases e2) simp_all
      qed
    qed
  qed
qed

text \<open>An interrupt of a request or of a write leaves the fetcher, and the loop with it.\<close>

lemma download_tile_interrupted:
  fixes retries timeout :: int
  assumes "1 \<le> retries"
    and "http_get E (gets w) (tile_url x y z) = Inl KeyboardInterrupt
       \<or> (\<exists>content. http_get E (gets w) (tile_url x y z) = Inr content)
          \<and> write_fault E (writes w) = Some KeyboardInterrupt"
  shows "fst (download_tile E x y z dest timeout retries w) = Inl KeyboardInterrupt"
proof -
  have l: "[1..retries] = 1 # [2..retries]" using assms(1) by (simp add: upto.simps)
  have "fst (try_fetch E (tile_url x y z) dest w) = Inl KeyboardInterrupt"
    using assms(2)
    by (auto simp: try_fetch_def session_get_def write_bytes_def split: sum.splits option.splits)
  then obtain w1 where "try_fetch E (tile_url x y z) dest w = (Inl KeyboardInterrupt, w1)"
    by (cases "try_fetch E (tile_url x y z) dest w") simp
  then show ?thesis by (simp add: download_tile_def py_range_def l)
qed

lemma download_loop_raises:
  assumes "fst (fetch_step E A (tile_path (tiles_dir A) x y) x y w) = Inl e"
  shows "fst (download_loop E A tot index ((x, y, dx, dy) # rest) printed w) = Inl e"
  using assms by (cases "fetch_step E A (tile_path (tiles_dir A) x y) x y w") simp

text \<open>The frame of the fetcher and of the loop: no output file, no error line.\<close>

lemma try_fetch_quiet:
  "stderr (snd (try_fetch E u dest w)) = stderr w"
  "saved (snd (try_fetch E u dest w)) = saved w"
  by (simp_all add: try_fetch_def session_get_def write_bytes_def split: sum.splits option.splits)

lemma download_attempts_quiet:
  "stderr (snd (download_attempts E u dest r as w)) = stderr w
   \<and> saved (snd (download_attempts E u dest r as w)) = saved w"
proof (induction as arbitrary: w)
  case Nil
  then show ?case by simp
next
  case (Cons a as)
  obtain res w1 where t: "try_fetch E u dest w = (res, w1)" by (cases "try_fetch E u dest w")
  have f1: "stderr w1 = stderr w" "saved w1 = saved w"
    using try_fetch_quiet [of E u dest w] t by simp_all
  obtain res2 w2 where m: "write_bytes E dest [] w1 = (res2, w2)"
    by (cases "write_bytes E dest [] w1")
  have f2: "stderr w2 = stderr w" "saved w2 = saved w"
    using write_bytes_simps(4,5) [of E dest "[]" w1] m f1 by simp_all
  have f3: "stderr (sleep d w1) = stderr w" "saved (sleep d w1) = saved w" for d
    using f1 by simp_all
  show ?case
    using t m f1 f2 f3 Cons.IH
    by (cases res) (auto split: sum.splits)
qed

lemma fetch_step_quiet:
  "stderr (snd (fetch_step E A dest x y w)) = stderr w
   \<and> saved (snd (fetch_step E A dest x y w)) = saved w"
  by (simp add: fetch_step_def download_tile_def download_attempts_quiet)

lemma download_loop_quiet:
  "stderr (snd (download_loop E A tot index cells printed w)) = stderr w
   \<and> saved (snd (download_loop E A tot index cells printed w)) = saved w"
proof (induction cells arbitrary: index printed w)
  case Nil
  then show ?case by simp
next
  case (Cons c cells)
  obtain x y dx dy where c: "c = (x, y, dx, dy)" by (cases c)
  obtain res w1 where s: "fetch_step E A (tile_path (tiles_dir A) x y) x y w = (res, w1)"
    by (cases "fetch_step E A (tile_path (tiles_dir A) x y) x y w")
  have k1: "stderr w1 = stderr w" "saved w1 = saved w"
    using fetch_step_quiet [of E A "tile_path (tiles_dir A) x y" x y w] s by simp_all
  show ?case
  proof (cases res)
    case (Inl e)
    then show ?thesis using c s k1 by simp
  next
    case (Inr u)
    let ?w2 = "if index < tot \<and> delay A > 0 then sleep (delay A) w1 else w1"
    obtain printed' lines where pp:
      "print_progress tot index milestones (printed, stdout ?w2) = (printed', lines)"
      by (cases "print_progress tot index milestones (printed, stdout ?w2)")
    have k2: "stderr (?w2\<lparr>stdout := lines\<rparr>) = stderr w" "saved (?w2\<lparr>stdout := lines\<rparr>) = saved w"
      using k1 by simp_all
    show ?thesis
      using c s Inr pp Cons.IH [of "index + 1" printed' "?w2\<lparr>stdout := lines\<rparr>"] k2
      by (simp add: Let_def)
  qed
qed

text \<open>
  No interrupt is swallowed: a call that returns normally has met none, in any of its
  requests and writes.
\<close>

lemma try_fetch_counters:
  "gets (snd (try_fetch E u dest w)) = Suc (gets w)"
  "writes (snd (try_fetch E u dest w)) =
     (case http_get E (gets w) u of Inl e \<Rightarrow> writes w | Inr content \<Rightarrow> Suc (writes w))"
  "fst (try_fetch E u dest w) =
     (case http_get E (gets w) u of
        Inl e \<Rightarrow> Inl e
      | Inr content \<Rightarrow> (case write_fault E (writes w) of Some e \<Rightarrow> Inl e | None \<Rightarrow> Inr ()))"
  by (simp_all add: try_fetch_def session_get_def write_bytes_def split: sum.splits option.splits)

lemma try_fetch_not_interrupted:
  assumes "fst (try_fetch E u dest w) \<noteq> Inl KeyboardInterrupt"
  shows "(\<forall>k. gets w \<le> k \<and> k < gets (snd (try_fetch E u dest w)) \<longrightarrow>
            http_get E k u \<noteq> Inl KeyboardInterrupt)
    \<and> (\<forall>k. writes w \<le> k \<and> k < writes (snd (try_fetch E u dest w)) \<longrightarrow>
            write_fault E k \<noteq> Some KeyboardInterrupt)"
proof -
  have one: "k = gets w" if "gets w \<le> k" "k < gets (snd (try_fetch E u dest w))" for k
    using that by (simp add: try_fetch_counters(1))
  have req: "http_get E (gets w) u \<noteq> Inl KeyboardInterrupt"
    using assms by (auto simp: try_fetch_counters(3))
  have a: "http_get E k u \<noteq> Inl KeyboardInterrupt"
    if "gets w \<le> k" "k < gets (snd (try_fetch E u dest w))" for k
    using one [OF that] req by simp
  have b: "write_fault E k \<noteq> Some KeyboardInterrupt"
    if k: "writes w \<le> k" "k < writes (snd (try_fetch E u dest w))" for k
  proof (cases "http_get E (gets w) u")
    case (Inl e)
    then show ?thesis using k by (simp add: try_fetch_counters(2))
  next
    case (Inr content)
    then have "k = writes w" using k by (simp add: try_fetch_counters(2))
    moreover have "write_fault E (writes w) \<noteq> Some KeyboardInterrupt"
      using assms Inr by (auto simp: try_fetch_counters(3) split: option.splits)
    ultimately show ?thesis by simp
  qed
  show ?thesis using a b by blast
qed

lemma download_attempts_counters:
  "gets w \<le> gets (snd (download_attempts E u dest r as w))
   \<and> writes w \<le> writes (snd (download_attempts E u dest r as w))"
proof (induction as arbitrary: w)
  case Nil
  then show ?case by simp
next
  case (Cons a as)
  obtain res w1 where t: "try_fetch E u dest w = (res, w1)" by (cases "try_fetch E u dest w")
  have f1: "gets w \<le> gets w1" "writes w \<le> writes w1"
    using try_fetch_counters(1,2) [of E u dest w] t by (simp_all split: sum.splits)
  obtain res2 w2 where m: "write_bytes E dest [] w1 = (res2, w2)"
    by (cases "write_bytes E dest [] w1")
  have f2: "gets w \<le> gets w2" "writes w \<le> writes w2"
    using write_bytes_simps(1,2) [of E dest "[]" w1] m f1 by simp_all
  have f3: "gets w \<le> gets (sleep d w1)" "writes w \<le> writes (sleep d w1)" for d
    using f1 by simp_all
  have ih: "gets w \<le> gets (snd (download_attempts E u dest r as w'))
      \<and> writes w \<le> writes (snd (download_attempts E u dest r as w'))"
    if "gets w \<le> gets w'" "writes w \<le> writes w'" for w'
    using Cons.IH [of w'] that by linarith
  show ?case
    using t m f1 f2 f3 ih [OF f2] ih [OF f3]
    by (cases res) (auto split: sum.splits)
qed

lemma download_attempts_not_interrupted:
  assumes "fst (download_attempts E u dest r as w) = Inr ()"
  shows "(\<forall>k. gets w \<le> k \<and> k < gets (snd (download_attempts E u dest r as w)) \<longrightarrow>
            http_get E k u \<noteq> Inl KeyboardInterrupt)
    \<and> (\<forall>k. writes w \<le> k \<and> k < writes (snd (download_attempts E u dest r as w)) \<longrightarrow>
            write_fault E k \<noteq> Some KeyboardInterrupt)"
  using assms
proof (induction as arbitrary: w)
  case Nil
  then show ?case by auto
next
  case (Cons a as)
  obtain res w1 where t: "try_fetch E u dest w = (res, w1)" by (cases "try_fetch E u dest w")
  have c1: "gets w \<le> gets w1" "writes w \<le> writes w1"
    using try_fetch_counters(1,2) [of E u dest w] t by (simp_all split: sum.splits)
  show ?case
  proof (cases res)
    case (Inr v)
    then have r: "download_attempts E u dest r (a # as) w = (Inr (), w1)" using t by simp
    have "fst (try_fetch E u dest w) \<noteq> Inl KeyboardInterrupt" using t Inr by simp
    then show ?thesis using try_fetch_not_interrupted [of E u dest w] t unfolding r by simp
  next
    case (Inl e)
    show ?thesis
    proof (cases e)
      case KeyboardInterrupt
      then show ?thesis using Cons.prems t Inl by simp
    next
      case (Exception msg)
      have "fst (try_fetch E u dest w) \<noteq> Inl KeyboardInterrupt" using t Inl Exception by simp
      then have first: "\<forall>k. gets w \<le> k \<and> k < gets w1 \<longrightarrow> http_get E k u \<noteq> Inl KeyboardInterrupt"
        "\<forall>k. writes w \<le> k \<and> k < writes w1 \<longrightarrow> write_fault E k \<noteq> Some KeyboardInterrupt"
        using try_fetch_not_interrupted [of E u dest w] t by simp_all
      have glue: "(\<forall>k. gets w \<le> k \<and> k < gets (snd (download_attempts E u dest r as w')) \<longrightarrow>
                http_get E k u \<noteq> Inl KeyboardInterrupt)
          \<and> (\<forall>k. writes w \<le> k \<and> k < writes (snd (download_attempts E u dest r as w')) \<longrightarrow>
                write_fault E k \<noteq> Some KeyboardInterrupt)"
        if ok: "fst (download_attempts E u dest r as w') = Inr ()"
          and g: "gets w' = gets w1"
          and wr: "\<forall>k. writes w \<le> k \<and> k < writes w' \<longrightarrow> write_fault E k \<noteq> Some KeyboardInterrupt"
        for w'
      proof -
        note ih = Cons.IH [OF ok]
        have a: "http_get E k u \<noteq> Inl KeyboardInterrupt"
          if "gets w \<le> k" "k < gets (snd (download_attempts E u dest r as w'))" for k
        proof (cases "k < gets w1")
          case True
          then show ?thesis using first(1) that(1) by simp
        next
          case False
          then have "gets w' \<le> k" using g by simp
          then show ?thesis using ih that(2) by simp
        qed
        have b: "write_fault E k \<noteq> Some KeyboardInterrupt"
          if "writes w \<le> k" "k < writes (snd (download_attempts E u dest r as w'))" for k
        proof (cases "k < writes w'")
          case True
          then show ?thesis using wr that(1) by simp
        next
          case False
          then have "writes w' \<le> k" by simp
          then show ?thesis using ih that(2) by simp
        qed
        show ?thesis using a b by blast
      qed
      show ?thesis
      proof (cases "a \<ge> r")
        case False
        let ?w' = "sleep (of_int a / 2) w1"
        have step: "download_attempts E u dest r (a # as) w = download_attempts E u dest r as ?w'"
          using t Inl Exception False by simp
        have ok: "fst (download_attempts E u dest r as ?w') = Inr ()"
          using Cons.prems unfolding step .
        have wr: "\<forall>k. writes w \<le> k \<and> k < writes ?w' \<longrightarrow> write_fault E k \<noteq> Some KeyboardInterrupt"
          using first(2) by simp
        show ?thesis unfolding step using glue [OF ok _ wr] by simp
      next
        case True
        obtain res2 w2 where m: "write_bytes E dest [] w1 = (res2, w2)"
          by (cases "write_bytes E dest [] w1")
        have w2: "gets w2 = gets w1" "writes w2 = Suc (writes w1)"
          "res2 = (case write_fault E (writes w1) of Some e \<Rightarrow> Inl e | None \<Rightarrow> Inr ())"
          using write_bytes_simps(1,2,6) [of E dest "[]" w1] m by simp_all
        have marker: "write_fault E (writes w1) \<noteq> Some KeyboardInterrupt"
        proof
          assume "write_fault E (writes w1) = Some KeyboardInterrupt"
          then have "res2 = Inl KeyboardInterrupt" using w2(3) by simp
          then have "download_attempts E u dest r (a # as) w = (Inl KeyboardInterrupt, w2)"
            using t Inl Exception True m by simp
          then show False using Cons.prems by simp
        qed
        have step: "download_attempts E u dest r (a # as) w = download_attempts E u dest r as w2"
          using t Inl Exception True m marker w2(3)
          by (cases res2; cases "write_fault E (writes w1)") (auto simp: not_Exception)
        have ok: "fst (download_attempts E u dest r as w2) = Inr ()"
          using Cons.prems unfolding step .
        have wr: "\<forall>k. writes w \<le> k \<and> k < writes w2 \<longrightarrow> write_fault E k \<noteq> Some KeyboardInterrupt"
        proof (intro allI impI)
          fix k
          assume k: "writes w \<le> k \<and> k < writes w2"
          show "write_fault E k \<noteq> Some KeyboardInterrupt"
          proof (cases "k < writes w1")
            case True
            then show ?thesis using first(2) k by simp
          next
            case False
            then have "k = writes w1" using k w2(2) by simp
            then show ?thesis using marker by simp
          qed
        qed
        show ?thesis unfolding step using glue [OF ok w2(1) wr] by simp
      qed
    qed
  qed
qed

text \<open>
  The stitcher, when decoding raises nothing but errors of class \<^verbatim>\<open>Exception\<close> and
  decoded tiles have pixels: it returns a canvas of \<open>grid_size\<close> tiles a side.
\<close>

lemma safe_open_png_returns:
  assumes "\<forall>content. png_decode E content \<noteq> Inl KeyboardInterrupt"
  shows "safe_open_png E fs p = Inr None
     \<or> (\<exists>content im. png_decode E content = Inr im \<and> safe_open_png E fs p = Inr (Some im))"
proof (cases "fs p")
  case None
  then show ?thesis by (simp add: safe_open_png_def)
next
  case (Some content)
  show ?thesis
  proof (cases "png_decode E content")
    case (Inl e)
    then have "is_Exception e" using assms by (cases e) auto
    then show ?thesis using Some Inl by (simp add: safe_open_png_def)
  next
    case (Inr im)
    then show ?thesis using Some by (auto simp: safe_open_png_def)
  qed
qed

lemma infer_tile_size_returns:
  assumes "\<forall>content. png_decode E content \<noteq> Inl KeyboardInterrupt"
  shows "infer_tile_size E fs dir cells = Inr None
     \<or> (\<exists>content im. png_decode E content = Inr im
           \<and> infer_tile_size E fs dir cells = Inr (Some (width im, height im)))"
proof (induction cells)
  case Nil
  then show ?case by simp
next
  case (Cons c cells)
  obtain x y dx dy where c: "c = (x, y, dx, dy)" by (cases c)
  consider (absent) "safe_open_png E fs (tile_path dir x y) = Inr None"
    | (tile) content im where "png_decode E content = Inr im"
        "safe_open_png E fs (tile_path dir x y) = Inr (Some im)"
    using safe_open_png_returns [of E fs "tile_path dir x y", OF assms] by blast
  then show ?case
  proof cases
    case absent
    then show ?thesis using Cons.IH unfolding c by simp
  next
    case tile
    have "infer_tile_size E fs dir (c # cells) = Inr (Some (width im, height im))"
      unfolding c using tile(2) by simp
    then show ?thesis using tile(1) by blast
  qed
qed

lemma tile_size_returns:
  assumes "\<forall>content. png_decode E content \<noteq> Inl KeyboardInterrupt"
    and "\<forall>content im. png_decode E content = Inr im \<longrightarrow> 0 < width im \<and> 0 < height im"
  shows "\<exists>tw th. tile_size E fs dir cells = Inr (tw, th) \<and> 0 < tw \<and> 0 < th"
proof -
  consider (fallback) "infer_tile_size E fs dir cells = Inr None"
    | (tile) content im where "png_decode E content = Inr im"
        "infer_tile_size E fs dir cells = Inr (Some (width im, height im))"
    using infer_tile_size_returns [of E fs dir cells, OF assms(1)] by blast
  then show ?thesis
  proof cases
    case fallback
    then show ?thesis by (simp add: tile_size_def DEFAULT_FALLBACK_TILE_def)
  next
    case tile
    have "0 < width im \<and> 0 < height im" using assms(2) tile(1) by blast
    then show ?thesis using tile(2) by (simp add: tile_size_def)
  qed
qed

lemma stitch_cell_returns:
  assumes "\<forall>content. png_decode E content \<noteq> Inl KeyboardInterrupt"
    and "0 \<le> tw" and "0 \<le> th"
  shows "\<exists>canvas'. stitch_cell E fs dir tw th half bg_rgba c canvas = Inr canvas'
     \<and> width canvas' = width canvas \<and> height canvas' = height canvas"
proof -
  obtain x y dx dy where c: "c = (x, y, dx, dy)" by (cases c)
  consider (absent) "safe_open_png E fs (tile_path dir x y) = Inr None"
    | (tile) content im where "png_decode E content = Inr im"
        "safe_open_png E fs (tile_path dir x y) = Inr (Some im)"
    using safe_open_png_returns [of E fs "tile_path dir x y", OF assms(1)] by blast
  then show ?thesis
  proof cases
    case absent
    then show ?thesis
      unfolding c using assms(2,3) by (simp add: stitch_cell_def Let_def Image_new_def paste_def)
  next
    case tile
    then show ?thesis
      unfolding c by (simp add: stitch_cell_def Let_def paste_def)
  qed
qed

lemma stitch_cells_returns:
  assumes "\<forall>content. png_decode E content \<noteq> Inl KeyboardInterrupt"
    and "0 \<le> tw" and "0 \<le> th"
  shows "\<exists>canvas'. stitch_cells E fs dir tw th half bg_rgba cells canvas = Inr canvas'
     \<and> width canvas' = width canvas \<and> height canvas' = height canvas"
proof (induction cells arbitrary: canvas)
  case Nil
  then show ?case by simp
next
  case (Cons c cells)
  obtain canvas1 where one: "stitch_cell E fs dir tw th half bg_rgba c canvas = Inr canvas1"
    "width canvas1 = width canvas" "height canvas1 = height canvas"
    using stitch_cell_returns [of E tw th fs dir half bg_rgba c canvas, OF assms] by blast
  show ?case using one Cons.IH [of canvas1] by simp
qed

lemma stitch_from_folder_returns:
  assumes "\<forall>content. png_decode E content \<noteq> Inl KeyboardInterrupt"
    and "\<forall>content im. png_decode E content = Inr im \<longrightarrow> 0 < width im \<and> 0 < height im"
    and "1 \<le> n"
  shows "\<exists>img. stitch_from_folder E fs dir cells n bg_rgba = Inr img
     \<and> 0 < width img \<and> 0 < height img"
proof -
  obtain tw th where sz: "tile_size E fs dir cells = Inr (tw, th)" "0 < tw" "0 < th"
    using tile_size_returns [of E fs dir cells, OF assms(1,2)] by blast
  have pos: "0 < tw * n" "0 < th * n" using sz(2,3) assms(3) by simp_all
  then have new: "Image_new (tw * n) (th * n) (0, 0, 0, 0) =
      Inr \<lparr>width = tw * n, height = th * n, pixel = (\<lambda>X Y. (0, 0, 0, 0))\<rparr>"
    by (simp add: Image_new_def not_less less_imp_le)
  have tw: "0 \<le> tw" and th: "0 \<le> th" using sz(2,3) by simp_all
  obtain img where run: "stitch_cells E fs dir tw th (n div 2) bg_rgba cells
      \<lparr>width = tw * n, height = th * n, pixel = (\<lambda>X Y. (0, 0, 0, 0))\<rparr> = Inr img"
    "width img = tw * n" "height img = th * n"
    using stitch_cells_returns [of E tw th fs dir "n div 2" bg_rgba cells
        "\<lparr>width = tw * n, height = th * n, pixel = (\<lambda>X Y. (0, 0, 0, 0))\<rparr>", OF assms(1) tw th]
    by auto
  show ?thesis
    using run pos by (simp add: stitch_from_folder_def sz(1) new)
qed

lemma underlay_returns:
  assumes "0 < width img" and "0 < height img"
  shows "\<exists>img'. underlay E bg_rgba img = Inr img' \<and> 0 < width img' \<and> 0 < height img'"
  using assms
  by (cases bg_rgba) (simp_all add: underlay_def and_then_def Image_new_def alpha_composite_def not_less less_imp_le)

text \<open>The save and the report.\<close>

lemma save_image_simps [simp]:
  "files (snd (save_image E p img w)) = files w"
  "gets (snd (save_image E p img w)) = gets w"
  "writes (snd (save_image E p img w)) = writes w"
  "stdout (snd (save_image E p img w)) = stdout w"
  "stderr (snd (save_image E p img w)) = stderr w"
  by (simp_all add: save_image_def split: option.splits)

lemma save_image_saved:
  "fst (save_image E p img w) = Inr () \<Longrightarrow>
     saved (snd (save_image E p img w)) p = Some (png_encode E img)"
  by (simp add: save_image_def split: option.splits if_splits)

lemma save_image_ok:
  assumes "0 < width img" and "0 < height img" and "save_fault E = None"
  shows "save_image E p img w = (Inr (), w\<lparr>saved := (saved w)(p \<mapsto> png_encode E img)\<rparr>)"
  using assms by (simp add: save_image_def)

lemma save_image_fails:
  "save_fault E = Some e \<Longrightarrow> \<exists>e'. fst (save_image E p img w) = Inl e'"
  by (simp add: save_image_def)

lemma report_saved_simps [simp]:
  "files (snd (report_saved E A w)) = files w"
  "gets (snd (report_saved E A w)) = gets w"
  "writes (snd (report_saved E A w)) = writes w"
  "stderr (snd (report_saved E A w)) = stderr w"
  "saved (snd (report_saved E A w)) = saved w"
  by (simp_all add: report_saved_def Let_def split: sum.splits)

text \<open>
  The end of \<^verbatim>\<open>main\<close>: it returns normally only after a save that succeeded, and it
  writes no error line.
\<close>

lemma stitch_and_save_stderr: "stderr (snd (stitch_and_save E A cs w3)) = stderr w3"
proof -
  have s: "stderr (snd (case save_image E q img w3 of
                         (Inl e, w4) \<Rightarrow> (Inl e, w4)
                       | (Inr u, w4) \<Rightarrow> report_saved E A w4)) = stderr w3"
    for q img
    using save_image_simps(5) [of E q img w3] report_saved_simps(4) [of E A "snd (save_image E q img w3)"]
    by (cases "save_image E q img w3") (auto split: sum.splits)
  show ?thesis
    unfolding stitch_and_save_def
    by (simp add: s split: sum.splits)
qed

lemma stitch_and_save_returned:
  assumes "fst (stitch_and_save E A cs w3) = Inr ()"
  shows "\<exists>img. saved (snd (stitch_and_save E A cs w3)) (out A) = Some (png_encode E img)"
proof -
  let ?r = "and_then (bg_rgba_of E A) (\<lambda>bg_rgba.
             and_then (stitch_from_folder E (files w3) (tiles_dir A) cs (grid_size A) bg_rgba)
               (underlay E bg_rgba))"
  show ?thesis
  proof (cases ?r)
    case (Inl e)
    then show ?thesis using assms by (simp add: stitch_and_save_def)
  next
    case (Inr img)
    obtain res w4 where sv: "save_image E (out A) img w3 = (res, w4)"
      by (cases "save_image E (out A) img w3")
    show ?thesis
    proof (cases res)
      case (Inl e)
      then show ?thesis using assms Inr sv by (simp add: stitch_and_save_def)
    next
      case ok: (Inr u)
      have "saved w4 (out A) = Some (png_encode E img)"
        using save_image_saved [of E "out A" img w3] sv ok by simp
      then show ?thesis using Inr sv ok by (auto simp: stitch_and_save_def)
    qed
  qed
qed

lemma stitch_and_save_save_fault:
  assumes "save_fault E = Some e"
  shows "\<exists>e'. fst (stitch_and_save E A cs w3) = Inl e'"
proof -
  let ?r = "and_then (bg_rgba_of E A) (\<lambda>bg_rgba.
             and_then (stitch_from_folder E (files w3) (tiles_dir A) cs (grid_size A) bg_rgba)
               (underlay E bg_rgba))"
  show ?thesis
  proof (cases ?r)
    case (Inl e)
    then show ?thesis by (simp add: stitch_and_save_def)
  next
    case (Inr img)
    obtain e' where "fst (save_image E (out A) img w3) = Inl e'"
      using save_image_fails [OF assms] by blast
    then show ?thesis
      using Inr by (cases "save_image E (out A) img w3") (simp add: stitch_and_save_def)
  qed
qed

text \<open>The run after the download loop when nothing fails in it.\<close>

lemma stitch_and_save_ok:
  assumes "\<forall>content. png_decode E content \<noteq> Inl KeyboardInterrupt"
    and "\<forall>content im. png_decode E content = Inr im \<longrightarrow> 0 < width im \<and> 0 < height im"
    and "1 \<le> grid_size A"
    and "bg_rgba_of E A = Inr bg"
    and "save_fault E = None"
    and "resolve E (tiles_dir A) = Inr d"
  shows "\<exists>img. stitch_and_save E A cs w3 =
     (Inr (), w3\<lparr>saved := (saved w3)(out A \<mapsto> png_encode E img),
                 stdout := stdout w3 @ [''Saved '' @ out A, ''Tiles stored in: '' @ d]\<rparr>)"
proof -
  obtain img0 where st: "stitch_from_folder E (files w3) (tiles_dir A) cs (grid_size A) bg = Inr img0"
    "0 < width img0" "0 < height img0"
    using stitch_from_folder_returns [of E "grid_size A" "files w3" "tiles_dir A" cs bg, OF assms(1,2,3)]
    by blast
  obtain img where un: "underlay E bg img0 = Inr img" "0 < width img" "0 < height img"
    using underlay_returns [OF st(2,3), of E bg] by blast
  have r: "and_then (bg_rgba_of E A) (\<lambda>bg_rgba.
             and_then (stitch_from_folder E (files w3) (tiles_dir A) cs (grid_size A) bg_rgba)
               (underlay E bg_rgba)) = Inr img"
    by (simp add: and_then_def assms(4) st(1) un(1))
  have sv: "save_image E (out A) img w3 = (Inr (), w3\<lparr>saved := (saved w3)(out A \<mapsto> png_encode E img)\<rparr>)"
    using un(2,3) assms(5) by (rule save_image_ok)
  have "stitch_and_save E A cs w3 =
     (Inr (), w3\<lparr>saved := (saved w3)(out A \<mapsto> png_encode E img),
                 stdout := stdout w3 @ [''Saved '' @ out A, ''Tiles stored in: '' @ d]\<rparr>)"
    by (simp add: stitch_and_save_def r sv report_saved_def Let_def assms(6))
  then show ?thesis by blast
qed

lemma save_image_fault:
  assumes "0 < width img" and "0 < height img" and "save_fault E = Some e"
  shows "save_image E p img w =
     (Inl e, w\<lparr>saved := (case save_residue E of
                             None \<Rightarrow> saved w
                           | Some m \<Rightarrow> (saved w)(p \<mapsto> take m (png_encode E img)))\<rparr>)"
  using assms by (simp add: save_image_def)

text \<open>The run after the download loop when only the save fails.\<close>

lemma stitch_and_save_fails:
  assumes "\<forall>content. png_decode E content \<noteq> Inl KeyboardInterrupt"
    and "\<forall>content im. png_decode E content = Inr im \<longrightarrow> 0 < width im \<and> 0 < height im"
    and "1 \<le> grid_size A"
    and "bg_rgba_of E A = Inr bg"
    and "save_fault E = Some e"
  shows "\<exists>img. stitch_and_save E A cs w3 =
     (Inl e, w3\<lparr>saved := (case save_residue E of
                              None \<Rightarrow> saved w3
                            | Some m \<Rightarrow> (saved w3)(out A \<mapsto> take m (png_encode E img)))\<rparr>)"
proof -
  obtain img0 where st: "stitch_from_folder E (files w3) (tiles_dir A) cs (grid_size A) bg = Inr img0"
    "0 < width img0" "0 < height img0"
    using stitch_from_folder_returns [of E "grid_size A" "files w3" "tiles_dir A" cs bg, OF assms(1,2,3)]
    by blast
  obtain img where un: "underlay E bg img0 = Inr img" "0 < width img" "0 < height img"
    using underlay_returns [OF st(2,3), of E bg] by blast
  have r: "and_then (bg_rgba_of E A) (\<lambda>bg_rgba.
             and_then (stitch_from_folder E (files w3) (tiles_dir A) cs (grid_size A) bg_rgba)
               (underlay E bg_rgba)) = Inr img"
    by (simp add: and_then_def assms(4) st(1) un(1))
  have sv: "save_image E (out A) img w3 =
     (Inl e, w3\<lparr>saved := (case save_residue E of
                              None \<Rightarrow> saved w3
                            | Some m \<Rightarrow> (saved w3)(out A \<mapsto> take m (png_encode E img)))\<rparr>)"
    using un(2,3) assms(5) by (rule save_image_fault)
  have "stitch_and_save E A cs w3 =
     (Inl e, w3\<lparr>saved := (case save_residue E of
                              None \<Rightarrow> saved w3
                            | Some m \<Rightarrow> (saved w3)(out A \<mapsto> take m (png_encode E img)))\<rparr>)"
    by (simp add: stitch_and_save_def r sv)
  then show ?thesis by blast
qed

text \<open>
  \<^verbatim>\<open>main\<close> from the centre tile on: the two lines it prints first change neither the
  files nor the counters, and the rest is the directory, the loop and the end.
\<close>

lemma main_from_center_unfold:
  "\<exists>w2. files w2 = files w \<and> gets w2 = gets w \<and> writes w2 = writes w \<and> saved w2 = saved w
     \<and> stderr w2 = stderr w @
         (if grid_size A mod 2 = 0
          then [''Warning: grid-size is even; true center lies between the middle four tiles.'']
          else [])
     \<and> main_from_center E A cx cy w =
         (case mkdir_fault E of
            Some e \<Rightarrow> (Inl e, w2)
          | None \<Rightarrow>
              (case download_loop E A (int (length (build_grid cx cy (grid_size A)))) 1
                      (build_grid cx cy (grid_size A)) {} w2 of
                 (Inl e, w3) \<Rightarrow> (Inl e, w3)
               | (Inr printed, w3) \<Rightarrow> stitch_and_save E A (build_grid cx cy (grid_size A)) w3))"
proof -
  let ?w1 = "w\<lparr>stdout := stdout w @ [''Center tile: x='' @ str_int cx @ '', y='' @ str_int cy]\<rparr>"
  let ?w2 = "if grid_size A mod 2 = 0
     then ?w1\<lparr>stderr := stderr ?w1 @
       [''Warning: grid-size is even; true center lies between the middle four tiles.'']\<rparr>
     else ?w1"
  have "files ?w2 = files w" "gets ?w2 = gets w" "writes ?w2 = writes w" "saved ?w2 = saved w"
    "stderr ?w2 = stderr w @
         (if grid_size A mod 2 = 0
          then [''Warning: grid-size is even; true center lies between the middle four tiles.'']
          else [])"
    by simp_all
  moreover have "main_from_center E A cx cy w =
         (case mkdir_fault E of
            Some e \<Rightarrow> (Inl e, ?w2)
          | None \<Rightarrow>
              (case download_loop E A (int (length (build_grid cx cy (grid_size A)))) 1
                      (build_grid cx cy (grid_size A)) {} ?w2 of
                 (Inl e, w3) \<Rightarrow> (Inl e, w3)
               | (Inr printed, w3) \<Rightarrow> stitch_and_save E A (build_grid cx cy (grid_size A)) w3))"
    unfolding main_from_center_def Let_def by (rule refl)
  ultimately show ?thesis by blast
qed

lemma main_from_center_mkdir:
  assumes "mkdir_fault E = Some e"
  shows "fst (main_from_center E A cx cy w) = Inl e
    \<and> gets (snd (main_from_center E A cx cy w)) = gets w
    \<and> writes (snd (main_from_center E A cx cy w)) = writes w
    \<and> files (snd (main_from_center E A cx cy w)) = files w
    \<and> saved (snd (main_from_center E A cx cy w)) = saved w"
  using main_from_center_unfold [of w A E cx cy] assms by auto

lemma main_from_center_save_fault:
  assumes "save_fault E = Some e"
  shows "\<exists>e'. fst (main_from_center E A cx cy w) = Inl e'"
proof -
  let ?cells = "build_grid cx cy (grid_size A)"
  obtain w2 where eq: "main_from_center E A cx cy w =
         (case mkdir_fault E of
            Some e \<Rightarrow> (Inl e, w2)
          | None \<Rightarrow>
              (case download_loop E A (int (length ?cells)) 1 ?cells {} w2 of
                 (Inl e, w3) \<Rightarrow> (Inl e, w3)
               | (Inr printed, w3) \<Rightarrow> stitch_and_save E A ?cells w3))"
    using main_from_center_unfold [of w A E cx cy] by blast
  obtain res w3 where l: "download_loop E A (int (length ?cells)) 1 ?cells {} w2 = (res, w3)"
    by (cases "download_loop E A (int (length ?cells)) 1 ?cells {} w2")
  show ?thesis
    unfolding eq l using stitch_and_save_save_fault [OF assms, of A ?cells w3]
    by (cases "mkdir_fault E"; cases res) auto
qed

lemma main_from_center_returned:
  assumes "fst (main_from_center E A cx cy w) = Inr ()"
  shows "\<exists>img. saved (snd (main_from_center E A cx cy w)) (out A) = Some (png_encode E img)"
proof -
  let ?cells = "build_grid cx cy (grid_size A)"
  obtain w2 where eq: "main_from_center E A cx cy w =
         (case mkdir_fault E of
            Some e \<Rightarrow> (Inl e, w2)
          | None \<Rightarrow>
              (case download_loop E A (int (length ?cells)) 1 ?cells {} w2 of
                 (Inl e, w3) \<Rightarrow> (Inl e, w3)
               | (Inr printed, w3) \<Rightarrow> stitch_and_save E A ?cells w3))"
    using main_from_center_unfold [of w A E cx cy] by blast
  obtain res w3 where l: "download_loop E A (int (length ?cells)) 1 ?cells {} w2 = (res, w3)"
    by (cases "download_loop E A (int (length ?cells)) 1 ?cells {} w2")
  show ?thesis
  proof (cases "mkdir_fault E")
    case (Some e)
    then show ?thesis using assms unfolding eq by simp
  next
    case None
    show ?thesis
    proof (cases res)
      case (Inl e)
      then show ?thesis using assms None unfolding eq l by simp
    next
      case (Inr printed)
      then have m: "main_from_center E A cx cy w = stitch_and_save E A ?cells w3"
        unfolding eq l using None by simp
      show ?thesis
        using assms stitch_and_save_returned [of E A ?cells w3] unfolding m by simp
    qed
  qed
qed

text \<open>An interrupt of the first request of the run leaves \<^verbatim>\<open>main\<close>.\<close>

lemma main_from_center_interrupted:
  assumes "mkdir_fault E = None"
    and "build_grid cx cy (grid_size A) = (x, y, dx, dy) # rest"
    and "files w (tile_path (tiles_dir A) x y) = None"
    and "1 \<le> retries A"
    and "http_get E (gets w) (tile_url x y TILE_ZOOM) = Inl KeyboardInterrupt"
  shows "fst (main_from_center E A cx cy w) = Inl KeyboardInterrupt
    \<and> saved (snd (main_from_center E A cx cy w)) = saved w
    \<and> stderr (snd (main_from_center E A cx cy w)) = stderr w @
         (if grid_size A mod 2 = 0
          then [''Warning: grid-size is even; true center lies between the middle four tiles.'']
          else [])"
proof -
  let ?cells = "build_grid cx cy (grid_size A)"
  obtain w2 where w2: "files w2 = files w" "gets w2 = gets w" "saved w2 = saved w"
      "stderr w2 = stderr w @
         (if grid_size A mod 2 = 0
          then [''Warning: grid-size is even; true center lies between the middle four tiles.'']
          else [])"
    and eq: "main_from_center E A cx cy w =
         (case mkdir_fault E of
            Some e \<Rightarrow> (Inl e, w2)
          | None \<Rightarrow>
              (case download_loop E A (int (length ?cells)) 1 ?cells {} w2 of
                 (Inl e, w3) \<Rightarrow> (Inl e, w3)
               | (Inr printed, w3) \<Rightarrow> stitch_and_save E A ?cells w3))"
    using main_from_center_unfold [of w A E cx cy] by blast
  obtain res w3 where l: "download_loop E A (int (length ?cells)) 1 ?cells {} w2 = (res, w3)"
    by (cases "download_loop E A (int (length ?cells)) 1 ?cells {} w2")
  have "fst (download_tile E x y TILE_ZOOM (tile_path (tiles_dir A) x y) (timeout A) (retries A) w2)
      = Inl KeyboardInterrupt"
    using assms(4) assms(5) w2(2) by (intro download_tile_interrupted) simp_all
  then have "fst (fetch_step E A (tile_path (tiles_dir A) x y) x y w2) = Inl KeyboardInterrupt"
    using assms(3) w2(1) by (simp add: fetch_step_def)
  then have "fst (download_loop E A (int (length ?cells)) 1 ((x, y, dx, dy) # rest) {} w2)
      = Inl KeyboardInterrupt"
    by (rule download_loop_raises)
  then have res: "res = Inl KeyboardInterrupt" using l assms(2) by simp
  have q: "stderr w3 = stderr w2" "saved w3 = saved w2"
    using download_loop_quiet [of E A "int (length ?cells)" 1 ?cells "{}" w2] l by simp_all
  show ?thesis
    unfolding eq l using assms(1) res q w2 by simp
qed

text \<open>The whole of \<^verbatim>\<open>main\<close> when nothing but the writes of the tiles fails.\<close>

lemma main_from_center_ok:
  assumes "\<forall>k u. http_get E k u \<noteq> Inl KeyboardInterrupt"
    and "\<forall>k. write_fault E k \<noteq> Some KeyboardInterrupt"
    and "\<forall>content. png_decode E content \<noteq> Inl KeyboardInterrupt"
    and "\<forall>content im. png_decode E content = Inr im \<longrightarrow> 0 < width im \<and> 0 < height im"
    and "1 \<le> grid_size A"
    and "bg_rgba_of E A = Inr bg"
    and "mkdir_fault E = None"
    and "save_fault E = None"
    and "resolve E (tiles_dir A) = Inr d"
  shows "fst (main_from_center E A cx cy w) = Inr ()
    \<and> stderr (snd (main_from_center E A cx cy w)) = stderr w @
         (if grid_size A mod 2 = 0
          then [''Warning: grid-size is even; true center lies between the middle four tiles.'']
          else [])
    \<and> (\<exists>img. saved (snd (main_from_center E A cx cy w)) (out A) = Some (png_encode E img))"
proof -
  let ?cells = "build_grid cx cy (grid_size A)"
  obtain w2 where w2: "stderr w2 = stderr w @
         (if grid_size A mod 2 = 0
          then [''Warning: grid-size is even; true center lies between the middle four tiles.'']
          else [])"
    and eq: "main_from_center E A cx cy w =
         (case mkdir_fault E of
            Some e \<Rightarrow> (Inl e, w2)
          | None \<Rightarrow>
              (case download_loop E A (int (length ?cells)) 1 ?cells {} w2 of
                 (Inl e, w3) \<Rightarrow> (Inl e, w3)
               | (Inr printed, w3) \<Rightarrow> stitch_and_save E A ?cells w3))"
    using main_from_center_unfold [of w A E cx cy] by blast
  have quiet: "\<And>k u. http_get E k u \<noteq> Inl KeyboardInterrupt"
    "\<And>k. write_fault E k \<noteq> Some KeyboardInterrupt"
    using assms(1,2) by simp_all
  obtain printed w3 where l:
    "download_loop E A (int (length ?cells)) 1 ?cells {} w2 = (Inr printed, w3)"
    using download_loop_progress [of E A "int (length ?cells)" 1 ?cells "{}" w2, OF quiet] by blast
  have q: "stderr w3 = stderr w2"
    using download_loop_quiet [of E A "int (length ?cells)" 1 ?cells "{}" w2] l by simp
  obtain img where s: "stitch_and_save E A ?cells w3 =
     (Inr (), w3\<lparr>saved := (saved w3)(out A \<mapsto> png_encode E img),
                 stdout := stdout w3 @ [''Saved '' @ out A, ''Tiles stored in: '' @ d]\<rparr>)"
    using stitch_and_save_ok [of E A bg d ?cells w3, OF assms(3,4,5,6,8,9)] by blast
  have m: "main_from_center E A cx cy w =
     (Inr (), w3\<lparr>saved := (saved w3)(out A \<mapsto> png_encode E img),
                 stdout := stdout w3 @ [''Saved '' @ out A, ''Tiles stored in: '' @ d]\<rparr>)"
    unfolding eq l using assms(7) s by simp
  show ?thesis unfolding m using q w2 by auto
qed

text \<open>\<^verbatim>\<open>main\<close> itself, once the URL is read and projected.\<close>

lemma main_parsed:
  assumes "parse_wplace_url E (url A) = Inr (lat, lng, zoom)"
    and "latlon_to_tile lat lng TILE_ZOOM = Inr (cx, cy)"
  shows "main E (Inr A) w =
     (case fst (main_from_center E A cx cy w) of
        Inl e \<Rightarrow> (Inl (Raised e), snd (main_from_center E A cx cy w))
      | Inr u \<Rightarrow> (Inr (), snd (main_from_center E A cx cy w)))"
  using assms
  by (cases "main_from_center E A cx cy w") (simp add: main_def split: sum.splits)

lemma main_save_fault:
  assumes "save_fault E = Some e"
  shows "fst (main E parsed w) \<noteq> Inr ()"
proof (cases parsed)
  case (Inl status)
  then show ?thesis by (simp add: main_def)
next
  case A: (Inr A)
  show ?thesis
  proof (cases "parse_wplace_url E (url A)")
    case (Inl e)
    then show ?thesis using A by (simp add: main_def)
  next
    case (Inr r)
    obtain lat lng zoom where r: "r = (lat, lng, zoom)" by (cases r)
    show ?thesis
    proof (cases "latlon_to_tile lat lng TILE_ZOOM")
      case (Inl e)
      then show ?thesis using A Inr r by (simp add: main_def)
    next
      case c: (Inr c)
      obtain cx cy where cc: "c = (cx, cy)" by (cases c)
      have p: "parse_wplace_url E (url A) = Inr (lat, lng, zoom)" using Inr r by simp
      have t: "latlon_to_tile lat lng TILE_ZOOM = Inr (cx, cy)" using c cc by simp
      obtain e' where "fst (main_from_center E A cx cy w) = Inl e'"
        using main_from_center_save_fault [OF assms] by blast
      then show ?thesis unfolding A main_parsed [OF p t] by simp
    qed
  qed
qed

lemma main_returned:
  assumes "fst (main E parsed w) = Inr ()"
  shows "\<exists>A img. parsed = Inr A \<and> saved (snd (main E parsed w)) (out A) = Some (png_encode E img)"
proof (cases parsed)
  case (Inl status)
  then show ?thesis using assms by (simp add: main_def)
next
  case A: (Inr A)
  show ?thesis
  proof (cases "parse_wplace_url E (url A)")
    case (Inl e)
    then show ?thesis using assms A by (simp add: main_def)
  next
    case (Inr r)
    obtain lat lng zoom where r: "r = (lat, lng, zoom)" by (cases r)
    show ?thesis
    proof (cases "latlon_to_tile lat lng TILE_ZOOM")
      case (Inl e)
      then show ?thesis using assms A Inr r by (simp add: main_def)
    next
      case c: (Inr c)
      obtain cx cy where cc: "c = (cx, cy)" by (cases c)
      have p: "parse_wplace_url E (url A) = Inr (lat, lng, zoom)" using Inr r by simp
      have t: "latlon_to_tile lat lng TILE_ZOOM = Inr (cx, cy)" using c cc by simp
      have ok: "fst (main_from_center E A cx cy w) = Inr ()"
        using assms unfolding A main_parsed [OF p t] by (simp split: sum.splits)
      obtain img where "saved (snd (main_from_center E A cx cy w)) (out A) = Some (png_encode E img)"
        using main_from_center_returned [OF ok] by blast
      then show ?thesis unfolding A main_parsed [OF p t] using ok by auto
    qed
  qed
qed

text \<open>The whole of \<^verbatim>\<open>main\<close> when only the save of the image fails.\<close>

lemma main_from_center_save_fails:
  assumes "\<forall>k u. http_get E k u \<noteq> Inl KeyboardInterrupt"
    and "\<forall>k. write_fault E k \<noteq> Some KeyboardInterrupt"
    and "\<forall>content. png_decode E content \<noteq> Inl KeyboardInterrupt"
    and "\<forall>content im. png_decode E content = Inr im \<longrightarrow> 0 < width im \<and> 0 < height im"
    and "1 \<le> grid_size A"
    and "bg_rgba_of E A = Inr bg"
    and "mkdir_fault E = None"
    and "save_fault E = Some e"
  shows "fst (main_from_center E A cx cy w) = Inl e
    \<and> stderr (snd (main_from_center E A cx cy w)) = stderr w @
         (if grid_size A mod 2 = 0
          then [''Warning: grid-size is even; true center lies between the middle four tiles.'']
          else [])
    \<and> (\<exists>img. saved (snd (main_from_center E A cx cy w)) =
          (case save_residue E of
             None \<Rightarrow> saved w
           | Some m \<Rightarrow> (saved w)(out A \<mapsto> take m (png_encode E img))))"
proof -
  let ?cells = "build_grid cx cy (grid_size A)"
  obtain w2 where w2: "stderr w2 = stderr w @
         (if grid_size A mod 2 = 0
          then [''Warning: grid-size is even; true center lies between the middle four tiles.'']
          else [])" "saved w2 = saved w"
    and eq: "main_from_center E A cx cy w =
         (case mkdir_fault E of
            Some e \<Rightarrow> (Inl e, w2)
          | None \<Rightarrow>
              (case download_loop E A (int (length ?cells)) 1 ?cells {} w2 of
                 (Inl e, w3) \<Rightarrow> (Inl e, w3)
               | (Inr printed, w3) \<Rightarrow> stitch_and_save E A ?cells w3))"
    using main_from_center_unfold [of w A E cx cy] by blast
  have quiet: "\<And>k u. http_get E k u \<noteq> Inl KeyboardInterrupt"
    "\<And>k. write_fault E k \<noteq> Some KeyboardInterrupt"
    using assms(1,2) by simp_all
  obtain printed w3 where l:
    "download_loop E A (int (length ?cells)) 1 ?cells {} w2 = (Inr printed, w3)"
    using download_loop_progress [of E A "int (length ?cells)" 1 ?cells "{}" w2, OF quiet] by blast
  have q: "stderr w3 = stderr w2" "saved w3 = saved w2"
    using download_loop_quiet [of E A "int (length ?cells)" 1 ?cells "{}" w2] l by simp_all
  obtain img where s: "stitch_and_save E A ?cells w3 =
     (Inl e, w3\<lparr>saved := (case save_residue E of
                              None \<Rightarrow> saved w3
                            | Some m \<Rightarrow> (saved w3)(out A \<mapsto> take m (png_encode E img)))\<rparr>)"
    using stitch_and_save_fails [of E A bg e ?cells w3, OF assms(3,4,5,6,8)] by blast
  have m: "main_from_center E A cx cy w =
     (Inl e, w3\<lparr>saved := (case save_residue E of
                              None \<Rightarrow> saved w3
                            | Some m \<Rightarrow> (saved w3)(out A \<mapsto> take m (png_encode E img)))\<rparr>)"
    unfolding eq l using assms(7) s by simp
  have sv: "saved w3 = saved w" using q w2 by simp
  have "saved (snd (main_from_center E A cx cy w)) =
          (case save_residue E of
             None \<Rightarrow> saved w
           | Some m \<Rightarrow> (saved w)(out A \<mapsto> take m (png_encode E img)))"
    unfolding m by (simp add: sv split: option.splits)
  then have "\<exists>img. saved (snd (main_from_center E A cx cy w)) =
          (case save_residue E of
             None \<Rightarrow> saved w
           | Some m \<Rightarrow> (saved w)(out A \<mapsto> take m (png_encode E img)))"
    by blast
  then show ?thesis unfolding m using q w2 by simp
qed

text \<open>The handlers around \<^verbatim>\<open>main()\<close>.\<close>

lemma top_level_cases:
  "fst r = Inr () \<Longrightarrow> top_level r = (0, snd r)"
  "fst r = Inl (Raised (Exception msg)) \<Longrightarrow>
     top_level r = (1, (snd r)\<lparr>stderr := stderr (snd r) @ [''Error: '' @ msg]\<rparr>)"
  "fst r = Inl (Raised KeyboardInterrupt) \<Longrightarrow>
     top_level r = (1, (snd r)\<lparr>stderr := stderr (snd r) @ [''Cancelled.'']\<rparr>)"
  "fst r = Inl (SystemExit status) \<Longrightarrow> top_level r = (status, snd r)"
  by (cases r; simp)+

lemma top_level_status:
  "fst (top_level (main E (Inr A) w)) = 0 \<longleftrightarrow> fst (main E (Inr A) w) = Inr ()"
proof -
  have no_exit: "fst (main E (Inr A) w) \<noteq> Inl (SystemExit status)" for status
    by (simp add: main_def split: sum.splits prod.splits)
  show ?thesis
  proof (cases "fst (main E (Inr A) w)")
    case (Inr u)
    then show ?thesis using top_level_cases(1) [of "main E (Inr A) w"] by simp
  next
    case (Inl c)
    show ?thesis
    proof (cases c)
      case (SystemExit status)
      then show ?thesis using Inl no_exit by simp
    next
      case (Raised e)
      then show ?thesis
        using Inl top_level_cases(2,3) [of "main E (Inr A) w"] by (cases e) simp_all
    qed
  qed
qed

text \<open>
  C7, as the code has it. An error of class \<^verbatim>\<open>Exception\<close> raised while a tile is written is
  caught inside \<^verbatim>\<open>download_tile\<close>: no exception of that class ever leaves \<^verbatim>\<open>download_tile\<close>,
  which returns normally whenever nothing interrupts it. Such a failure is recovered
  locally and does not reach the top level: when nothing but writes of tiles fails, the
  run saves the image, prints no error and exits with status 0.

  What does reach the top level:
  \<^item> an interrupt of a request or of a write leaves \<^verbatim>\<open>download_tile\<close> (a call that returns
    normally has met none), and the run whose first request is interrupted prints
    \<^verbatim>\<open>Cancelled.\<close> and exits with status 1, nothing saved;
  \<^item> a directory that cannot be made ends the run before anything is fetched or saved,
    with \<^verbatim>\<open>Error: \<close> and the text of the error on the error stream and status 1;
  \<^item> a save that fails ends the run with status 1, reported in the same way, and leaves
    at the output path what the failed save left there, which can be a part of the image;
    a run never returns normally when the save would fail, and it exits with status 0
    only after a save that wrote the whole image.

  Whatever \<^verbatim>\<open>main\<close> raises is reported in this way, \<^verbatim>\<open>Cancelled.\<close> for an interrupt and
  \<^verbatim>\<open>Error: \<close> with the text for the rest, with status 1; the \<^verbatim>\<open>SystemExit\<close> of \<^verbatim>\<open>argparse\<close>
  passes both handlers and ends the process with its own status.
\<close>

theorem storage_failures_at_top_level:
  "fst (download_tile E x y z dest (timeout A) (retries A) w) \<noteq> Inl (Exception msg)
    \<and> ((\<forall>k u. http_get E k u \<noteq> Inl KeyboardInterrupt)
        \<and> (\<forall>k. write_fault E k \<noteq> Some KeyboardInterrupt)
        \<longrightarrow> fst (download_tile E x y z dest (timeout A) (retries A) w) = Inr ())
    \<and> (1 \<le> retries A
        \<and> (http_get E (gets w) (tile_url x y z) = Inl KeyboardInterrupt
           \<or> (\<exists>content. http_get E (gets w) (tile_url x y z) = Inr content)
             \<and> write_fault E (writes w) = Some KeyboardInterrupt)
        \<longrightarrow> fst (download_tile E x y z dest (timeout A) (retries A) w) = Inl KeyboardInterrupt)
    \<and> (fst (download_tile E x y z dest (timeout A) (retries A) w) = Inr () \<longrightarrow>
        (\<forall>k. gets w \<le> k \<and> k < gets (snd (download_tile E x y z dest (timeout A) (retries A) w)) \<longrightarrow>
              http_get E k (tile_url x y z) \<noteq> Inl KeyboardInterrupt)
      \<and> (\<forall>k. writes w \<le> k \<and> k < writes (snd (download_tile E x y z dest (timeout A) (retries A) w)) \<longrightarrow>
              write_fault E k \<noteq> Some KeyboardInterrupt))
    \<and> (fst (main E parsed w) = Inr () \<longrightarrow> top_level (main E parsed w) = (0, snd (main E parsed w)))
    \<and> (fst (main E parsed w) = Inl (Raised (Exception msg)) \<longrightarrow>
        top_level (main E parsed w) =
          (1, (snd (main E parsed w))\<lparr>stderr := stderr (snd (main E parsed w)) @ [''Error: '' @ msg]\<rparr>))
    \<and> (fst (main E parsed w) = Inl (Raised KeyboardInterrupt) \<longrightarrow>
        top_level (main E parsed w) =
          (1, (snd (main E parsed w))\<lparr>stderr := stderr (snd (main E parsed w)) @ [''Cancelled.'']\<rparr>))
    \<and> (parsed = Inl status \<longrightarrow> top_level (main E parsed w) = (status, w))
    \<and> (parse_wplace_url E (url A) = Inr (lat, lng, zoom)
        \<and> latlon_to_tile lat lng TILE_ZOOM = Inr (cx, cy)
        \<and> mkdir_fault E = Some (Exception msg)
        \<longrightarrow> fst (top_level (main E (Inr A) w)) = 1
          \<and> stderr (snd (top_level (main E (Inr A) w))) =
              stderr w @ (if grid_size A mod 2 = 0
                 then [''Warning: grid-size is even; true center lies between the middle four tiles.'']
                 else []) @ [''Error: '' @ msg]
          \<and> gets (snd (top_level (main E (Inr A) w))) = gets w
          \<and> writes (snd (top_level (main E (Inr A) w))) = writes w
          \<and> saved (snd (top_level (main E (Inr A) w))) = saved w)
    \<and> (save_fault E \<noteq> None \<longrightarrow> fst (main E parsed w) \<noteq> Inr () \<and> fst (top_level (main E (Inr A) w)) = 1)
    \<and> (fst (top_level (main E (Inr A) w)) = 0 \<longrightarrow>
        (\<exists>img. saved (snd (top_level (main E (Inr A) w))) (out A) = Some (png_encode E img)))
    \<and> (parse_wplace_url E (url A) = Inr (lat, lng, zoom)
        \<and> latlon_to_tile lat lng TILE_ZOOM = Inr (cx, cy)
        \<and> mkdir_fault E = None
        \<and> build_grid cx cy (grid_size A) = (tx, ty, dx, dy) # rest
        \<and> files w (tile_path (tiles_dir A) tx ty) = None
        \<and> 1 \<le> retries A
        \<and> http_get E (gets w) (tile_url tx ty TILE_ZOOM) = Inl KeyboardInterrupt
        \<longrightarrow> fst (top_level (main E (Inr A) w)) = 1
          \<and> stderr (snd (top_level (main E (Inr A) w))) =
              stderr w @ (if grid_size A mod 2 = 0
                 then [''Warning: grid-size is even; true center lies between the middle four tiles.'']
                 else []) @ [''Cancelled.'']
          \<and> saved (snd (top_level (main E (Inr A) w))) = saved w)
    \<and> (parse_wplace_url E (url A) = Inr (lat, lng, zoom)
        \<and> latlon_to_tile lat lng TILE_ZOOM = Inr (cx, cy)
        \<and> (\<forall>k u. http_get E k u \<noteq> Inl KeyboardInterrupt)
        \<and> (\<forall>k. write_fault E k \<noteq> Some KeyboardInterrupt)
        \<and> (\<forall>content. png_decode E content \<noteq> Inl KeyboardInterrupt)
        \<and> (\<forall>content im. png_decode E content = Inr im \<longrightarrow> 0 < width im \<and> 0 < height im)
        \<and> 1 \<le> grid_size A
        \<and> bg_rgba_of E A = Inr bg
        \<and> mkdir_fault E = None
        \<and> save_fault E = None
        \<and> resolve E (tiles_dir A) = Inr d
        \<longrightarrow> fst (top_level (main E (Inr A) w)) = 0
          \<and> stderr (snd (top_level (main E (Inr A) w))) =
              stderr w @ (if grid_size A mod 2 = 0
                 then [''Warning: grid-size is even; true center lies between the middle four tiles.'']
                 else [])
          \<and> (\<exists>img. saved (snd (top_level (main E (Inr A) w))) (out A) = Some (png_encode E img)))
    \<and> (parse_wplace_url E (url A) = Inr (lat, lng, zoom)
        \<and> latlon_to_tile lat lng TILE_ZOOM = Inr (cx, cy)
        \<and> (\<forall>k u. http_get E k u \<noteq> Inl KeyboardInterrupt)
        \<and> (\<forall>k. write_fault E k \<noteq> Some KeyboardInterrupt)
        \<and> (\<forall>content. png_decode E content \<noteq> Inl KeyboardInterrupt)
        \<and> (\<forall>content im. png_decode E content = Inr im \<longrightarrow> 0 < width im \<and> 0 < height im)
        \<and> 1 \<le> grid_size A
        \<and> bg_rgba_of E A = Inr bg
        \<and> mkdir_fault E = None
        \<and> save_fault E = Some (Exception msg)
        \<longrightarrow> fst (top_level (main E (Inr A) w)) = 1
          \<and> stderr (snd (top_level (main E (Inr A) w))) =
              stderr w @ (if grid_size A mod 2 = 0
                 then [''Warning: grid-size is even; true center lies between the middle four tiles.'']
                 else []) @ [''Error: '' @ msg]
          \<and> (\<exists>img. saved (snd (top_level (main E (Inr A) w))) =
                (case save_residue E of
                   None \<Rightarrow> saved w
                 | Some m \<Rightarrow> (saved w)(out A \<mapsto> take m (png_encode E img)))))"
proof -
  have tile_exc: "fst (download_tile E x y z dest (timeout A) (retries A) w) \<noteq> Inl (Exception msg)"
    by (simp add: download_tile_def download_attempts_no_exception)
  have tile_ret: "((\<forall>k u. http_get E k u \<noteq> Inl KeyboardInterrupt)
        \<and> (\<forall>k. write_fault E k \<noteq> Some KeyboardInterrupt)
        \<longrightarrow> fst (download_tile E x y z dest (timeout A) (retries A) w) = Inr ())"
    by (simp add: download_tile_def download_attempts_returns)
  have tile_int: "(1 \<le> retries A
        \<and> (http_get E (gets w) (tile_url x y z) = Inl KeyboardInterrupt
           \<or> (\<exists>content. http_get E (gets w) (tile_url x y z) = Inr content)
             \<and> write_fault E (writes w) = Some KeyboardInterrupt)
        \<longrightarrow> fst (download_tile E x y z dest (timeout A) (retries A) w) = Inl KeyboardInterrupt)"
    using download_tile_interrupted [of "retries A" E w x y z dest "timeout A"] by blast
  have tile_clean: "(fst (download_tile E x y z dest (timeout A) (retries A) w) = Inr () \<longrightarrow>
        (\<forall>k. gets w \<le> k \<and> k < gets (snd (download_tile E x y z dest (timeout A) (retries A) w)) \<longrightarrow>
              http_get E k (tile_url x y z) \<noteq> Inl KeyboardInterrupt)
      \<and> (\<forall>k. writes w \<le> k \<and> k < writes (snd (download_tile E x y z dest (timeout A) (retries A) w)) \<longrightarrow>
              write_fault E k \<noteq> Some KeyboardInterrupt))"
    using download_attempts_not_interrupted
      [of E "tile_url x y z" dest "retries A" "py_range 1 (retries A + 1)" w]
    by (simp add: download_tile_def)
  have top_ok: "(fst (main E parsed w) = Inr () \<longrightarrow> top_level (main E parsed w) = (0, snd (main E parsed w)))"
    by (simp add: top_level_cases(1))
  have top_exc: "(fst (main E parsed w) = Inl (Raised (Exception msg)) \<longrightarrow>
        top_level (main E parsed w) =
          (1, (snd (main E parsed w))\<lparr>stderr := stderr (snd (main E parsed w)) @ [''Error: '' @ msg]\<rparr>))"
    by (simp add: top_level_cases(2))
  have top_int: "(fst (main E parsed w) = Inl (Raised KeyboardInterrupt) \<longrightarrow>
        top_level (main E parsed w) =
          (1, (snd (main E parsed w))\<lparr>stderr := stderr (snd (main E parsed w)) @ [''Cancelled.'']\<rparr>))"
    by (simp add: top_level_cases(3))
  have top_exit: "(parsed = Inl status \<longrightarrow> top_level (main E parsed w) = (status, w))"
    by (simp add: main_def)
  have mkdir: "(parse_wplace_url E (url A) = Inr (lat, lng, zoom)
        \<and> latlon_to_tile lat lng TILE_ZOOM = Inr (cx, cy)
        \<and> mkdir_fault E = Some (Exception msg)
        \<longrightarrow> fst (top_level (main E (Inr A) w)) = 1
          \<and> stderr (snd (top_level (main E (Inr A) w))) =
              stderr w @ (if grid_size A mod 2 = 0
                 then [''Warning: grid-size is even; true center lies between the middle four tiles.'']
                 else []) @ [''Error: '' @ msg]
          \<and> gets (snd (top_level (main E (Inr A) w))) = gets w
          \<and> writes (snd (top_level (main E (Inr A) w))) = writes w
          \<and> saved (snd (top_level (main E (Inr A) w))) = saved w)"
  proof
    assume h: "parse_wplace_url E (url A) = Inr (lat, lng, zoom)
        \<and> latlon_to_tile lat lng TILE_ZOOM = Inr (cx, cy)
        \<and> mkdir_fault E = Some (Exception msg)"
    then have p: "parse_wplace_url E (url A) = Inr (lat, lng, zoom)"
      and t: "latlon_to_tile lat lng TILE_ZOOM = Inr (cx, cy)"
      and m: "mkdir_fault E = Some (Exception msg)"
      by simp_all
    obtain w2 where w2: "gets w2 = gets w" "writes w2 = writes w" "saved w2 = saved w"
      "stderr w2 = stderr w @ (if grid_size A mod 2 = 0
                 then [''Warning: grid-size is even; true center lies between the middle four tiles.'']
                 else [])"
      and eq: "main_from_center E A cx cy w = (Inl (Exception msg), w2)"
      using main_from_center_unfold [of w A E cx cy] m by auto
    have r: "main E (Inr A) w = (Inl (Raised (Exception msg)), w2)"
      unfolding main_parsed [OF p t] eq by simp
    show "fst (top_level (main E (Inr A) w)) = 1
          \<and> stderr (snd (top_level (main E (Inr A) w))) =
              stderr w @ (if grid_size A mod 2 = 0
                 then [''Warning: grid-size is even; true center lies between the middle four tiles.'']
                 else []) @ [''Error: '' @ msg]
          \<and> gets (snd (top_level (main E (Inr A) w))) = gets w
          \<and> writes (snd (top_level (main E (Inr A) w))) = writes w
          \<and> saved (snd (top_level (main E (Inr A) w))) = saved w"
      unfolding r using w2 by simp
  qed
  have save: "(save_fault E \<noteq> None \<longrightarrow> fst (main E parsed w) \<noteq> Inr () \<and> fst (top_level (main E (Inr A) w)) = 1)"
  proof
    assume "save_fault E \<noteq> None"
    then obtain e where e: "save_fault E = Some e" by blast
    have a: "fst (main E parsed w) \<noteq> Inr ()" using e by (rule main_save_fault)
    have b: "fst (main E (Inr A) w) \<noteq> Inr ()" using e by (rule main_save_fault)
    have "fst (top_level (main E (Inr A) w)) = 1"
    proof (cases "fst (main E (Inr A) w)")
      case (Inr u)
      then show ?thesis using b by simp
    next
      case (Inl c)
      show ?thesis
      proof (cases c)
        case (SystemExit status)
        then show ?thesis using Inl by (simp add: main_def split: sum.splits prod.splits)
      next
        case (Raised e')
        then show ?thesis
          using Inl top_level_cases(2,3) [of "main E (Inr A) w"] by (cases e') simp_all
      qed
    qed
    then show "fst (main E parsed w) \<noteq> Inr () \<and> fst (top_level (main E (Inr A) w)) = 1" using a by simp
  qed
  have returned: "(fst (top_level (main E (Inr A) w)) = 0 \<longrightarrow>
        (\<exists>img. saved (snd (top_level (main E (Inr A) w))) (out A) = Some (png_encode E img)))"
  proof
    assume "fst (top_level (main E (Inr A) w)) = 0"
    then have ok: "fst (main E (Inr A) w) = Inr ()" by (simp add: top_level_status)
    obtain A' img where "Inr A = (Inr A' :: int + args)"
      "saved (snd (main E (Inr A) w)) (out A') = Some (png_encode E img)"
      using main_returned [OF ok] by blast
    then show "\<exists>img. saved (snd (top_level (main E (Inr A) w))) (out A) = Some (png_encode E img)"
      using top_level_cases(1) [OF ok] by auto
  qed
  have interrupted: "(parse_wplace_url E (url A) = Inr (lat, lng, zoom)
        \<and> latlon_to_tile lat lng TILE_ZOOM = Inr (cx, cy)
        \<and> mkdir_fault E = None
        \<and> build_grid cx cy (grid_size A) = (tx, ty, dx, dy) # rest
        \<and> files w (tile_path (tiles_dir A) tx ty) = None
        \<and> 1 \<le> retries A
        \<and> http_get E (gets w) (tile_url tx ty TILE_ZOOM) = Inl KeyboardInterrupt
        \<longrightarrow> fst (top_level (main E (Inr A) w)) = 1
          \<and> stderr (snd (top_level (main E (Inr A) w))) =
              stderr w @ (if grid_size A mod 2 = 0
                 then [''Warning: grid-size is even; true center lies between the middle four tiles.'']
                 else []) @ [''Cancelled.'']
          \<and> saved (snd (top_level (main E (Inr A) w))) = saved w)"
  proof
    assume h: "parse_wplace_url E (url A) = Inr (lat, lng, zoom)
        \<and> latlon_to_tile lat lng TILE_ZOOM = Inr (cx, cy)
        \<and> mkdir_fault E = None
        \<and> build_grid cx cy (grid_size A) = (tx, ty, dx, dy) # rest
        \<and> files w (tile_path (tiles_dir A) tx ty) = None
        \<and> 1 \<le> retries A
        \<and> http_get E (gets w) (tile_url tx ty TILE_ZOOM) = Inl KeyboardInterrupt"
    then have p: "parse_wplace_url E (url A) = Inr (lat, lng, zoom)"
      and t: "latlon_to_tile lat lng TILE_ZOOM = Inr (cx, cy)"
      by simp_all
    from h have i: "fst (main_from_center E A cx cy w) = Inl KeyboardInterrupt
      \<and> saved (snd (main_from_center E A cx cy w)) = saved w
      \<and> stderr (snd (main_from_center E A cx cy w)) = stderr w @ (if grid_size A mod 2 = 0
                 then [''Warning: grid-size is even; true center lies between the middle four tiles.'']
                 else [])"
      by (intro main_from_center_interrupted [of E cx cy A tx ty dx dy rest w]) simp_all
    have r: "main E (Inr A) w = (Inl (Raised KeyboardInterrupt), snd (main_from_center E A cx cy w))"
      unfolding main_parsed [OF p t] using i by simp
    show "fst (top_level (main E (Inr A) w)) = 1
          \<and> stderr (snd (top_level (main E (Inr A) w))) =
              stderr w @ (if grid_size A mod 2 = 0
                 then [''Warning: grid-size is even; true center lies between the middle four tiles.'']
                 else []) @ [''Cancelled.'']
          \<and> saved (snd (top_level (main E (Inr A) w))) = saved w"
      unfolding r using i by simp
  qed
  have ok: "(parse_wplace_url E (url A) = Inr (lat, lng, zoom)
        \<and> latlon_to_tile lat lng TILE_ZOOM = Inr (cx, cy)
        \<and> (\<forall>k u. http_get E k u \<noteq> Inl KeyboardInterrupt)
        \<and> (\<forall>k. write_fault E k \<noteq> Some KeyboardInterrupt)
        \<and> (\<forall>content. png_decode E content \<noteq> Inl KeyboardInterrupt)
        \<and> (\<forall>content im. png_decode E content = Inr im \<longrightarrow> 0 < width im \<and> 0 < height im)
        \<and> 1 \<le> grid_size A
        \<and> bg_rgba_of E A = Inr bg
        \<and> mkdir_fault E = None
        \<and> save_fault E = None
        \<and> resolve E (tiles_dir A) = Inr d
        \<longrightarrow> fst (top_level (main E (Inr A) w)) = 0
          \<and> stderr (snd (top_level (main E (Inr A) w))) =
              stderr w @ (if grid_size A mod 2 = 0
                 then [''Warning: grid-size is even; true center lies between the middle four tiles.'']
                 else [])
          \<and> (\<exists>img. saved (snd (top_level (main E (Inr A) w))) (out A) = Some (png_encode E img)))"
  proof
    assume h: "parse_wplace_url E (url A) = Inr (lat, lng, zoom)
        \<and> latlon_to_tile lat lng TILE_ZOOM = Inr (cx, cy)
        \<and> (\<forall>k u. http_get E k u \<noteq> Inl KeyboardInterrupt)
        \<and> (\<forall>k. write_fault E k \<noteq> Some KeyboardInterrupt)
        \<and> (\<forall>content. png_decode E content \<noteq> Inl KeyboardInterrupt)
        \<and> (\<forall>content im. png_decode E content = Inr im \<longrightarrow> 0 < width im \<and> 0 < height im)
        \<and> 1 \<le> grid_size A
        \<and> bg_rgba_of E A = Inr bg
        \<and> mkdir_fault E = None
        \<and> save_fault E = None
        \<and> resolve E (tiles_dir A) = Inr d"
    then have p: "parse_wplace_url E (url A) = Inr (lat, lng, zoom)"
      and t: "latlon_to_tile lat lng TILE_ZOOM = Inr (cx, cy)"
      by simp_all
    from h have i: "fst (main_from_center E A cx cy w) = Inr ()
      \<and> stderr (snd (main_from_center E A cx cy w)) = stderr w @ (if grid_size A mod 2 = 0
                 then [''Warning: grid-size is even; true center lies between the middle four tiles.'']
                 else [])
      \<and> (\<exists>img. saved (snd (main_from_center E A cx cy w)) (out A) = Some (png_encode E img))"
      by (intro main_from_center_ok [of E A bg d cx cy w]) simp_all
    have r: "main E (Inr A) w = (Inr (), snd (main_from_center E A cx cy w))"
      unfolding main_parsed [OF p t] using i by simp
    show "fst (top_level (main E (Inr A) w)) = 0
          \<and> stderr (snd (top_level (main E (Inr A) w))) =
              stderr w @ (if grid_size A mod 2 = 0
                 then [''Warning: grid-size is even; true center lies between the middle four tiles.'']
                 else [])
          \<and> (\<exists>img. saved (snd (top_level (main E (Inr A) w))) (out A) = Some (png_encode E img))"
      unfolding r using i by simp
  qed
  have nosave: "(parse_wplace_url E (url A) = Inr (lat, lng, zoom)
        \<and> latlon_to_tile lat lng TILE_ZOOM = Inr (cx, cy)
        \<and> (\<forall>k u. http_get E k u \<noteq> Inl KeyboardInterrupt)
        \<and> (\<forall>k. write_fault E k \<noteq> Some KeyboardInterrupt)
        \<and> (\<forall>content. png_decode E content \<noteq> Inl KeyboardInterrupt)
        \<and> (\<forall>content im. png_decode E content = Inr im \<longrightarrow> 0 < width im \<and> 0 < height im)
        \<and> 1 \<le> grid_size A
        \<and> bg_rgba_of E A = Inr bg
        \<and> mkdir_fault E = None
        \<and> save_fault E = Some (Exception msg)
        \<longrightarrow> fst (top_level (main E (Inr A) w)) = 1
          \<and> stderr (snd (top_level (main E (Inr A) w))) =
              stderr w @ (if grid_size A mod 2 = 0
                 then [''Warning: grid-size is even; true center lies between the middle four tiles.'']
                 else []) @ [''Error: '' @ msg]
          \<and> (\<exists>img. saved (snd (top_level (main E (Inr A) w))) =
                (case save_residue E of
                   None \<Rightarrow> saved w
                 | Some m \<Rightarrow> (saved w)(out A \<mapsto> take m (png_encode E img)))))"
  proof
    assume h: "parse_wplace_url E (url A) = Inr (lat, lng, zoom)
        \<and> latlon_to_tile lat lng TILE_ZOOM = Inr (cx, cy)
        \<and> (\<forall>k u. http_get E k u \<noteq> Inl KeyboardInterrupt)
        \<and> (\<forall>k. write_fault E k \<noteq> Some KeyboardInterrupt)
        \<and> (\<forall>content. png_decode E content \<noteq> Inl KeyboardInterrupt)
        \<and> (\<forall>content im. png_decode E content = Inr im \<longrightarrow> 0 < width im \<and> 0 < height im)
        \<and> 1 \<le> grid_size A
        \<and> bg_rgba_of E A = Inr bg
        \<and> mkdir_fault E = None
        \<and> save_fault E = Some (Exception msg)"
    then have p: "parse_wplace_url E (url A) = Inr (lat, lng, zoom)"
      and t: "latlon_to_tile lat lng TILE_ZOOM = Inr (cx, cy)"
      by simp_all
    from h have i: "fst (main_from_center E A cx cy w) = Inl (Exception msg)
      \<and> stderr (snd (main_from_center E A cx cy w)) = stderr w @ (if grid_size A mod 2 = 0
                 then [''Warning: grid-size is even; true center lies between the middle four tiles.'']
                 else [])
      \<and> (\<exists>img. saved (snd (main_from_center E A cx cy w)) =
            (case save_residue E of
               None \<Rightarrow> saved w
             | Some m \<Rightarrow> (saved w)(out A \<mapsto> take m (png_encode E img))))"
      by (intro main_from_center_save_fails [of E A bg "Exception msg" cx cy w]) simp_all
    have r: "main E (Inr A) w = (Inl (Raised (Exception msg)), snd (main_from_center E A cx cy w))"
      unfolding main_parsed [OF p t] using i by simp
    show "fst (top_level (main E (Inr A) w)) = 1
          \<and> stderr (snd (top_level (main E (Inr A) w))) =
              stderr w @ (if grid_size A mod 2 = 0
                 then [''Warning: grid-size is even; true center lies between the middle four tiles.'']
                 else []) @ [''Error: '' @ msg]
          \<and> (\<exists>img. saved (snd (top_level (main E (Inr A) w))) =
                (case save_residue E of
                   None \<Rightarrow> saved w
                 | Some m \<Rightarrow> (saved w)(out A \<mapsto> take m (png_encode E img))))"
      unfolding r using i by simp
  qed
  show ?thesis
    by (intro conjI) (rule tile_exc, rule tile_ret, rule tile_int, rule tile_clean, rule top_ok, rule top_exc, rule top_int, rule top_exit, rule mkdir, rule save, rule returned, rule interrupted, rule ok, rule nosave)
qed

text \<open>The example runs: the URL is read as latitude 0, longitude 0, the centre tile is (1024, 1024).\<close>

lemma parse_wplace_url_example:
  assumes "url_query E = url_query offline_env" and "parse_qs E = parse_qs offline_env"
    and "py_float E = py_float offline_env"
  shows "parse_wplace_url E u = Inr (Finite 0, Finite 0, None)"
  by (simp add: parse_wplace_url_def read_lat_lng_zoom_def first_value_def and_then_def assms
        offline_env_def)

lemma latlon_to_tile_example: "latlon_to_tile (Finite 0) (Finite 0) TILE_ZOOM = Inr (1024, 1024)"
  by (simp add: TILE_ZOOM_def latlon_to_tile_origin)

lemma build_grid_example: "build_grid 1024 1024 1 = [(1024, 1024, 0, 0)]"
  by (simp add: build_grid_def offset_range_def py_range_def upto.simps grid_cell_def
        wrap_clamp_tile_def TILE_ZOOM_def)

lemma tile_path_example: "tile_path ''tmp'' 1024 1024 = ''tmp/tile_1024_1024.png''"
  by code_simp

theorem storage_failures_at_top_level_witness:
  "fst (download_tile disk_full_env 1024 1024 11 ''tmp/tile_1024_1024.png'' (timeout example_args) (retries example_args) blank_world) = Inr ()
   \<and> http_get disk_full_env 1 (tile_url 1024 1024 11) \<noteq> Inl KeyboardInterrupt
   \<and> write_fault disk_full_env 2 \<noteq> Some KeyboardInterrupt
   \<and> fst (top_level (main disk_full_env (Inr example_args) blank_world)) = 0
   \<and> stderr (snd (top_level (main disk_full_env (Inr example_args) blank_world))) = []
   \<and> (\<exists>img. saved (snd (top_level (main disk_full_env (Inr example_args) blank_world))) ''out.png''
          = Some (png_encode disk_full_env img))
   \<and> top_level (main disk_full_env (Inr example_args) blank_world)
       = (0, snd (main disk_full_env (Inr example_args) blank_world))
   \<and> fst (top_level (main (online_env\<lparr>mkdir_fault := Some (Exception ''Permission denied'')\<rparr>) (Inr example_args) blank_world)) = 1
   \<and> stderr (snd (top_level (main (online_env\<lparr>mkdir_fault := Some (Exception ''Permission denied'')\<rparr>) (Inr example_args) blank_world))) = [''Error: Permission denied'']
   \<and> gets (snd (top_level (main (online_env\<lparr>mkdir_fault := Some (Exception ''Permission denied'')\<rparr>) (Inr example_args) blank_world))) = 0
   \<and> writes (snd (top_level (main (online_env\<lparr>mkdir_fault := Some (Exception ''Permission denied'')\<rparr>) (Inr example_args) blank_world))) = 0
   \<and> saved (snd (top_level (main (online_env\<lparr>mkdir_fault := Some (Exception ''Permission denied'')\<rparr>) (Inr example_args) blank_world))) = Map.empty
   \<and> fst (download_tile (online_env\<lparr>http_get := (\<lambda>k u. Inl KeyboardInterrupt)\<rparr>) 1024 1024 11 ''tmp/tile_1024_1024.png'' (timeout example_args) (retries example_args) blank_world) = Inl KeyboardInterrupt
   \<and> fst (top_level (main (online_env\<lparr>http_get := (\<lambda>k u. Inl KeyboardInterrupt)\<rparr>) (Inr example_args) blank_world)) = 1
   \<and> stderr (snd (top_level (main (online_env\<lparr>http_get := (\<lambda>k u. Inl KeyboardInterrupt)\<rparr>) (Inr example_args) blank_world))) = [''Cancelled.'']
   \<and> saved (snd (top_level (main (online_env\<lparr>http_get := (\<lambda>k u. Inl KeyboardInterrupt)\<rparr>) (Inr example_args) blank_world))) = Map.empty
   \<and> top_level (main online_env (Inl 2) blank_world) = (2, blank_world)
   \<and> fst (main (online_env\<lparr>save_fault := Some (Exception ''No space left on device''), save_residue := Some 0\<rparr>) (Inr example_args) blank_world) \<noteq> Inr ()
   \<and> fst (top_level (main (online_env\<lparr>save_fault := Some (Exception ''No space left on device''), save_residue := Some 0\<rparr>) (Inr example_args) blank_world)) = 1
   \<and> stderr (snd (top_level (main (online_env\<lparr>save_fault := Some (Exception ''No space left on device''), save_residue := Some 0\<rparr>) (Inr example_args) blank_world))) = [''Error: No space left on device'']
   \<and> saved (snd (top_level (main (online_env\<lparr>save_fault := Some (Exception ''No space left on device''), save_residue := Some 0\<rparr>) (Inr example_args) blank_world))) = [''out.png'' \<mapsto> []]
   \<and> top_level (main (online_env\<lparr>mkdir_fault := Some (Exception ''Permission denied'')\<rparr>) (Inr example_args) blank_world) =
       (1, (snd (main (online_env\<lparr>mkdir_fault := Some (Exception ''Permission denied'')\<rparr>) (Inr example_args) blank_world))
             \<lparr>stderr := stderr (snd (main (online_env\<lparr>mkdir_fault := Some (Exception ''Permission denied'')\<rparr>) (Inr example_args) blank_world))
                          @ [''Error: Permission denied'']\<rparr>)
   \<and> top_level (main (online_env\<lparr>http_get := (\<lambda>k u. Inl KeyboardInterrupt)\<rparr>) (Inr example_args) blank_world) =
       (1, (snd (main (online_env\<lparr>http_get := (\<lambda>k u. Inl KeyboardInterrupt)\<rparr>) (Inr example_args) blank_world))
             \<lparr>stderr := stderr (snd (main (online_env\<lparr>http_get := (\<lambda>k u. Inl KeyboardInterrupt)\<rparr>) (Inr example_args) blank_world))
                          @ [''Cancelled.'']\<rparr>)"
proof -
  note full = storage_failures_at_top_level
      [where E = "disk_full_env" and A = example_args and w = blank_world
         and x = 1024 and y = 1024 and z = 11 and dest = "''tmp/tile_1024_1024.png''"
         and parsed = "Inr example_args" and lat = "Finite 0" and lng = "Finite 0" and zoom = None
         and cx = 1024 and cy = 1024 and bg = None and d = "''/home/user/tmp''"]
  note nodir = storage_failures_at_top_level
      [where E = "(online_env\<lparr>mkdir_fault := Some (Exception ''Permission denied'')\<rparr>)" and A = example_args and w = blank_world
         and x = 1024 and y = 1024 and z = 11 and dest = "''tmp/tile_1024_1024.png''"
         and parsed = "Inr example_args" and lat = "Finite 0" and lng = "Finite 0" and zoom = None
         and cx = 1024 and cy = 1024 and msg = "''Permission denied''"]
  note stop = storage_failures_at_top_level
      [where E = "(online_env\<lparr>http_get := (\<lambda>k u. Inl KeyboardInterrupt)\<rparr>)" and A = example_args and w = blank_world
         and x = 1024 and y = 1024 and z = 11 and dest = "''tmp/tile_1024_1024.png''"
         and parsed = "Inr example_args" and lat = "Finite 0" and lng = "Finite 0" and zoom = None
         and cx = 1024 and cy = 1024 and tx = 1024 and ty = 1024 and dx = 0 and dy = 0 and rest = "[]"]
  note usage = storage_failures_at_top_level
      [where E = online_env and parsed = "Inl 2" and status = 2 and w = blank_world]
  note nosave = storage_failures_at_top_level
      [where E = "(online_env\<lparr>save_fault := Some (Exception ''No space left on device''), save_residue := Some 0\<rparr>)" and A = example_args and w = blank_world
         and x = 1024 and y = 1024 and z = 11 and dest = "''tmp/tile_1024_1024.png''"
         and parsed = "Inr example_args" and lat = "Finite 0" and lng = "Finite 0" and zoom = None
         and cx = 1024 and cy = 1024 and bg = None and msg = "''No space left on device''"]
  have args: "grid_size example_args = 1" "out example_args = ''out.png''"
    "retries example_args = 2" "tiles_dir example_args = ''tmp''"
    "background_hex example_args = None"
    by (simp_all add: example_args_def)
  have world: "stderr blank_world = []" "gets blank_world = 0" "writes blank_world = 0"
    "saved blank_world = Map.empty" "files blank_world = Map.empty"
    by (simp_all add: blank_world_def)
  have parse: "parse_wplace_url disk_full_env (url example_args) = Inr (Finite 0, Finite 0, None)"
    "parse_wplace_url (online_env\<lparr>mkdir_fault := Some (Exception ''Permission denied'')\<rparr>) (url example_args) = Inr (Finite 0, Finite 0, None)"
    "parse_wplace_url (online_env\<lparr>http_get := (\<lambda>k u. Inl KeyboardInterrupt)\<rparr>) (url example_args) = Inr (Finite 0, Finite 0, None)"
    "parse_wplace_url (online_env\<lparr>save_fault := Some (Exception ''No space left on device''), save_residue := Some 0\<rparr>) (url example_args) = Inr (Finite 0, Finite 0, None)"
    by (rule parse_wplace_url_example; simp add: disk_full_env_def online_env_def offline_env_def)+
  note centre = latlon_to_tile_example
  have quiet: "(\<forall>k u. http_get disk_full_env k u \<noteq> Inl KeyboardInterrupt)
      \<and> (\<forall>k. write_fault disk_full_env k \<noteq> Some KeyboardInterrupt)"
    by (simp add: disk_full_env_def online_env_def offline_env_def)
  have decode: "\<forall>content. png_decode disk_full_env content \<noteq> Inl KeyboardInterrupt"
    "\<forall>content im. png_decode disk_full_env content = Inr im \<longrightarrow> 0 < width im \<and> 0 < height im"
    by (auto simp: disk_full_env_def online_env_def offline_env_def red_pixel_def)
  have rest: "1 \<le> grid_size example_args" "bg_rgba_of disk_full_env example_args = Inr None"
    "mkdir_fault disk_full_env = None" "save_fault disk_full_env = None"
    "resolve disk_full_env (tiles_dir example_args) = Inr ''/home/user/tmp''"
    by (simp_all add: args bg_rgba_of_def disk_full_env_def online_env_def offline_env_def)
  have a1: "fst (download_tile disk_full_env 1024 1024 11 ''tmp/tile_1024_1024.png'' (timeout example_args) (retries example_args) blank_world) = Inr ()"
    by (rule mp [OF full [THEN conjunct2, THEN conjunct1]]) (rule quiet)
  have counters: "gets (snd (download_tile disk_full_env 1024 1024 11 ''tmp/tile_1024_1024.png'' (timeout example_args) (retries example_args) blank_world)) = 2"
    "writes (snd (download_tile disk_full_env 1024 1024 11 ''tmp/tile_1024_1024.png'' (timeout example_args) (retries example_args) blank_world)) = 3"
  proof -
    have r: "[1..2] = [1, 2::int]" by (simp add: upto.simps)
    show "gets (snd (download_tile disk_full_env 1024 1024 11 ''tmp/tile_1024_1024.png'' (timeout example_args) (retries example_args) blank_world)) = 2"
      "writes (snd (download_tile disk_full_env 1024 1024 11 ''tmp/tile_1024_1024.png'' (timeout example_args) (retries example_args) blank_world)) = 3"
      by (simp_all add: download_tile_def py_range_def r try_fetch_def session_get_def
            write_bytes_def sleep_def disk_full_env_def online_env_def offline_env_def example_args_def blank_world_def)
  qed
  note clean = mp [OF full [THEN conjunct2, THEN conjunct2, THEN conjunct2, THEN conjunct1] a1]
  have a5: "http_get disk_full_env 1 (tile_url 1024 1024 11) \<noteq> Inl KeyboardInterrupt"
    using clean [THEN conjunct1, THEN spec, of 1] counters world by simp
  have a6: "write_fault disk_full_env 2 \<noteq> Some KeyboardInterrupt"
    using clean [THEN conjunct2, THEN spec, of 2] counters world by simp
  have a2: "fst (top_level (main disk_full_env (Inr example_args) blank_world)) = 0
      \<and> stderr (snd (top_level (main disk_full_env (Inr example_args) blank_world))) = stderr blank_world @ (if grid_size example_args mod 2 = 0
                 then [''Warning: grid-size is even; true center lies between the middle four tiles.'']
                 else [])
      \<and> (\<exists>img. saved (snd (top_level (main disk_full_env (Inr example_args) blank_world))) (out example_args)
            = Some (png_encode disk_full_env img))"
    by (rule mp [OF full [THEN conjunct2, THEN conjunct2, THEN conjunct2, THEN conjunct2, THEN conjunct2, THEN conjunct2, THEN conjunct2, THEN conjunct2, THEN conjunct2, THEN conjunct2, THEN conjunct2, THEN conjunct2, THEN conjunct1]])
       (intro conjI parse centre quiet [THEN conjunct1] quiet [THEN conjunct2] decode rest)
  have ret: "fst (main disk_full_env (Inr example_args) blank_world) = Inr ()"
    using a2 by (simp add: top_level_status)
  have a3: "top_level (main disk_full_env (Inr example_args) blank_world) = (0, snd (main disk_full_env (Inr example_args) blank_world))"
    by (rule mp [OF full [THEN conjunct2, THEN conjunct2, THEN conjunct2, THEN conjunct2, THEN conjunct1]]) (rule ret)
  have dir: "mkdir_fault (online_env\<lparr>mkdir_fault := Some (Exception ''Permission denied'')\<rparr>) = Some (Exception ''Permission denied'')" by simp
  have b1: "fst (top_level (main (online_env\<lparr>mkdir_fault := Some (Exception ''Permission denied'')\<rparr>) (Inr example_args) blank_world)) = 1
      \<and> stderr (snd (top_level (main (online_env\<lparr>mkdir_fault := Some (Exception ''Permission denied'')\<rparr>) (Inr example_args) blank_world))) = stderr blank_world @ (if grid_size example_args mod 2 = 0
                 then [''Warning: grid-size is even; true center lies between the middle four tiles.'']
                 else [])
            @ [''Error: '' @ ''Permission denied'']
      \<and> gets (snd (top_level (main (online_env\<lparr>mkdir_fault := Some (Exception ''Permission denied'')\<rparr>) (Inr example_args) blank_world))) = gets blank_world
      \<and> writes (snd (top_level (main (online_env\<lparr>mkdir_fault := Some (Exception ''Permission denied'')\<rparr>) (Inr example_args) blank_world))) = writes blank_world
      \<and> saved (snd (top_level (main (online_env\<lparr>mkdir_fault := Some (Exception ''Permission denied'')\<rparr>) (Inr example_args) blank_world))) = saved blank_world"
    by (rule mp [OF nodir [THEN conjunct2, THEN conjunct2, THEN conjunct2, THEN conjunct2, THEN conjunct2, THEN conjunct2, THEN conjunct2, THEN conjunct2, THEN conjunct1]]) (intro conjI parse centre dir)
  have c1: "fst (download_tile (online_env\<lparr>http_get := (\<lambda>k u. Inl KeyboardInterrupt)\<rparr>) 1024 1024 11 ''tmp/tile_1024_1024.png'' (timeout example_args) (retries example_args) blank_world) = Inl KeyboardInterrupt"
    by (rule mp [OF stop [THEN conjunct2, THEN conjunct2, THEN conjunct1]]) (simp add: args)
  have first: "mkdir_fault (online_env\<lparr>http_get := (\<lambda>k u. Inl KeyboardInterrupt)\<rparr>) = None"
    "build_grid 1024 1024 (grid_size example_args) = (1024, 1024, 0, 0) # []"
    "files blank_world (tile_path (tiles_dir example_args) 1024 1024) = None"
    "1 \<le> retries example_args"
    "http_get (online_env\<lparr>http_get := (\<lambda>k u. Inl KeyboardInterrupt)\<rparr>) (gets blank_world) (tile_url 1024 1024 TILE_ZOOM) = Inl KeyboardInterrupt"
    by (simp_all add: args world build_grid_example online_env_def offline_env_def)
  have c2: "fst (top_level (main (online_env\<lparr>http_get := (\<lambda>k u. Inl KeyboardInterrupt)\<rparr>) (Inr example_args) blank_world)) = 1
      \<and> stderr (snd (top_level (main (online_env\<lparr>http_get := (\<lambda>k u. Inl KeyboardInterrupt)\<rparr>) (Inr example_args) blank_world))) = stderr blank_world @ (if grid_size example_args mod 2 = 0
                 then [''Warning: grid-size is even; true center lies between the middle four tiles.'']
                 else []) @ [''Cancelled.'']
      \<and> saved (snd (top_level (main (online_env\<lparr>http_get := (\<lambda>k u. Inl KeyboardInterrupt)\<rparr>) (Inr example_args) blank_world))) = saved blank_world"
    by (rule mp [OF stop [THEN conjunct2, THEN conjunct2, THEN conjunct2, THEN conjunct2, THEN conjunct2, THEN conjunct2, THEN conjunct2, THEN conjunct2, THEN conjunct2, THEN conjunct2, THEN conjunct2, THEN conjunct1]]) (intro conjI parse centre first)
  have d1: "top_level (main online_env (Inl 2) blank_world) = (2, blank_world)"
    by (rule mp [OF usage [THEN conjunct2, THEN conjunct2, THEN conjunct2, THEN conjunct2, THEN conjunct2, THEN conjunct2, THEN conjunct2, THEN conjunct1]]) (rule refl)
  have e1: "fst (main (online_env\<lparr>save_fault := Some (Exception ''No space left on device''), save_residue := Some 0\<rparr>) (Inr example_args) blank_world) \<noteq> Inr ()
      \<and> fst (top_level (main (online_env\<lparr>save_fault := Some (Exception ''No space left on device''), save_residue := Some 0\<rparr>) (Inr example_args) blank_world)) = 1"
    by (rule mp [OF nosave [THEN conjunct2, THEN conjunct2, THEN conjunct2, THEN conjunct2, THEN conjunct2, THEN conjunct2, THEN conjunct2, THEN conjunct2, THEN conjunct2, THEN conjunct1]]) simp
  have full_save: "(\<forall>k u. http_get (online_env\<lparr>save_fault := Some (Exception ''No space left on device''), save_residue := Some 0\<rparr>) k u \<noteq> Inl KeyboardInterrupt)
      \<and> (\<forall>k. write_fault (online_env\<lparr>save_fault := Some (Exception ''No space left on device''), save_residue := Some 0\<rparr>) k \<noteq> Some KeyboardInterrupt)"
    "\<forall>content. png_decode (online_env\<lparr>save_fault := Some (Exception ''No space left on device''), save_residue := Some 0\<rparr>) content \<noteq> Inl KeyboardInterrupt"
    "\<forall>content im. png_decode (online_env\<lparr>save_fault := Some (Exception ''No space left on device''), save_residue := Some 0\<rparr>) content = Inr im \<longrightarrow> 0 < width im \<and> 0 < height im"
    "1 \<le> grid_size example_args" "bg_rgba_of (online_env\<lparr>save_fault := Some (Exception ''No space left on device''), save_residue := Some 0\<rparr>) example_args = Inr None"
    "mkdir_fault (online_env\<lparr>save_fault := Some (Exception ''No space left on device''), save_residue := Some 0\<rparr>) = None"
    "save_fault (online_env\<lparr>save_fault := Some (Exception ''No space left on device''), save_residue := Some 0\<rparr>) = Some (Exception ''No space left on device'')"
    by (auto simp: args bg_rgba_of_def online_env_def offline_env_def red_pixel_def)
  have e2: "fst (top_level (main (online_env\<lparr>save_fault := Some (Exception ''No space left on device''), save_residue := Some 0\<rparr>) (Inr example_args) blank_world)) = 1
      \<and> stderr (snd (top_level (main (online_env\<lparr>save_fault := Some (Exception ''No space left on device''), save_residue := Some 0\<rparr>) (Inr example_args) blank_world))) = stderr blank_world @ (if grid_size example_args mod 2 = 0
                 then [''Warning: grid-size is even; true center lies between the middle four tiles.'']
                 else [])
            @ [''Error: '' @ ''No space left on device'']
      \<and> (\<exists>img. saved (snd (top_level (main (online_env\<lparr>save_fault := Some (Exception ''No space left on device''), save_residue := Some 0\<rparr>) (Inr example_args) blank_world))) =
            (case save_residue (online_env\<lparr>save_fault := Some (Exception ''No space left on device''), save_residue := Some 0\<rparr>) of
               None \<Rightarrow> saved blank_world
             | Some m \<Rightarrow> (saved blank_world)(out example_args \<mapsto> take m (png_encode (online_env\<lparr>save_fault := Some (Exception ''No space left on device''), save_residue := Some 0\<rparr>) img))))"
    by (rule mp [OF nosave [THEN conjunct2, THEN conjunct2, THEN conjunct2, THEN conjunct2, THEN conjunct2, THEN conjunct2, THEN conjunct2, THEN conjunct2, THEN conjunct2, THEN conjunct2, THEN conjunct2, THEN conjunct2, THEN conjunct2]])
       (intro conjI parse centre full_save(1) [THEN conjunct1] full_save(1) [THEN conjunct2]
          full_save(2-))
  have e3: "saved (snd (top_level (main (online_env\<lparr>save_fault := Some (Exception ''No space left on device''), save_residue := Some 0\<rparr>) (Inr example_args) blank_world))) = [''out.png'' \<mapsto> []]"
    using e2 by (auto simp: args world)
  have raised: "fst (main (online_env\<lparr>mkdir_fault := Some (Exception ''Permission denied'')\<rparr>) (Inr example_args) blank_world)
      = Inl (Raised (Exception ''Permission denied''))"
    unfolding main_parsed [OF parse(2) centre]
    using main_from_center_mkdir [OF dir, of example_args 1024 1024 blank_world] by simp
  have b2: "top_level (main (online_env\<lparr>mkdir_fault := Some (Exception ''Permission denied'')\<rparr>) (Inr example_args) blank_world) =
       (1, (snd (main (online_env\<lparr>mkdir_fault := Some (Exception ''Permission denied'')\<rparr>) (Inr example_args) blank_world))
             \<lparr>stderr := stderr (snd (main (online_env\<lparr>mkdir_fault := Some (Exception ''Permission denied'')\<rparr>) (Inr example_args) blank_world))
                          @ [''Error: '' @ ''Permission denied'']\<rparr>)"
    by (rule mp [OF nodir [THEN conjunct2, THEN conjunct2, THEN conjunct2, THEN conjunct2, THEN conjunct2, THEN conjunct1]]) (rule raised)
  have cancelled: "fst (main (online_env\<lparr>http_get := (\<lambda>k u. Inl KeyboardInterrupt)\<rparr>) (Inr example_args) blank_world)
      = Inl (Raised KeyboardInterrupt)"
    unfolding main_parsed [OF parse(3) centre]
    using main_from_center_interrupted [OF first] by simp
  have c3: "top_level (main (online_env\<lparr>http_get := (\<lambda>k u. Inl KeyboardInterrupt)\<rparr>) (Inr example_args) blank_world) =
       (1, (snd (main (online_env\<lparr>http_get := (\<lambda>k u. Inl KeyboardInterrupt)\<rparr>) (Inr example_args) blank_world))
             \<lparr>stderr := stderr (snd (main (online_env\<lparr>http_get := (\<lambda>k u. Inl KeyboardInterrupt)\<rparr>) (Inr example_args) blank_world))
                          @ [''Cancelled.'']\<rparr>)"
    by (rule mp [OF stop [THEN conjunct2, THEN conjunct2, THEN conjunct2, THEN conjunct2, THEN conjunct2, THEN conjunct2, THEN conjunct1]]) (rule cancelled)
  have a4: "\<exists>img. saved (snd (top_level (main disk_full_env (Inr example_args) blank_world))) (out example_args)
            = Some (png_encode disk_full_env img)"
    by (rule mp [OF full [THEN conjunct2, THEN conjunct2, THEN conjunct2, THEN conjunct2, THEN conjunct2, THEN conjunct2, THEN conjunct2, THEN conjunct2, THEN conjunct2, THEN conjunct2, THEN conjunct1]]) (rule a2 [THEN conjunct1])
  show ?thesis
    using a1 a2 a3 a4 a5 a6 b1 b2 c1 c2 c3 d1 e1 e2 e3 by (simp add: args world)
qed

text \<open>
  C7 as stated fails on a full disk. The two writes of the tile raise (each leaves the
  file it created, empty), the marker is written, nothing reaches the top level, the
  image is saved and the exit status is 0. And where an error does reach the top level,
  a partial output file can be left: when the save of the image fails on the full disk,
  the run exits with status 1 and the output file it created is there, empty.
\<close>

theorem tile_write_failure_counterexample:
  "fst (top_level (main disk_full_env (Inr example_args) blank_world)) = 0
   \<and> stderr (snd (top_level (main disk_full_env (Inr example_args) blank_world))) = []
   \<and> gets (snd (top_level (main disk_full_env (Inr example_args) blank_world))) = 2
   \<and> writes (snd (top_level (main disk_full_env (Inr example_args) blank_world))) = 3
   \<and> files (snd (top_level (main disk_full_env (Inr example_args) blank_world))) = [''tmp/tile_1024_1024.png'' \<mapsto> []]
   \<and> saved (snd (top_level (main disk_full_env (Inr example_args) blank_world))) = [''out.png'' \<mapsto> ''PNG'']
   \<and> fst (top_level (main (online_env\<lparr>save_fault := Some (Exception ''No space left on device''), save_residue := Some 0\<rparr>) (Inr example_args) blank_world)) = 1
   \<and> stderr (snd (top_level (main (online_env\<lparr>save_fault := Some (Exception ''No space left on device''), save_residue := Some 0\<rparr>) (Inr example_args) blank_world))) = [''Error: No space left on device'']
   \<and> saved (snd (top_level (main (online_env\<lparr>save_fault := Some (Exception ''No space left on device''), save_residue := Some 0\<rparr>) (Inr example_args) blank_world))) = [''out.png'' \<mapsto> []]"
proof -
  have r: "[1..2] = [1, 2::int]" by (simp add: upto.simps)
  let ?w2 = "blank_world\<lparr>stdout := [''Center tile: x='' @ str_int 1024 @ '', y='' @ str_int 1024]\<rparr>"
  let ?p = "tile_path ''tmp'' 1024 1024"
  have args: "grid_size example_args = 1" by (simp add: example_args_def)
  have loop: "\<exists>printed lines. download_loop disk_full_env example_args 1 1 [(1024, 1024, 0, 0)] {} ?w2 =
      (Inr printed, ?w2\<lparr>files := [?p \<mapsto> []], gets := 2, writes := 3, slept := [1 / 2],
                         stdout := lines\<rparr>)"
    by (simp add: fetch_step_def download_tile_def py_range_def r try_fetch_def session_get_def
          write_bytes_def sleep_def disk_full_env_def online_env_def offline_env_def
          example_args_def blank_world_def split: prod.splits)
  then obtain printed lines where l:
    "download_loop disk_full_env example_args 1 1 [(1024, 1024, 0, 0)] {} ?w2 =
      (Inr printed, ?w2\<lparr>files := [?p \<mapsto> []], gets := 2, writes := 3, slept := [1 / 2],
                         stdout := lines\<rparr>)"
    by blast
  have m: "main_from_center disk_full_env example_args 1024 1024 blank_world =
      stitch_and_save disk_full_env example_args [(1024, 1024, 0, 0)]
        (?w2\<lparr>files := [?p \<mapsto> []], gets := 2, writes := 3, slept := [1 / 2], stdout := lines\<rparr>)"
    unfolding main_from_center_def Let_def args build_grid_example
    using l by (simp add: blank_world_def disk_full_env_def online_env_def offline_env_def)
  have end1: "\<exists>out_lines. stitch_and_save disk_full_env example_args [(1024, 1024, 0, 0)]
        (?w2\<lparr>files := [?p \<mapsto> []], gets := 2, writes := 3, slept := [1 / 2], stdout := lines\<rparr>) =
      (Inr (), ?w2\<lparr>files := [?p \<mapsto> []], gets := 2, writes := 3, slept := [1 / 2],
                     stdout := out_lines, saved := [''out.png'' \<mapsto> ''PNG'']\<rparr>)"
    by (simp add: stitch_and_save_def bg_rgba_of_def and_then_def underlay_def report_saved_def
          stitch_from_folder_def tile_size_def safe_open_png_def stitch_cell_def Image_new_def
          DEFAULT_FALLBACK_TILE_def save_image_def paste_def
          disk_full_env_def online_env_def offline_env_def example_args_def blank_world_def)
  have run1: "\<exists>w'. main disk_full_env (Inr example_args) blank_world = (Inr (), w')
      \<and> stderr w' = [] \<and> gets w' = 2 \<and> writes w' = 3 \<and> files w' = [?p \<mapsto> []]
      \<and> saved w' = [''out.png'' \<mapsto> ''PNG'']"
  proof -
    have p: "parse_wplace_url disk_full_env (url example_args) = Inr (Finite 0, Finite 0, None)"
      by (rule parse_wplace_url_example; simp add: disk_full_env_def online_env_def offline_env_def)
    obtain out_lines where e: "main_from_center disk_full_env example_args 1024 1024 blank_world =
      (Inr (), ?w2\<lparr>files := [?p \<mapsto> []], gets := 2, writes := 3, slept := [1 / 2],
                     stdout := out_lines, saved := [''out.png'' \<mapsto> ''PNG'']\<rparr>)"
      using end1 unfolding m by blast
    show ?thesis
      unfolding main_parsed [OF p latlon_to_tile_example] e by (simp add: blank_world_def)
  qed
  let ?E = "(online_env\<lparr>save_fault := Some (Exception ''No space left on device''), save_residue := Some 0\<rparr>)"
  have loop2: "\<exists>printed lines. download_loop ?E example_args 1 1 [(1024, 1024, 0, 0)] {} ?w2 =
      (Inr printed, ?w2\<lparr>files := [?p \<mapsto> ''PNG''], gets := 1, writes := 1, stdout := lines\<rparr>)"
    by (simp add: fetch_step_def download_tile_def py_range_def r try_fetch_def session_get_def
          write_bytes_def sleep_def online_env_def offline_env_def
          example_args_def blank_world_def split: prod.splits)
  then obtain printed2 lines2 where l2:
    "download_loop ?E example_args 1 1 [(1024, 1024, 0, 0)] {} ?w2 =
      (Inr printed2, ?w2\<lparr>files := [?p \<mapsto> ''PNG''], gets := 1, writes := 1, stdout := lines2\<rparr>)"
    by blast
  have m2: "main_from_center ?E example_args 1024 1024 blank_world =
      stitch_and_save ?E example_args [(1024, 1024, 0, 0)]
        (?w2\<lparr>files := [?p \<mapsto> ''PNG''], gets := 1, writes := 1, stdout := lines2\<rparr>)"
    unfolding main_from_center_def Let_def args build_grid_example
    using l2 by (simp add: blank_world_def online_env_def offline_env_def)
  have end2: "stitch_and_save ?E example_args [(1024, 1024, 0, 0)]
        (?w2\<lparr>files := [?p \<mapsto> ''PNG''], gets := 1, writes := 1, stdout := lines2\<rparr>) =
      (Inl (Exception ''No space left on device''),
       ?w2\<lparr>files := [?p \<mapsto> ''PNG''], gets := 1, writes := 1, stdout := lines2,
             saved := [''out.png'' \<mapsto> []]\<rparr>)"
    by (simp add: stitch_and_save_def bg_rgba_of_def and_then_def underlay_def
          stitch_from_folder_def tile_size_def safe_open_png_def stitch_cell_def Image_new_def
          save_image_def paste_def red_pixel_def
          online_env_def offline_env_def example_args_def blank_world_def)
  have run2: "\<exists>w'. main ?E (Inr example_args) blank_world =
        (Inl (Raised (Exception ''No space left on device'')), w')
      \<and> stderr w' = [] \<and> saved w' = [''out.png'' \<mapsto> []]"
  proof -
    have p: "parse_wplace_url ?E (url example_args) = Inr (Finite 0, Finite 0, None)"
      by (rule parse_wplace_url_example; simp add: online_env_def offline_env_def)
    show ?thesis
      unfolding main_parsed [OF p latlon_to_tile_example] m2 end2 by (simp add: blank_world_def)
  qed
  obtain w1 where w1: "main disk_full_env (Inr example_args) blank_world = (Inr (), w1)"
    "stderr w1 = []" "gets w1 = 2" "writes w1 = 3" "files w1 = [?p \<mapsto> []]"
    "saved w1 = [''out.png'' \<mapsto> ''PNG'']"
    using run1 by blast
  obtain w2' where w2': "main ?E (Inr example_args) blank_world =
        (Inl (Raised (Exception ''No space left on device'')), w2')"
    "stderr w2' = []" "saved w2' = [''out.png'' \<mapsto> []]"
    using run2 by blast
  show ?thesis
    unfolding w1(1) w2'(1) using w1(2-) w2'(2-) by (simp add: tile_path_example)
qed

subsection \<open>Missing tiles in the stitcher\<close>

lemma stitch_cell_absent:
  assumes "safe_open_png E fs (tile_path dir x y) = Inr None" and "0 \<le> tw" and "0 \<le> th"
  shows "stitch_cell E fs dir tw th half bg_rgba (x, y, dx, dy) canvas =
    Inr (paste \<lparr>width = tw, height = th,
               pixel = (\<lambda>X Y. case bg_rgba of Some color \<Rightarrow> color | None \<Rightarrow> (0, 0, 0, 0))\<rparr>
           ((dx + half) * tw, (dy + half) * th) canvas)"
  using assms by (simp add: stitch_cell_def Image_new_def Let_def)

lemma paste_pixel:
  "pixel (paste tile (px, py) canvas) X Y =
     (if px \<le> X \<and> X < px + width tile \<and> py \<le> Y \<and> Y < py + height tile
         \<and> 0 \<le> X \<and> X < width canvas \<and> 0 \<le> Y \<and> Y < height canvas
      then pixel tile (X - px) (Y - py) else pixel canvas X Y)"
  "width (paste tile (px, py) canvas) = width canvas"
  "height (paste tile (px, py) canvas) = height canvas"
  by (simp_all add: paste_def)

text \<open>
  C5. Let the file of a grid cell \<open>(x, y, dx, dy)\<close> be missing, zero-length, or such that
  decoding it raises an error. Then \<^verbatim>\<open>safe_open_png\<close> returns \<open>None\<close> and raises nothing.
  With \<open>h = grid_size div 2\<close> and a tile size \<open>tw \<times> th\<close>, the step of the stitcher for
  this cell pastes a block of width \<open>tw\<close> and height \<open>th\<close>, every pixel of which is the
  background colour (or transparent black \<open>(0, 0, 0, 0)\<close> when none is configured), at
  the origin \<open>((dx + h) * tw, (dy + h) * th)\<close>, and the loop goes on with that canvas:
  afterwards the pixels of the block that lie on the canvas have the fill colour and
  all others are as before. \<^verbatim>\<open>stitch_from_folder\<close> runs this loop with the inferred tile
  size on a transparent canvas of \<open>tw * grid_size\<close> by \<open>th * grid_size\<close> pixels.
\<close>

theorem missing_tile_is_background_block:
  assumes "fs (tile_path dir x y) = None \<or> fs (tile_path dir x y) = Some []
    \<or> (\<exists>content msg. fs (tile_path dir x y) = Some content
          \<and> png_decode E content = Inl (Exception msg))"
    and "0 \<le> tw" and "0 \<le> th"
  shows "safe_open_png E fs (tile_path dir x y) = Inr None
    \<and> stitch_cell E fs dir tw th (n div 2) bg_rgba (x, y, dx, dy) canvas =
        Inr (paste \<lparr>width = tw, height = th,
                   pixel = (\<lambda>X Y. case bg_rgba of Some color \<Rightarrow> color | None \<Rightarrow> (0, 0, 0, 0))\<rparr>
               ((dx + n div 2) * tw, (dy + n div 2) * th) canvas)
    \<and> stitch_cells E fs dir tw th (n div 2) bg_rgba ((x, y, dx, dy) # rest) canvas =
        stitch_cells E fs dir tw th (n div 2) bg_rgba rest
          (paste \<lparr>width = tw, height = th,
                   pixel = (\<lambda>X Y. case bg_rgba of Some color \<Rightarrow> color | None \<Rightarrow> (0, 0, 0, 0))\<rparr>
               ((dx + n div 2) * tw, (dy + n div 2) * th) canvas)
    \<and> (\<forall>X Y. pixel (paste \<lparr>width = tw, height = th,
                   pixel = (\<lambda>X Y. case bg_rgba of Some color \<Rightarrow> color | None \<Rightarrow> (0, 0, 0, 0))\<rparr>
               ((dx + n div 2) * tw, (dy + n div 2) * th) canvas) X Y =
          (if (dx + n div 2) * tw \<le> X \<and> X < (dx + n div 2) * tw + tw
              \<and> (dy + n div 2) * th \<le> Y \<and> Y < (dy + n div 2) * th + th
              \<and> 0 \<le> X \<and> X < width canvas \<and> 0 \<le> Y \<and> Y < height canvas
           then (case bg_rgba of Some color \<Rightarrow> color | None \<Rightarrow> (0, 0, 0, 0))
           else pixel canvas X Y))
    \<and> (tile_size E fs dir cells = Inr (tw, th) \<and> 0 \<le> n \<longrightarrow>
          stitch_from_folder E fs dir cells n bg_rgba =
            stitch_cells E fs dir tw th (n div 2) bg_rgba cells
              \<lparr>width = tw * n, height = th * n, pixel = (\<lambda>X Y. (0, 0, 0, 0))\<rparr>)"
proof -
  have absent: "safe_open_png E fs (tile_path dir x y) = Inr None"
    using assms(1) by (rule safe_open_png_absent)
  note cell = stitch_cell_absent [OF absent assms(2,3)]
  have whole: "stitch_from_folder E fs dir cells n bg_rgba =
      stitch_cells E fs dir tw th (n div 2) bg_rgba cells
        \<lparr>width = tw * n, height = th * n, pixel = (\<lambda>X Y. (0, 0, 0, 0))\<rparr>"
    if sz: "tile_size E fs dir cells = Inr (tw, th)" and n: "0 \<le> n"
  proof -
    have "\<not> tw * n < 0" and "\<not> th * n < 0"
      using assms(2,3) n by (simp_all add: not_less)
    then show ?thesis by (simp add: stitch_from_folder_def Image_new_def sz)
  qed
  show ?thesis
    using absent whole by (simp add: cell paste_pixel)
qed

theorem missing_tile_is_background_block_witness:
  "safe_open_png offline_env [''tmp/tile_5_7.png'' \<mapsto> ''not a png''] ''tmp/tile_5_7.png''
     = Inr None
   \<and> (\<exists>img. stitch_cell offline_env [''tmp/tile_5_7.png'' \<mapsto> ''not a png''] ''tmp'' 2 2 (3 div 2)
          (Some (245, 245, 245, 255)) (5, 7, 0, 0)
          \<lparr>width = 6, height = 6, pixel = (\<lambda>X Y. (0, 0, 0, 0))\<rparr> = Inr img
        \<and> pixel img 2 2 = (245, 245, 245, 255) \<and> pixel img 3 3 = (245, 245, 245, 255)
        \<and> pixel img 1 2 = (0, 0, 0, 0) \<and> pixel img 4 3 = (0, 0, 0, 0))
   \<and> (\<exists>img. stitch_from_folder offline_env [''tmp/tile_5_7.png'' \<mapsto> ''not a png''] ''tmp''
          [(5, 7, 0, 0)] 1 (Some (245, 245, 245, 255)) = Inr img
        \<and> width img = 1000 \<and> height img = 1000
        \<and> pixel img 0 0 = (245, 245, 245, 255) \<and> pixel img 999 999 = (245, 245, 245, 255))"
proof -
  let ?fs = "[''tmp/tile_5_7.png'' \<mapsto> ''not a png'']"
  let ?bg = "Some (245, 245, 245, 255) :: rgba option"
  have p: "tile_path ''tmp'' 5 7 = ''tmp/tile_5_7.png''"
    by code_simp
  have bad: "?fs (tile_path ''tmp'' 5 7) = None
    \<or> ?fs (tile_path ''tmp'' 5 7) = Some []
    \<or> (\<exists>content msg. ?fs (tile_path ''tmp'' 5 7) = Some content
          \<and> png_decode offline_env content = Inl (Exception msg))"
    unfolding p by (simp add: offline_env_def)
  have two: "(0::int) \<le> 2" and thousand: "(0::int) \<le> 1000" by simp_all
  have size: "tile_size offline_env ?fs ''tmp'' [(5, 7, 0, 0)] = Inr (1000, 1000) \<and> (0::int) \<le> 1"
    by (simp add: tile_size_def p safe_open_png_def offline_env_def DEFAULT_FALLBACK_TILE_def)
  note small = missing_tile_is_background_block
      [where fs = ?fs and dir = "''tmp''"
         and x = 5 and y = 7 and E = offline_env and tw = 2 and th = 2 and n = 3
         and bg_rgba = ?bg and dx = 0 and dy = 0
         and canvas = "\<lparr>width = 6, height = 6, pixel = (\<lambda>X Y. (0, 0, 0, 0))\<rparr>",
       OF bad two two]
  note whole = missing_tile_is_background_block
      [where fs = ?fs and dir = "''tmp''"
         and x = 5 and y = 7 and E = offline_env and tw = 1000 and th = 1000 and n = 1
         and bg_rgba = ?bg and dx = 0 and dy = 0 and rest = "[]"
         and cells = "[(5, 7, 0, 0)]"
         and canvas = "\<lparr>width = 1000, height = 1000, pixel = (\<lambda>X Y. (0, 0, 0, 0))\<rparr>",
       OF bad thousand thousand]
  have absent: "safe_open_png offline_env ?fs ''tmp/tile_5_7.png'' = Inr None"
    using small [THEN conjunct1] unfolding p .
  have cell: "\<exists>img. stitch_cell offline_env ?fs ''tmp'' 2 2 (3 div 2) ?bg (5, 7, 0, 0)
          \<lparr>width = 6, height = 6, pixel = (\<lambda>X Y. (0, 0, 0, 0))\<rparr> = Inr img
        \<and> pixel img 2 2 = (245, 245, 245, 255) \<and> pixel img 3 3 = (245, 245, 245, 255)
        \<and> pixel img 1 2 = (0, 0, 0, 0) \<and> pixel img 4 3 = (0, 0, 0, 0)"
    using small [THEN conjunct2, THEN conjunct1]
      small [THEN conjunct2, THEN conjunct2, THEN conjunct2, THEN conjunct1]
    by simp
  have run: "stitch_from_folder offline_env ?fs ''tmp'' [(5, 7, 0, 0)] 1 ?bg =
      stitch_cells offline_env ?fs ''tmp'' 1000 1000 (1 div 2) ?bg [(5, 7, 0, 0)]
        \<lparr>width = 1000 * 1, height = 1000 * 1, pixel = (\<lambda>X Y. (0, 0, 0, 0))\<rparr>"
    using whole [THEN conjunct2, THEN conjunct2, THEN conjunct2, THEN conjunct2] size
    by (rule mp)
  have image: "\<exists>img. stitch_from_folder offline_env ?fs ''tmp'' [(5, 7, 0, 0)] 1 ?bg = Inr img
        \<and> width img = 1000 \<and> height img = 1000
        \<and> pixel img 0 0 = (245, 245, 245, 255) \<and> pixel img 999 999 = (245, 245, 245, 255)"
    unfolding run
    using whole [THEN conjunct2, THEN conjunct2, THEN conjunct1]
      whole [THEN conjunct2, THEN conjunct2, THEN conjunct2, THEN conjunct1]
    by (simp add: paste_pixel)
  show ?thesis using absent cell image by simp
qed

end
